theory Spec2Isabelle
  imports Complex_Main
begin

section \<open>Tower defense: the simulation of game.js\<close>

text \<open>
  A shallow embedding of the simulation core of \<^verbatim>\<open>game.js\<close>: the classes
  \<^verbatim>\<open>Game\<close>, \<^verbatim>\<open>Tower\<close>, \<^verbatim>\<open>Enemy\<close>, \<^verbatim>\<open>Projectile\<close> and \<^verbatim>\<open>WaveManager\<close>.

  Conventions of the embedding.
  \<^item> A JavaScript Number is a \<open>real\<close>: arithmetic is exact, and NaN, the infinities and
    rounding are outside the model, with one exception: the time between two shots of a
    tower depends on the rounding of \<^verbatim>\<open>this.fireCooldown -= deltaTime\<close>, so the methods of
    \<^verbatim>\<open>Tower\<close> are also given with the arithmetic of IEEE doubles (\<open>Tower_update_double\<close>,
    \<open>Tower_upgrade_double\<close>), and the life of one tower is followed there. The source
    divides by a distance only where the distance is at least 1 (enemies) or 5
    (projectiles), and by \<open>fireRate\<close>; the statements about \<open>1 / fireRate\<close> are made for a
    positive fire rate, which every tower of a session has (\<open>tower_ok\<close>). Counters that
    index arrays (\<open>pathIndex\<close>, \<open>currentWaveIndex\<close>) and the tower \<open>level\<close> are \<open>nat\<close>.
  \<^item> Enemy objects live in a store \<open>heap\<close> from references (\<open>nat\<close>) to enemy records;
    \<open>new Enemy\<close> allocates the reference \<open>nextId\<close>. The live collection
    \<open>this.enemies\<close> is a list of references, and a projectile holds the reference of
    its target, so an enemy spliced out of the live collection is still the object a
    projectile points to, as in the source.
  \<^item> Every enemy shares the array \<open>game.path\<close>, which is never mutated; the model passes
    the path of the game to \<open>Enemy_update\<close> instead of storing it in each enemy.
  \<^item> \<open>alert(...)\<close> is an output: the click handler returns the list of alerts it raised
    together with the new state. A \<open>TypeError\<close> thrown by the source is the value
    \<open>Inl TypeError\<close>.
  \<^item> Drawing (\<open>draw\<close>, \<open>drawUI\<close>, the colours, \<open>mouseX\<close>/\<open>mouseY\<close>), the DOM wiring and
    \<open>gameLoop\<close> (which computes \<open>deltaTime\<close> and calls \<open>update\<close>) are not modelled: a tick
    is \<open>Game_update dt\<close> for the time step \<open>dt\<close> that \<open>gameLoop\<close> passes.
\<close>

subsection \<open>Constants and data\<close>

definition CANVAS_WIDTH :: real where "CANVAS_WIDTH = 800"

definition CANVAS_HEIGHT :: real where "CANVAS_HEIGHT = 600"

definition GRID_SIZE :: real where "GRID_SIZE = 40"

definition GRID_WIDTH :: real where
  "GRID_WIDTH = of_int \<lfloor>CANVAS_WIDTH / GRID_SIZE\<rfloor>"

definition GRID_HEIGHT :: real where
  "GRID_HEIGHT = of_int \<lfloor>CANVAS_HEIGHT / GRID_SIZE\<rfloor>"

datatype js_error = TypeError

datatype alert = NotEnoughMoney | NeedToUpgrade real

type_synonym point = "real \<times> real"

record tower_stats =
  t_cost :: real
  t_damage :: real
  t_range :: real
  t_fireRate :: real

record enemy_stats =
  e_health :: real
  e_speed :: real
  e_reward :: real
  e_size :: real

record tower =
  tx :: real
  ty :: real
  ttype :: string
  damage :: real
  trange :: real
  fireRate :: real
  level :: nat
  fireCooldown :: real
  upgradeCost :: real

record enemy =
  etype :: string
  health :: real
  maxHealth :: real
  speed :: real
  reward :: real
  esize :: real
  pathIndex :: nat
  ex :: real
  ey :: real

record projectile =
  px :: real
  py :: real
  target :: "nat option"
  pdamage :: real
  pspeed :: real
  markedForDeletion :: bool

record cell =
  walkable :: bool
  ctower :: "nat option"

record wave_manager =
  waves :: "string list list"
  currentWaveIndex :: nat
  waveCooldown :: real
  waveInterval :: real
  totalWaves :: nat
  spawnTimer :: "real option"

record game =
  towers :: "tower list"
  enemies :: "nat list"
  projectiles :: "projectile list"
  waveManager :: wave_manager
  money :: real
  score :: real
  lives :: real
  gameOver :: bool
  gameWon :: bool
  selectedTowerType :: string
  placingTower :: bool
  grid :: "cell list list"
  path :: "point list"
  heap :: "nat \<Rightarrow> enemy"
  nextId :: nat

text \<open>The tables \<^verbatim>\<open>towerTypes\<close> and \<^verbatim>\<open>enemyTypes\<close> of the constructor of \<^verbatim>\<open>Game\<close>.\<close>

definition towerTypes :: "string \<rightharpoonup> tower_stats" where
  "towerTypes = [
     ''basic'' \<mapsto> \<lparr>t_cost = 50, t_damage = 10, t_range = 100, t_fireRate = 1\<rparr>,
     ''sniper'' \<mapsto> \<lparr>t_cost = 100, t_damage = 30, t_range = 200, t_fireRate = 1/2\<rparr>,
     ''rapid'' \<mapsto> \<lparr>t_cost = 75, t_damage = 5, t_range = 80, t_fireRate = 3\<rparr>,
     ''splash'' \<mapsto> \<lparr>t_cost = 120, t_damage = 15, t_range = 90, t_fireRate = 12/10\<rparr>]"

definition enemyTypes :: "string \<rightharpoonup> enemy_stats" where
  "enemyTypes = [
     ''basic'' \<mapsto> \<lparr>e_health = 50, e_speed = 1, e_reward = 10, e_size = 20\<rparr>,
     ''fast'' \<mapsto> \<lparr>e_health = 30, e_speed = 2, e_reward = 15, e_size = 15\<rparr>,
     ''tank'' \<mapsto> \<lparr>e_health = 150, e_speed = 1/2, e_reward = 30, e_size = 25\<rparr>,
     ''boss'' \<mapsto> \<lparr>e_health = 300, e_speed = 3/10, e_reward = 100, e_size = 30\<rparr>]"

subsection \<open>Constructors\<close>

definition new_Tower :: "real \<Rightarrow> real \<Rightarrow> string \<Rightarrow> tower_stats \<Rightarrow> tower" where
  "new_Tower x y kind stats =
     \<lparr>tx = x, ty = y, ttype = kind, damage = t_damage stats, trange = t_range stats,
      fireRate = t_fireRate stats, level = 1, fireCooldown = 0, upgradeCost = 50\<rparr>"

text \<open>\<^verbatim>\<open>new Enemy(type, stats, path)\<close> reads \<^verbatim>\<open>path[0].x\<close>: a TypeError on an empty path.\<close>

definition new_Enemy :: "string \<Rightarrow> enemy_stats \<Rightarrow> point list \<Rightarrow> js_error + enemy" where
  "new_Enemy kind stats pa =
     (case pa of
        [] \<Rightarrow> Inl TypeError
      | p0 # _ \<Rightarrow>
          Inr \<lparr>etype = kind, health = e_health stats, maxHealth = e_health stats,
               speed = e_speed stats, reward = e_reward stats, esize = e_size stats,
               pathIndex = 0, ex = fst p0, ey = snd p0\<rparr>)"

definition new_Projectile :: "real \<Rightarrow> real \<Rightarrow> nat option \<Rightarrow> real \<Rightarrow> projectile" where
  "new_Projectile x y tg dmg =
     \<lparr>px = x, py = y, target = tg, pdamage = dmg, pspeed = 300, markedForDeletion = False\<rparr>"

definition createWaves :: "string list list" where
  "createWaves =
     [[''basic'', ''basic'', ''basic'', ''basic'', ''basic''],
      [''basic'', ''fast'', ''basic'', ''fast''],
      [''basic'', ''basic'', ''tank'', ''basic''],
      [''fast'', ''fast'', ''fast'', ''tank''],
      [''tank'', ''tank'', ''basic'', ''basic'', ''fast'', ''fast''],
      [''boss'', ''basic'', ''basic'', ''tank'']]"

definition new_WaveManager :: wave_manager where
  "new_WaveManager =
     \<lparr>waves = createWaves, currentWaveIndex = 0, waveCooldown = 0, waveInterval = 5,
      totalWaves = length createWaves, spawnTimer = None\<rparr>"

text \<open>What the store holds at a reference before \<^verbatim>\<open>new Enemy\<close> allocates it.\<close>

definition no_enemy :: enemy where
  "no_enemy = \<lparr>etype = [], health = 0, maxHealth = 0, speed = 0, reward = 0, esize = 0,
               pathIndex = 0, ex = 0, ey = 0\<rparr>"

text \<open>
  The fields the constructor of \<^verbatim>\<open>Game\<close> assigns, with the grid and the path as
  parameters: the claims below are about the operations on a session, whatever its grid
  and path. The constructor itself is \<open>Game_constructor\<close> below.
\<close>

definition new_Game :: "cell list list \<Rightarrow> point list \<Rightarrow> game" where
  "new_Game gr pa =
     \<lparr>towers = [], enemies = [], projectiles = [], waveManager = new_WaveManager,
      money = 150, score = 0, lives = 20, gameOver = False, gameWon = False,
      selectedTowerType = ''basic'', placingTower = False, grid = gr, path = pa,
      heap = (\<lambda>_. no_enemy), nextId = 0\<rparr>"

subsection \<open>The path, the grid and the constructor of Game\<close>

text \<open>
  \<^verbatim>\<open>createPath\<close>: the start point and three loops. The first two run \<open>i\<close> over the
  integers from 1 while \<open>i \<le> GRID_WIDTH / 3\<close> (\<open>GRID_HEIGHT / 3\<close>); the third starts at
  \<open>GRID_WIDTH / 3 + 1\<close>, which is not an integer, and adds 1 while \<open>i \<le> GRID_WIDTH\<close>.
\<close>

definition createPath :: "point list" where
  "createPath =
     (let startX = 0;
          startY = of_int \<lfloor>GRID_HEIGHT / 2\<rfloor> * GRID_SIZE
      in [(startX, startY)]
         @ map (\<lambda>i. (of_int i * GRID_SIZE, startY)) [1 .. \<lfloor>GRID_WIDTH / 3\<rfloor>]
         @ map (\<lambda>i. ((GRID_WIDTH / 3) * GRID_SIZE, startY + of_int i * GRID_SIZE))
             [1 .. \<lfloor>GRID_HEIGHT / 3\<rfloor>]
         @ map (\<lambda>k. ((GRID_WIDTH / 3 + 1 + of_int k) * GRID_SIZE,
                      startY + (GRID_HEIGHT / 3) * GRID_SIZE))
             [0 .. \<lfloor>GRID_WIDTH - (GRID_WIDTH / 3 + 1)\<rfloor>])"

text \<open>
  \<^verbatim>\<open>createGrid\<close> reads \<^verbatim>\<open>this.path\<close>; its argument is that field, \<open>None\<close> while it is
  still \<^verbatim>\<open>undefined\<close> (then \<^verbatim>\<open>this.path.forEach\<close> throws).
\<close>

definition mark_path_cell :: "point \<Rightarrow> cell list list \<Rightarrow> cell list list" where
  "mark_path_cell p gr =
     (let gridX = \<lfloor>fst p / GRID_SIZE\<rfloor>; gridY = \<lfloor>snd p / GRID_SIZE\<rfloor>
      in if 0 \<le> gridY \<and> of_int gridY < GRID_HEIGHT \<and> 0 \<le> gridX \<and> of_int gridX < GRID_WIDTH
         then gr[nat gridY := (gr ! nat gridY)[nat gridX :=
                   (gr ! nat gridY ! nat gridX)\<lparr>walkable := False\<rparr>]]
         else gr)"

definition createGrid :: "point list option \<Rightarrow> js_error + cell list list" where
  "createGrid this_path =
     (let gr = replicate (nat \<lfloor>GRID_HEIGHT\<rfloor>)
                 (replicate (nat \<lfloor>GRID_WIDTH\<rfloor>) \<lparr>walkable = True, ctower = None\<rparr>)
      in case this_path of
           None \<Rightarrow> Inl TypeError
         | Some pa \<Rightarrow> Inr (fold mark_path_cell pa gr))"

text \<open>
  The constructor of \<^verbatim>\<open>Game\<close> assigns \<^verbatim>\<open>this.grid = this.createGrid()\<close> on the line
  before \<^verbatim>\<open>this.path = this.createPath()\<close>, so \<^verbatim>\<open>createGrid\<close> runs while the path is
  still \<^verbatim>\<open>undefined\<close>.
\<close>

definition Game_constructor :: "js_error + game" where
  "Game_constructor =
     (case createGrid None of
        Inl err \<Rightarrow> Inl err
      | Inr gr \<Rightarrow> Inr (new_Game gr createPath))"

text \<open>The grid the constructor is written to build, had the path been assigned first.\<close>

definition path_grid :: "cell list list" where
  "path_grid = (case createGrid (Some createPath) of Inr gr \<Rightarrow> gr | Inl _ \<Rightarrow> [])"

subsection \<open>Tower\<close>

text \<open>
  The target search of \<^verbatim>\<open>Tower.update\<close>: the loop over \<^verbatim>\<open>enemies\<close> with the
  accumulator \<^verbatim>\<open>(target, minDist)\<close>. \<open>minDist = None\<close> is \<^verbatim>\<open>Infinity\<close>.
\<close>

definition tower_dist :: "tower \<Rightarrow> enemy \<Rightarrow> real" where
  "tower_dist t e = sqrt ((ex e - tx t) ^ 2 + (ey e - ty t) ^ 2)"

definition lt_minDist :: "real \<Rightarrow> real option \<Rightarrow> bool" where
  "lt_minDist d m = (case m of None \<Rightarrow> True | Some m' \<Rightarrow> d < m')"

fun find_target ::
  "tower \<Rightarrow> (nat \<Rightarrow> enemy) \<Rightarrow> nat list \<Rightarrow> nat option \<times> real option \<Rightarrow> nat option \<times> real option"
where
  "find_target t h [] acc = acc"
| "find_target t h (r # rs) (tg, minDist) =
     (let dist = tower_dist t (h r) in
      if dist \<le> trange t \<and> lt_minDist dist minDist
      then find_target t h rs (Some r, Some dist)
      else find_target t h rs (tg, minDist))"

text \<open>
  \<^verbatim>\<open>Tower.update\<close> returns the tower and the projectiles it pushed (none or one). The
  subtraction and the division on the cooldown are exact here; \<open>Tower_update_double\<close>
  below rounds them as the source does, and the two agree whenever both results are
  doubles (lemma \<open>Tower_update_double_exact\<close>).
\<close>

definition Tower_update ::
  "real \<Rightarrow> (nat \<Rightarrow> enemy) \<Rightarrow> nat list \<Rightarrow> tower \<Rightarrow> tower \<times> projectile list" where
  "Tower_update dt h es t =
     (let t1 = t\<lparr>fireCooldown := fireCooldown t - dt\<rparr> in
      if fireCooldown t1 \<le> 0 then
        (case fst (find_target t1 h es (None, None)) of
           Some r \<Rightarrow>
             (t1\<lparr>fireCooldown := 1 / fireRate t1\<rparr>,
              [new_Projectile (tx t1) (ty t1) (Some r) (damage t1)])
         | None \<Rightarrow> (t1, []))
      else (t1, []))"

definition Tower_upgrade :: "tower \<Rightarrow> tower" where
  "Tower_upgrade t =
     t\<lparr>level := level t + 1,
       damage := of_int \<lfloor>damage t * (15/10)\<rfloor>,
       trange := trange t + 10,
       fireRate := fireRate t * (11/10),
       upgradeCost := upgradeCost t + 25\<rparr>"

subsection \<open>Tower, in double arithmetic\<close>

text \<open>
  A JavaScript Number is an IEEE 754 binary64 value, and an arithmetic operator returns
  the exact result rounded to the nearest double, ties to the even significand. A
  finite double is an integer multiple, of magnitude below \<open>2^53\<close>, of a power of two
  from \<open>2^-1074\<close> to \<open>2^971\<close>. \<open>ulp x\<close> is the power of two whose multiples are the doubles
  around \<open>x\<close>: the one that takes \<open>\<bar>x\<bar>\<close> into \<open>[2^52, 2^53)\<close>, and \<open>2^-1074\<close> for the
  subnormal \<open>x\<close>. \<open>rne\<close> rounds to the nearest integer, ties to even, and \<open>dround x\<close> is
  the double for the exact result \<open>x\<close>. A result at or beyond the overflow threshold is
  an infinity in the source and is outside the model.
\<close>

definition rne :: "real \<Rightarrow> int" where
  "rne x =
     (let f = \<lfloor>x\<rfloor>; d = x - of_int f
      in if d < 1/2 then f else if 1/2 < d then f + 1 else if even f then f else f + 1)"

fun ulp_small :: "nat \<Rightarrow> real \<Rightarrow> real" where
  "ulp_small 0 x = 1"
| "ulp_small (Suc n) x = (if 2 ^ 52 \<le> \<bar>x\<bar> then 1 else ulp_small n (2 * x) / 2)"

fun ulp_big :: "nat \<Rightarrow> real \<Rightarrow> real" where
  "ulp_big 0 x = 1"
| "ulp_big (Suc n) x = (if \<bar>x\<bar> < 2 ^ 53 then 1 else 2 * ulp_big n (x / 2))"

definition ulp :: "real \<Rightarrow> real" where
  "ulp x = (if \<bar>x\<bar> < 2 ^ 53 then ulp_small 1074 x else ulp_big 971 x)"

definition dround :: "real \<Rightarrow> real" where
  "dround x = (if x = 0 then 0 else of_int (rne (x / ulp x)) * ulp x)"

text \<open>The operators \<^verbatim>\<open>-\<close>, \<^verbatim>\<open>/\<close>, \<^verbatim>\<open>*\<close> and \<^verbatim>\<open>+\<close> of the source on doubles.\<close>

definition dsub :: "real \<Rightarrow> real \<Rightarrow> real" where
  "dsub x y = dround (x - y)"

definition ddiv :: "real \<Rightarrow> real \<Rightarrow> real" where
  "ddiv x y = dround (x / y)"

definition dmul :: "real \<Rightarrow> real \<Rightarrow> real" where
  "dmul x y = dround (x * y)"

definition dadd :: "real \<Rightarrow> real \<Rightarrow> real" where
  "dadd x y = dround (x + y)"

text \<open>
  \<^verbatim>\<open>Tower.update\<close> with the subtraction and the division of the source on the cooldown.
  The target search is that of \<open>Tower_update\<close>: \<^verbatim>\<open>Math.sqrt\<close> and \<^verbatim>\<open>**\<close> are
  implementation-approximated, and no statement on the cooldown depends on a distance.
\<close>

definition Tower_update_double ::
  "real \<Rightarrow> (nat \<Rightarrow> enemy) \<Rightarrow> nat list \<Rightarrow> tower \<Rightarrow> tower \<times> projectile list" where
  "Tower_update_double dt h es t =
     (let t1 = t\<lparr>fireCooldown := dsub (fireCooldown t) dt\<rparr> in
      if fireCooldown t1 \<le> 0 then
        (case fst (find_target t1 h es (None, None)) of
           Some r \<Rightarrow>
             (t1\<lparr>fireCooldown := ddiv 1 (fireRate t1)\<rparr>,
              [new_Projectile (tx t1) (ty t1) (Some r) (damage t1)])
         | None \<Rightarrow> (t1, []))
      else (t1, []))"

text \<open>
  \<^verbatim>\<open>Tower.upgrade\<close>. The literal \<^verbatim>\<open>1.5\<close> is the double \<open>3/2\<close>; the literal \<^verbatim>\<open>1.1\<close> is the
  double nearest to \<open>11/10\<close>.
\<close>

definition Tower_upgrade_double :: "tower \<Rightarrow> tower" where
  "Tower_upgrade_double t =
     t\<lparr>level := level t + 1,
       damage := of_int \<lfloor>dmul (damage t) (3/2)\<rfloor>,
       trange := dadd (trange t) 10,
       fireRate := dmul (fireRate t) (dround (11/10)),
       upgradeCost := dadd (upgradeCost t) 25\<rparr>"

subsection \<open>Enemy\<close>

definition Enemy_update :: "real \<Rightarrow> point list \<Rightarrow> enemy \<Rightarrow> enemy" where
  "Enemy_update dt pa e =
     (if int (pathIndex e) \<ge> int (length pa) - 1
      then e\<lparr>ex := ex e + speed e * GRID_SIZE * dt\<rparr>
      else
        let tgt = pa ! (pathIndex e + 1);
            dx = fst tgt - ex e;
            dy = snd tgt - ey e;
            dist = sqrt (dx * dx + dy * dy)
        in if dist < 1 then e\<lparr>pathIndex := pathIndex e + 1\<rparr>
           else e\<lparr>ex := ex e + (dx / dist) * speed e * GRID_SIZE * dt,
                  ey := ey e + (dy / dist) * speed e * GRID_SIZE * dt\<rparr>)"

subsection \<open>Projectile\<close>

text \<open>
  \<^verbatim>\<open>Projectile.update\<close> writes \<^verbatim>\<open>this.target.health\<close>: it returns the projectile and the
  store. It does not read the live collection.
\<close>

definition Projectile_update ::
  "real \<Rightarrow> (nat \<Rightarrow> enemy) \<Rightarrow> projectile \<Rightarrow> projectile \<times> (nat \<Rightarrow> enemy)" where
  "Projectile_update dt h p =
     (case target p of
        None \<Rightarrow> (p\<lparr>markedForDeletion := True\<rparr>, h)
      | Some r \<Rightarrow>
          if health (h r) \<le> 0 then (p\<lparr>markedForDeletion := True\<rparr>, h)
          else
            let dx = ex (h r) - px p;
                dy = ey (h r) - py p;
                dist = sqrt (dx * dx + dy * dy)
            in if dist < 5
               then (p\<lparr>markedForDeletion := True\<rparr>,
                     h(r := (h r)\<lparr>health := health (h r) - pdamage p\<rparr>))
               else (p\<lparr>px := px p + (dx / dist) * pspeed p * dt,
                       py := py p + (dy / dist) * pspeed p * dt\<rparr>, h))"

text \<open>The distance from a projectile to an enemy, as \<^verbatim>\<open>Projectile.update\<close> computes it.\<close>

definition projectile_dist :: "projectile \<Rightarrow> enemy \<Rightarrow> real" where
  "projectile_dist p e = sqrt ((ex e - px p) * (ex e - px p) + (ey e - py p) * (ey e - py p))"

subsection \<open>WaveManager\<close>

text \<open>
  \<^verbatim>\<open>WaveManager.update\<close> pushes onto \<^verbatim>\<open>game.enemies\<close> and reads \<^verbatim>\<open>game.enemyTypes\<close> and
  \<^verbatim>\<open>game.path\<close>, so it is a function of the game. \<open>spawnTimer = None\<close> is \<^verbatim>\<open>undefined\<close>.
\<close>

definition WaveManager_update :: "real \<Rightarrow> game \<Rightarrow> js_error + game" where
  "WaveManager_update dt g =
     (let wm = waveManager g in
      if currentWaveIndex wm \<ge> length (waves wm) then Inr g
      else if waveCooldown wm > 0
      then Inr (g\<lparr>waveManager := wm\<lparr>waveCooldown := waveCooldown wm - dt\<rparr>\<rparr>)
      else
        (case waves wm ! currentWaveIndex wm of
           enemyType # rest \<Rightarrow>
             let st = (case spawnTimer wm of None \<Rightarrow> 0 | Some s \<Rightarrow> s) + dt in
             if st \<ge> 1 then
               let wm' = wm\<lparr>waves := (waves wm)[currentWaveIndex wm := rest],
                            spawnTimer := Some 0\<rparr>
               in (case enemyTypes enemyType of
                     Some stats \<Rightarrow>
                       (case new_Enemy enemyType stats (path g) of
                          Inl err \<Rightarrow> Inl err
                        | Inr en \<Rightarrow>
                            Inr (g\<lparr>heap := (heap g)(nextId g := en),
                                   nextId := Suc (nextId g),
                                   enemies := enemies g @ [nextId g],
                                   waveManager := wm'\<rparr>))
                   | None \<Rightarrow> Inr (g\<lparr>waveManager := wm'\<rparr>))
             else Inr (g\<lparr>waveManager := wm\<lparr>spawnTimer := Some st\<rparr>\<rparr>)
         | [] \<Rightarrow>
             if enemies g = []
             then Inr (g\<lparr>waveManager :=
                          wm\<lparr>currentWaveIndex := currentWaveIndex wm + 1,
                             waveCooldown := waveInterval wm,
                             spawnTimer := None\<rparr>\<rparr>)
             else Inr g))"

subsection \<open>Game.update\<close>

text \<open>\<^verbatim>\<open>xs.splice(i, 1)\<close>.\<close>

definition splice1 :: "nat \<Rightarrow> 'a list \<Rightarrow> 'a list" where
  "splice1 i xs = take i xs @ drop (Suc i) xs"

text \<open>
  The body of the loop over the enemies, at index \<open>i\<close>, and the loop, called with the
  length of the live collection. The loop runs from \<open>length - 1\<close> down to \<open>0\<close> and a splice
  removes index \<open>i\<close> only, so \<open>i\<close> is always in range (lemma \<open>enemy_step_length\<close> below).
  The loop over the projectiles has the same shape.
\<close>

definition enemy_step :: "nat \<Rightarrow> real \<Rightarrow> game \<Rightarrow> game" where
  "enemy_step i dt g =
     (let r = enemies g ! i;
          e = Enemy_update dt (path g) (heap g r);
          g1 = g\<lparr>heap := (heap g)(r := e)\<rparr>
      in if health e \<le> 0
         then g1\<lparr>money := money g1 + reward e,
                 score := score g1 + reward e,
                 enemies := splice1 i (enemies g1)\<rparr>
         else if ex e > CANVAS_WIDTH
         then
           let g2 = g1\<lparr>lives := lives g1 - 1, enemies := splice1 i (enemies g1)\<rparr>
           in if lives g2 \<le> 0 then g2\<lparr>gameOver := True\<rparr> else g2
         else g1)"

fun enemies_loop :: "nat \<Rightarrow> real \<Rightarrow> game \<Rightarrow> game" where
  "enemies_loop 0 dt g = g"
| "enemies_loop (Suc i) dt g = enemies_loop i dt (enemy_step i dt g)"

text \<open>\<^verbatim>\<open>this.towers.forEach(tower => tower.update(deltaTime, this.enemies, this.projectiles))\<close>:
  the towers in order, with the projectiles they push, in order.\<close>

fun towers_loop ::
  "real \<Rightarrow> (nat \<Rightarrow> enemy) \<Rightarrow> nat list \<Rightarrow> tower list \<Rightarrow> tower list \<times> projectile list" where
  "towers_loop dt h es [] = ([], [])"
| "towers_loop dt h es (t # ts) =
     (let (t', ps) = Tower_update dt h es t;
          (ts', ps') = towers_loop dt h es ts
      in (t' # ts', ps @ ps'))"

definition towers_phase :: "real \<Rightarrow> game \<Rightarrow> game" where
  "towers_phase dt g =
     (let (ts', ps) = towers_loop dt (heap g) (enemies g) (towers g)
      in g\<lparr>towers := ts', projectiles := projectiles g @ ps\<rparr>)"

definition projectile_step :: "nat \<Rightarrow> real \<Rightarrow> game \<Rightarrow> game" where
  "projectile_step i dt g =
     (let (p', h') = Projectile_update dt (heap g) (projectiles g ! i);
          g1 = g\<lparr>heap := h', projectiles := (projectiles g)[i := p']\<rparr>
      in if markedForDeletion p'
         then g1\<lparr>projectiles := splice1 i (projectiles g1)\<rparr>
         else g1)"

fun projectiles_loop :: "nat \<Rightarrow> real \<Rightarrow> game \<Rightarrow> game" where
  "projectiles_loop 0 dt g = g"
| "projectiles_loop (Suc i) dt g = projectiles_loop i dt (projectile_step i dt g)"

definition win_check :: "game \<Rightarrow> game" where
  "win_check g =
     (if waves (waveManager g) = [] \<and> enemies g = [] then g\<lparr>gameWon := True\<rparr> else g)"

text \<open>The phases of \<^verbatim>\<open>Game.update\<close> after the wave manager.\<close>

definition update_phases :: "real \<Rightarrow> game \<Rightarrow> game" where
  "update_phases dt g1 =
     (let g2 = enemies_loop (length (enemies g1)) dt g1;
          g3 = towers_phase dt g2;
          g4 = projectiles_loop (length (projectiles g3)) dt g3
      in win_check g4)"

definition Game_update :: "real \<Rightarrow> game \<Rightarrow> js_error + game" where
  "Game_update dt g =
     (if gameOver g \<or> gameWon g then Inr g
      else
        (case WaveManager_update dt g of
           Inl err \<Rightarrow> Inl err
         | Inr g1 \<Rightarrow> Inr (update_phases dt g1)))"

subsection \<open>Commands\<close>

definition upgradeTower :: "nat \<Rightarrow> game \<Rightarrow> alert list \<times> game" where
  "upgradeTower i g =
     (let tower = towers g ! i;
          cost = real (level tower) * 25 + 50
      in if money g \<ge> cost
         then ([], g\<lparr>money := money g - cost, towers := (towers g)[i := Tower_upgrade tower]\<rparr>)
         else ([NeedToUpgrade cost], g))"

text \<open>\<^verbatim>\<open>this.grid[gridY] && this.grid[gridY][gridX]\<close>: \<open>None\<close> outside the arrays.\<close>

definition grid_at :: "cell list list \<Rightarrow> int \<Rightarrow> int \<Rightarrow> cell option" where
  "grid_at gr gy gx =
     (if 0 \<le> gy \<and> nat gy < length gr
      then (let row = gr ! nat gy
            in if 0 \<le> gx \<and> nat gx < length row then Some (row ! nat gx) else None)
      else None)"

text \<open>The search for the clicked tower: the first tower, from index \<open>i\<close> on, whose range
  contains the click.\<close>

fun clicked_tower :: "real \<Rightarrow> real \<Rightarrow> tower list \<Rightarrow> nat \<Rightarrow> nat option" where
  "clicked_tower x y [] i = None"
| "clicked_tower x y (t # ts) i =
     (if sqrt ((x - tx t) ^ 2 + (y - ty t) ^ 2) \<le> trange t then Some i
      else clicked_tower x y ts (Suc i))"

text \<open>\<^verbatim>\<open>handleClick\<close>, with \<open>x\<close> and \<open>y\<close> the click relative to the canvas.\<close>

definition handleClick :: "real \<Rightarrow> real \<Rightarrow> game \<Rightarrow> js_error + alert list \<times> game" where
  "handleClick x y g =
     (if gameOver g then Inr ([], g)
      else
        let gridX = \<lfloor>x / GRID_SIZE\<rfloor>; gridY = \<lfloor>y / GRID_SIZE\<rfloor>
        in if placingTower g then
             (case grid_at (grid g) gridY gridX of
                None \<Rightarrow> Inr ([], g)
              | Some c \<Rightarrow>
                  if walkable c then
                    (case towerTypes (selectedTowerType g) of
                       None \<Rightarrow> Inl TypeError
                     | Some towerType \<Rightarrow>
                         if money g \<ge> t_cost towerType then
                           let tower = new_Tower (of_int gridX * GRID_SIZE + GRID_SIZE / 2)
                                         (of_int gridY * GRID_SIZE + GRID_SIZE / 2)
                                         (selectedTowerType g) towerType;
                               row = grid g ! nat gridY
                           in Inr ([], g\<lparr>money := money g - t_cost towerType,
                                         towers := towers g @ [tower],
                                         grid := (grid g)[nat gridY :=
                                            row[nat gridX :=
                                              \<lparr>walkable = False, ctower = Some (length (towers g))\<rparr>]],
                                         placingTower := False\<rparr>)
                         else Inr ([NotEnoughMoney], g))
                  else Inr ([], g))
           else
             (case clicked_tower x y (towers g) 0 of
                Some i \<Rightarrow> Inr (upgradeTower i g)
              | None \<Rightarrow> Inr ([], g)))"

text \<open>
  \<^verbatim>\<open>startPlacingTower(type)\<close> tests \<^verbatim>\<open>this.towerTypes[type]\<close>. The kinds are the four keys of
  the table; the names an object literal inherits from \<^verbatim>\<open>Object.prototype\<close> are outside
  the model.
\<close>

definition startPlacingTower :: "string \<Rightarrow> game \<Rightarrow> game" where
  "startPlacingTower kind g =
     (case towerTypes kind of
        Some _ \<Rightarrow> g\<lparr>selectedTowerType := kind, placingTower := True\<rparr>
      | None \<Rightarrow> g)"

subsection \<open>Sessions: sequences of ticks and commands\<close>

datatype event = Tick real | Click real real | StartPlacing string

definition step :: "event \<Rightarrow> game \<Rightarrow> js_error + game" where
  "step ev g =
     (case ev of
        Tick dt \<Rightarrow> Game_update dt g
      | Click x y \<Rightarrow> (case handleClick x y g of Inl err \<Rightarrow> Inl err | Inr (_, g') \<Rightarrow> Inr g')
      | StartPlacing kind \<Rightarrow> Inr (startPlacingTower kind g))"

fun run :: "event list \<Rightarrow> game \<Rightarrow> js_error + game" where
  "run [] g = Inr g"
| "run (ev # evs) g = (case step ev g of Inl err \<Rightarrow> Inl err | Inr g' \<Rightarrow> run evs g')"

subsection \<open>The life of one tower\<close>

text \<open>
  What happens to one tower over a session, in double arithmetic: a tick in which
  \<^verbatim>\<open>Game.update\<close> calls its \<^verbatim>\<open>update\<close> with the time step, the store and the live
  collection of that tick, or an upgrade. \<open>elapsed\<close> is the simulated time of an event,
  \<open>tower_run\<close> the tower after a sequence of events, and \<open>no_shot\<close> says that no event of
  the sequence fired.
\<close>

datatype tower_event = TowerTick real "nat \<Rightarrow> enemy" "nat list" | TowerUpgrade

fun tower_step :: "tower_event \<Rightarrow> tower \<Rightarrow> tower \<times> projectile list" where
  "tower_step (TowerTick dt h es) t = Tower_update_double dt h es t"
| "tower_step TowerUpgrade t = (Tower_upgrade_double t, [])"

fun elapsed :: "tower_event \<Rightarrow> real" where
  "elapsed (TowerTick dt h es) = dt"
| "elapsed TowerUpgrade = 0"

fun tower_run :: "tower_event list \<Rightarrow> tower \<Rightarrow> tower" where
  "tower_run [] t = t"
| "tower_run (ev # evs) t = tower_run evs (fst (tower_step ev t))"

fun no_shot :: "tower_event list \<Rightarrow> tower \<Rightarrow> bool" where
  "no_shot [] t = True"
| "no_shot (ev # evs) t = (snd (tower_step ev t) = [] \<and> no_shot evs (fst (tower_step ev t)))"

text \<open>
  \<open>rounding_bound x\<close> bounds the error of rounding the exact result \<open>x\<close> to a double (lemma
  \<open>dround_error\<close>), and \<open>round_slack evs t\<close> is the sum of these bounds over the subtractions
  \<^verbatim>\<open>this.fireCooldown -= deltaTime\<close> of the ticks of \<open>evs\<close>, from the tower \<open>t\<close> on.
\<close>

definition rounding_bound :: "real \<Rightarrow> real" where
  "rounding_bound x = \<bar>x\<bar> / 2 ^ 53 + 1 / 2 ^ 1075"

fun round_slack :: "tower_event list \<Rightarrow> tower \<Rightarrow> real" where
  "round_slack [] t = 0"
| "round_slack (TowerTick dt h es # evs) t =
     rounding_bound (fireCooldown t - dt)
       + round_slack evs (fst (tower_step (TowerTick dt h es) t))"
| "round_slack (TowerUpgrade # evs) t = round_slack evs (fst (tower_step TowerUpgrade t))"

subsection \<open>Invariants and measures\<close>

text \<open>Money is not negative, and no live enemy has a negative reward.\<close>

definition money_inv :: "game \<Rightarrow> bool" where
  "money_inv g \<longleftrightarrow> 0 \<le> money g \<and> (\<forall>r \<in> set (enemies g). 0 \<le> reward (heap g r))"

text \<open>
  What every session keeps: an enemy is in the live collection at most once, the
  references of the live collection have been allocated, no projectile and no tower has
  a negative damage, and every tower has a positive fire rate.
\<close>

definition tower_ok :: "tower \<Rightarrow> bool" where
  "tower_ok t \<longleftrightarrow> 0 \<le> damage t \<and> 0 < fireRate t"

definition session_inv :: "game \<Rightarrow> bool" where
  "session_inv g \<longleftrightarrow>
     distinct (enemies g) \<and> (\<forall>r \<in> set (enemies g). r < nextId g)
     \<and> (\<forall>p \<in> set (projectiles g). 0 \<le> pdamage p)
     \<and> (\<forall>t \<in> set (towers g). tower_ok t)"

text \<open>
  What the loop over the enemies decides for the enemy at reference \<open>r\<close>: it stays in the
  live collection when its health is positive and its position after its own update is
  not beyond the right edge.
\<close>

definition keeps :: "real \<Rightarrow> game \<Rightarrow> nat \<Rightarrow> bool" where
  "keeps dt g r \<longleftrightarrow>
     \<not> health (heap g r) \<le> 0 \<and> \<not> ex (Enemy_update dt (path g) (heap g r)) > CANVAS_WIDTH"

text \<open>The rewards of the enemies of a list of references that have no health left.\<close>

definition dead_rewards :: "(nat \<Rightarrow> enemy) \<Rightarrow> nat list \<Rightarrow> real" where
  "dead_rewards h rs = sum_list (map (\<lambda>r. reward (h r)) (filter (\<lambda>r. health (h r) \<le> 0) rs))"

subsection \<open>Example sessions\<close>

text \<open>A basic and a fast enemy, new, with path index \<open>i\<close> at \<open>(x, y)\<close>.\<close>

definition basic_at :: "nat \<Rightarrow> real \<Rightarrow> real \<Rightarrow> enemy" where
  "basic_at i x y =
     \<lparr>etype = ''basic'', health = 50, maxHealth = 50, speed = 1, reward = 10, esize = 20,
      pathIndex = i, ex = x, ey = y\<rparr>"

definition fast_at :: "nat \<Rightarrow> real \<Rightarrow> real \<Rightarrow> enemy" where
  "fast_at i x y =
     \<lparr>etype = ''fast'', health = 30, maxHealth = 30, speed = 2, reward = 15, esize = 15,
      pathIndex = i, ex = x, ey = y\<rparr>"

text \<open>
  All six waves have been spawned and cleared: every queue is empty, the wave index is
  past the last wave and no enemy is alive. One basic tower was bought; of the 27
  enemies, 8 basic ones were shot and 19 escaped, so one life is left.
\<close>

definition all_waves_done :: game where
  "all_waves_done =
     (new_Game path_grid createPath)
       \<lparr>waveManager := new_WaveManager
          \<lparr>waves := [[], [], [], [], [], []], currentWaveIndex := 6, waveCooldown := 5\<rparr>,
        towers := [(new_Tower 300 420 ''basic''
                      \<lparr>t_cost = 50, t_damage = 10, t_range = 100, t_fireRate = 1\<rparr>)
                     \<lparr>fireCooldown := - 3\<rparr>],
        grid := path_grid[10 := (path_grid ! 10)[7 := \<lparr>walkable = False, ctower = Some 0\<rparr>]],
        money := 180, score := 80, lives := 1, nextId := 27\<rparr>"

text \<open>
  No tower has been bought and the first 20 enemies have escaped but one: one life is
  left. The last two enemies spawned in wave 5, a basic one (reference 20) and a fast one
  (reference 21), are on the last stretch of the path, close to the right edge.
\<close>

definition two_escaping :: game where
  "two_escaping =
     (new_Game path_grid createPath)
       \<lparr>waveManager := new_WaveManager
          \<lparr>waves := [[], [], [], [], [''fast''], [''boss'', ''basic'', ''basic'', ''tank'']],
           currentWaveIndex := 4, spawnTimer := Some 0\<rparr>,
        lives := 1,
        enemies := [20, 21],
        heap := (\<lambda>_. no_enemy)(20 := basic_at 24 790 480, 21 := fast_at 24 788 480),
        nextId := 22\<rparr>"

text \<open>The session \<open>two_escaping\<close> after a tick of half a second: both enemies have passed
  the right edge.\<close>

definition two_escaped :: game where
  "two_escaped =
     two_escaping
       \<lparr>waveManager := (waveManager two_escaping)\<lparr>spawnTimer := Some (1/2)\<rparr>,
        lives := - 1,
        gameOver := True,
        enemies := [],
        heap := (\<lambda>_. no_enemy)(21 := fast_at 24 828 480, 20 := basic_at 24 810 480)\<rparr>"

text \<open>A basic tower has been placed on the top left cell, for 50 of the 150 at the start.\<close>

definition one_tower :: game where
  "one_tower =
     (new_Game path_grid createPath)
       \<lparr>towers := [new_Tower 20 20 ''basic''
                     \<lparr>t_cost = 50, t_damage = 10, t_range = 100, t_fireRate = 1\<rparr>],
        money := 100,
        grid := path_grid[0 := (path_grid ! 0)[0 := \<lparr>walkable = False, ctower = Some 0\<rparr>]]\<rparr>"

text \<open>The same session after one upgrade of that tower, for 75.\<close>

definition one_tower_upgraded :: game where
  "one_tower_upgraded =
     one_tower
       \<lparr>towers := [\<lparr>tx = 20, ty = 20, ttype = ''basic'', damage = 15, trange = 110,
                    fireRate = 11/10, level = 2, fireCooldown = 0, upgradeCost = 75\<rparr>],
        money := 25\<rparr>"

text \<open>The initial session after the button of the basic tower: placing is on.\<close>

definition placing_basic :: game where
  "placing_basic = (new_Game path_grid createPath)\<lparr>placingTower := True\<rparr>"

text \<open>The session \<open>one_tower_upgraded\<close> (money 25) with placing on.\<close>

definition placing_poor :: game where
  "placing_poor = one_tower_upgraded\<lparr>placingTower := True\<rparr>"

text \<open>
  A basic tower stands on the cell right above the end of the path. The five enemies of
  wave 1 have escaped, each with a few hits; the last one (reference 4) has just been
  spliced out of the live collection with 30 health left, and the projectile fired at
  it before is 3 units left of and above it.
\<close>

definition escaped_target :: game where
  "escaped_target =
     (new_Game path_grid createPath)
       \<lparr>waveManager := new_WaveManager\<lparr>waves := createWaves[0 := []], spawnTimer := Some 0\<rparr>,
        towers := [(new_Tower 780 420 ''basic''
                      \<lparr>t_cost = 50, t_damage = 10, t_range = 100, t_fireRate = 1\<rparr>)
                     \<lparr>fireCooldown := 4/5\<rparr>],
        grid := path_grid[10 := (path_grid ! 10)[19 := \<lparr>walkable = False, ctower = Some 0\<rparr>]],
        money := 100,
        lives := 15,
        projectiles := [\<lparr>px = 807, py = 477, target = Some 4, pdamage = 10, pspeed = 300,
                          markedForDeletion = False\<rparr>],
        heap := (\<lambda>_. no_enemy)(4 := (basic_at 24 810 480)\<lparr>health := 30\<rparr>),
        nextId := 5\<rparr>"

text \<open>The initial session after the wave manager has run for one second: the first
  basic enemy of wave 1 stands at the start of the path.\<close>

definition first_spawn :: game where
  "first_spawn =
     (new_Game path_grid createPath)
       \<lparr>waveManager := new_WaveManager
          \<lparr>waves := createWaves[0 := [''basic'', ''basic'', ''basic'', ''basic'']],
           spawnTimer := Some 0\<rparr>,
        enemies := [0],
        heap := (\<lambda>_. no_enemy)(0 := basic_at 0 0 280),
        nextId := 1\<rparr>"

text \<open>Wave 1 has been spawned and its five enemies have escaped: its queue is empty and
  no enemy is alive.\<close>

definition wave_cleared :: game where
  "wave_cleared =
     (new_Game path_grid createPath)
       \<lparr>waveManager := new_WaveManager\<lparr>waves := createWaves[0 := []], spawnTimer := Some 0\<rparr>,
        lives := 15, nextId := 5\<rparr>"

text \<open>
  A basic tower at \<open>(300, 420)\<close>, ready to fire, and four basic enemies in the order they
  were spawned: reference 0 at distance 100 (the range of the tower), references 1 and 2
  both at distance \<open>sqrt 4000\<close>, reference 3 out of range.
\<close>

definition ready_tower :: tower where
  "ready_tower =
     new_Tower 300 420 ''basic'' \<lparr>t_cost = 50, t_damage = 10, t_range = 100, t_fireRate = 1\<rparr>"

definition four_enemies :: "nat \<Rightarrow> enemy" where
  "four_enemies =
     (\<lambda>_. no_enemy)
       (0 := basic_at 13 380 480, 1 := basic_at 12 320 480, 2 := basic_at 11 280 480,
        3 := basic_at 6 240 280)"

text \<open>A tick of \<open>dt\<close> seconds in which only enemy 1 of \<open>four_enemies\<close> is alive.\<close>

definition tick_near :: "real \<Rightarrow> tower_event" where
  "tick_near dt = TowerTick dt four_enemies [1]"

text \<open>
  Wave 5 is under way. A basic tower stands on the cell right above the end of the path;
  of the first 20 enemies, 4 basic ones were shot and 16 escaped. A basic enemy
  (reference 20) with 10 health left is on the last stretch of the path, and a projectile
  of damage 10 aimed at it is about 3 units away from where the enemy will be after its
  next move.
\<close>

definition last_hit :: game where
  "last_hit =
     (new_Game path_grid createPath)
       \<lparr>waveManager := new_WaveManager
          \<lparr>waves := [[], [], [], [], [''fast''], [''boss'', ''basic'', ''basic'', ''tank'']],
           currentWaveIndex := 4, spawnTimer := Some 0\<rparr>,
        towers := [(new_Tower 780 420 ''basic''
                      \<lparr>t_cost = 50, t_damage = 10, t_range = 100, t_fireRate = 1\<rparr>)
                     \<lparr>fireCooldown := 4/5\<rparr>],
        grid := path_grid[10 := (path_grid ! 10)[19 := \<lparr>walkable = False, ctower = Some 0\<rparr>]],
        money := 140,
        score := 40,
        lives := 4,
        enemies := [20],
        projectiles := [\<lparr>px = 788, py = 478, target = Some 20, pdamage = 10, pspeed = 300,
                          markedForDeletion = False\<rparr>],
        heap := (\<lambda>_. no_enemy)(20 := (basic_at 24 790 480)\<lparr>health := 10\<rparr>),
        nextId := 22\<rparr>"

text \<open>\<open>last_hit\<close> after a tick of 1/60 s: the projectile has hit, the enemy has no
  health left and is still in the live collection; money and score are as before.\<close>

definition fatal_hit :: game where
  "fatal_hit =
     last_hit
       \<lparr>waveManager := (waveManager last_hit)\<lparr>spawnTimer := Some (1/60)\<rparr>,
        towers := [(new_Tower 780 420 ''basic''
                      \<lparr>t_cost = 50, t_damage = 10, t_range = 100, t_fireRate = 1\<rparr>)
                     \<lparr>fireCooldown := 47/60\<rparr>],
        projectiles := [],
        heap := (\<lambda>_. no_enemy)(20 := (basic_at 24 (2372/3) 480)\<lparr>health := 0\<rparr>)\<rparr>"

text \<open>\<open>fatal_hit\<close> after one more tick of 1/60 s: the enemy has been removed and its
  reward of 10 has been added to money and score.\<close>

definition reward_paid :: game where
  "reward_paid =
     fatal_hit
       \<lparr>waveManager := (waveManager fatal_hit)\<lparr>spawnTimer := Some (1/30)\<rparr>,
        towers := [(new_Tower 780 420 ''basic''
                      \<lparr>t_cost = 50, t_damage = 10, t_range = 100, t_fireRate = 1\<rparr>)
                     \<lparr>fireCooldown := 23/30\<rparr>],
        money := 150,
        score := 50,
        enemies := [],
        heap := (\<lambda>_. no_enemy)(20 := (basic_at 24 (2374/3) 480)\<lparr>health := 0\<rparr>)\<rparr>"

text \<open>
  As \<open>last_hit\<close>, with three lives left and the enemy (reference 20, 10 health left) less
  than half a unit from the right edge; the projectile aimed at it is 2 units above the
  place where the enemy will be after its next move.
\<close>

definition edge_hit :: game where
  "edge_hit =
     last_hit
       \<lparr>lives := 3,
        projectiles := [\<lparr>px = 800, py = 478, target = Some 20, pdamage = 10, pspeed = 300,
                          markedForDeletion = False\<rparr>],
        heap := (\<lambda>_. no_enemy)(20 := (basic_at 24 (3998/5) 480)\<lparr>health := 10\<rparr>)\<rparr>"

text \<open>\<open>edge_hit\<close> after a tick of 1/60 s: the enemy has passed the right edge and has been
  removed for a life; the projectile has then taken its health to 0. Money and score are
  as before.\<close>

definition edge_hit_escaped :: game where
  "edge_hit_escaped =
     edge_hit
       \<lparr>waveManager := (waveManager edge_hit)\<lparr>spawnTimer := Some (1/60)\<rparr>,
        towers := [(new_Tower 780 420 ''basic''
                      \<lparr>t_cost = 50, t_damage = 10, t_range = 100, t_fireRate = 1\<rparr>)
                     \<lparr>fireCooldown := 47/60\<rparr>],
        lives := 2,
        enemies := [],
        projectiles := [],
        heap := (\<lambda>_. no_enemy)(20 := (basic_at 24 (12004/15) 480)\<lparr>health := 0\<rparr>)\<rparr>"

text \<open>
  Thirty time steps from the initial session. A step of 100 s (a frame after the page was
  in the background) carries an enemy from the start of the path past the right edge in
  the tick that spawns it: 19 enemies escape one by one through waves 1 to 5. Two steps
  of 1/2 s then spawn a basic enemy and move it 20 units, and the last step of 100 s
  spawns another and takes both past the edge in the same tick.
\<close>

definition escape_ticks :: "real list" where
  "escape_ticks =
     [100, 100, 100, 100, 100, 100, 100,
      100, 100, 100, 100, 100, 100,
      100, 100, 100, 100, 100, 100,
      100, 100, 100, 100, 100, 100,
      100, 100, 1/2, 1/2, 100]"

section \<open>Properties\<close>

subsection \<open>Lists and square roots\<close>

lemma length_splice1: "i < length xs \<Longrightarrow> length (splice1 i xs) = length xs - 1"
  by (simp add: splice1_def)

lemma set_splice1: "set (splice1 i xs) \<subseteq> set xs"
  by (auto simp: splice1_def dest: in_set_takeD in_set_dropD)

lemma take_splice1: "take i (splice1 i xs) = take i xs"
  by (simp add: splice1_def min_def)

lemma drop_splice1: "i < length xs \<Longrightarrow> drop i (splice1 i xs) = drop (Suc i) xs"
  by (simp add: splice1_def)

lemma distinct_splice1: "distinct xs \<Longrightarrow> distinct (splice1 i xs)"
  unfolding splice1_def
  by (simp add: set_take_disj_set_drop_if_distinct)

lemma sqrt_le_sq: "0 \<le> y \<Longrightarrow> sqrt x \<le> y \<longleftrightarrow> x \<le> y\<^sup>2"
  by (metis abs_of_nonneg real_sqrt_abs real_sqrt_le_iff)

lemma sqrt_less_sq: "0 \<le> y \<Longrightarrow> sqrt x < y \<longleftrightarrow> x < y\<^sup>2"
  by (metis abs_of_nonneg real_sqrt_abs real_sqrt_less_iff)

lemma le_sqrt_sq: "0 \<le> y \<Longrightarrow> y \<le> sqrt x \<longleftrightarrow> y\<^sup>2 \<le> x"
  by (metis abs_of_nonneg real_sqrt_abs real_sqrt_le_iff)

lemma less_sqrt_sq: "0 \<le> y \<Longrightarrow> y < sqrt x \<longleftrightarrow> y\<^sup>2 < x"
  by (metis abs_of_nonneg real_sqrt_abs real_sqrt_less_iff)

subsection \<open>The tables\<close>

lemma enemyTypes_positive:
  "enemyTypes k = Some st \<Longrightarrow> 0 < e_health st \<and> 0 < e_reward st \<and> 0 < e_speed st"
  by (auto simp: enemyTypes_def split: if_splits)

lemma towerTypes_positive:
  "towerTypes k = Some st \<Longrightarrow> 0 < t_damage st \<and> 0 < t_fireRate st \<and> 0 < t_cost st"
  by (auto simp: towerTypes_def split: if_splits)

lemma createWaves_known: "\<forall>w \<in> set createWaves. \<forall>k \<in> set w. k \<in> dom enemyTypes"
  by (simp add: createWaves_def enemyTypes_def)

subsection \<open>The path, the grid and the constructor\<close>

lemma GRID_WIDTH_eq: "GRID_WIDTH = 20"
  by (simp add: GRID_WIDTH_def CANVAS_WIDTH_def GRID_SIZE_def)

lemma GRID_HEIGHT_eq: "GRID_HEIGHT = 15"
  by (simp add: GRID_HEIGHT_def CANVAS_HEIGHT_def GRID_SIZE_def)

lemma upto_1_6: "[1 .. 6::int] = [1,2,3,4,5,6]" by (simp add: upto.simps)

lemma upto_1_5: "[1 .. 5::int] = [1,2,3,4,5]" by (simp add: upto.simps)

lemma upto_0_12: "[0 .. 12::int] = [0,1,2,3,4,5,6,7,8,9,10,11,12]" by (simp add: upto.simps)

lemma createPath_eq:
  "createPath =
     [(0, 280), (40, 280), (80, 280), (120, 280), (160, 280), (200, 280), (240, 280),
      (800/3, 320), (800/3, 360), (800/3, 400), (800/3, 440), (800/3, 480),
      (920/3, 480), (1040/3, 480), (1160/3, 480), (1280/3, 480), (1400/3, 480),
      (1520/3, 480), (1640/3, 480), (1760/3, 480), (1880/3, 480), (2000/3, 480),
      (2120/3, 480), (2240/3, 480), (2360/3, 480)]"
proof -
  have f1: "\<lfloor>(20::real) / 3\<rfloor> = 6" by linarith
  have f2: "\<lfloor>(15::real) / 2\<rfloor> = 7" by linarith
  have f3: "\<lfloor>(20::real) - (20 / 3 + 1)\<rfloor> = 12" by linarith
  show ?thesis
    by (simp add: createPath_def GRID_WIDTH_eq GRID_HEIGHT_eq GRID_SIZE_def Let_def
        f1 f2 f3 upto_1_6 upto_1_5 upto_0_12)
qed

lemma length_createPath: "length createPath = 25"
  by (simp add: createPath_eq)

lemma createPath_nth_1: "createPath ! Suc 0 = (40, 280)"
  by (simp add: createPath_eq)

lemma new_Enemy_createPath:
  "new_Enemy k st createPath
     = Inr \<lparr>etype = k, health = e_health st, maxHealth = e_health st, speed = e_speed st,
            reward = e_reward st, esize = e_size st, pathIndex = 0, ex = 0, ey = 280\<rparr>"
  by (simp add: new_Enemy_def createPath_eq)

lemma Game_constructor_throws: "Game_constructor = Inl TypeError"
  by (simp add: Game_constructor_def createGrid_def)

lemma mark_path_cell_unfold:
  "mark_path_cell p gr =
     (if 0 \<le> \<lfloor>snd p / 40\<rfloor> \<and> \<lfloor>snd p / 40\<rfloor> < 15 \<and> 0 \<le> \<lfloor>fst p / 40\<rfloor> \<and> \<lfloor>fst p / 40\<rfloor> < 20
      then gr[nat \<lfloor>snd p / 40\<rfloor> := (gr ! nat \<lfloor>snd p / 40\<rfloor>)[nat \<lfloor>fst p / 40\<rfloor> :=
                (gr ! nat \<lfloor>snd p / 40\<rfloor> ! nat \<lfloor>fst p / 40\<rfloor>)\<lparr>walkable := False\<rparr>]]
      else gr)"
proof -
  have "real_of_int \<lfloor>snd p / 40\<rfloor> < 15 \<longleftrightarrow> \<lfloor>snd p / 40\<rfloor> < 15"
    and "real_of_int \<lfloor>fst p / 40\<rfloor> < 20 \<longleftrightarrow> \<lfloor>fst p / 40\<rfloor> < 20"
    by linarith+
  then show ?thesis
    by (simp add: mark_path_cell_def Let_def GRID_WIDTH_eq GRID_HEIGHT_eq GRID_SIZE_def)
qed

lemma mark_path_cell_dims:
  assumes "length gr = 15" and "\<forall>j<15. length (gr ! j) = 20"
  shows "length (mark_path_cell p gr) = 15 \<and> (\<forall>j<15. length (mark_path_cell p gr ! j) = 20)"
proof -
  define Y where "Y = \<lfloor>snd p / 40\<rfloor>"
  define X where "X = \<lfloor>fst p / 40\<rfloor>"
  have m: "mark_path_cell p gr =
     (if 0 \<le> Y \<and> Y < 15 \<and> 0 \<le> X \<and> X < 20
      then gr[nat Y := (gr ! nat Y)[nat X := (gr ! nat Y ! nat X)\<lparr>walkable := False\<rparr>]]
      else gr)"
    unfolding X_def Y_def by (rule mark_path_cell_unfold)
  show ?thesis
  proof (cases "0 \<le> Y \<and> Y < 15 \<and> 0 \<le> X \<and> X < 20")
    case True
    then have ny: "nat Y < length gr" using assms(1) by linarith
    show ?thesis using assms True ny by (auto simp: m nth_list_update)
  next
    case False
    then have "mark_path_cell p gr = gr" by (simp only: m if_False)
    with assms show ?thesis by simp
  qed
qed

lemma mark_path_cell_nth:
  assumes "length gr = 15" and "\<forall>j<15. length (gr ! j) = 20" and "gy < 15" and "gx < 20"
  shows "mark_path_cell p gr ! gy ! gx =
           (if \<lfloor>fst p / 40\<rfloor> = int gx \<and> \<lfloor>snd p / 40\<rfloor> = int gy
            then (gr ! gy ! gx)\<lparr>walkable := False\<rparr> else gr ! gy ! gx)"
proof -
  define Y where "Y = \<lfloor>snd p / 40\<rfloor>"
  define X where "X = \<lfloor>fst p / 40\<rfloor>"
  have m: "mark_path_cell p gr =
     (if 0 \<le> Y \<and> Y < 15 \<and> 0 \<le> X \<and> X < 20
      then gr[nat Y := (gr ! nat Y)[nat X := (gr ! nat Y ! nat X)\<lparr>walkable := False\<rparr>]]
      else gr)"
    unfolding X_def Y_def by (rule mark_path_cell_unfold)
  have "mark_path_cell p gr ! gy ! gx =
           (if X = int gx \<and> Y = int gy
            then (gr ! gy ! gx)\<lparr>walkable := False\<rparr> else gr ! gy ! gx)"
  proof (cases "0 \<le> Y \<and> Y < 15 \<and> 0 \<le> X \<and> X < 20")
    case True
    then have ey: "nat Y = gy \<longleftrightarrow> Y = int gy" and ex: "nat X = gx \<longleftrightarrow> X = int gx"
      by linarith+
    from True have ny: "nat Y < length gr" using assms(1) by linarith
    from True have "nat X < 20" by linarith
    then have nx: "nat X < length (gr ! nat Y)" using assms(2) ny assms(1) by simp
    have gl: "gy < length gr" using assms by simp
    show ?thesis
    proof (cases "nat Y = gy")
      case y: True
      with True assms ex ey ny nx show ?thesis
        by (simp add: m nth_list_update)
    next
      case y: False
      with True gl ey show ?thesis
        by (simp add: m nth_list_update)
    qed
  next
    case False
    then have "\<not> (X = int gx \<and> Y = int gy)" using assms(3,4) by linarith
    moreover from False have "mark_path_cell p gr = gr" by (simp only: m if_False)
    ultimately show ?thesis by auto
  qed
  then show ?thesis by (simp add: X_def Y_def)
qed

lemma fold_mark_path_cell:
  assumes "length gr = 15" and "\<forall>j<15. length (gr ! j) = 20" and "gy < 15" and "gx < 20"
  shows "length (fold mark_path_cell pa gr) = 15
       \<and> (\<forall>j<15. length (fold mark_path_cell pa gr ! j) = 20)
       \<and> ctower (fold mark_path_cell pa gr ! gy ! gx) = ctower (gr ! gy ! gx)
       \<and> (walkable (fold mark_path_cell pa gr ! gy ! gx) \<longleftrightarrow>
            walkable (gr ! gy ! gx)
            \<and> (\<forall>p \<in> set pa. \<not> (\<lfloor>fst p / 40\<rfloor> = int gx \<and> \<lfloor>snd p / 40\<rfloor> = int gy)))"
  using assms(1,2)
proof (induction pa arbitrary: gr)
  case Nil
  then show ?case by simp
next
  case (Cons p pa)
  note d = mark_path_cell_dims[OF Cons.prems, of p]
  from Cons.IH[of "mark_path_cell p gr"] d
    mark_path_cell_nth[OF Cons.prems assms(3,4), of p]
  show ?case by auto
qed

lemma path_grid_cell:
  assumes "gy < 15" and "gx < 20"
  shows "grid_at path_grid (int gy) (int gx) =
           Some \<lparr>walkable = (\<forall>p \<in> set createPath.
                               \<not> (\<lfloor>fst p / 40\<rfloor> = int gx \<and> \<lfloor>snd p / 40\<rfloor> = int gy)),
                 ctower = None\<rparr>"
proof -
  let ?gr = "replicate 15 (replicate 20 \<lparr>walkable = True, ctower = None\<rparr>)"
  have pg: "path_grid = fold mark_path_cell createPath ?gr"
    by (simp add: path_grid_def createGrid_def GRID_WIDTH_eq GRID_HEIGHT_eq)
  have 1: "length ?gr = 15" and 2: "\<forall>j<15. length (?gr ! j) = 20" by simp_all
  from fold_mark_path_cell[OF 1 2 assms, of createPath] assms
  show ?thesis by (simp add: pg grid_at_def Let_def)
qed

lemma path_grid_dims: "length path_grid = 15 \<and> (\<forall>j<15. length (path_grid ! j) = 20)"
proof -
  let ?gr = "replicate 15 (replicate 20 \<lparr>walkable = True, ctower = None\<rparr>)"
  have pg: "path_grid = fold mark_path_cell createPath ?gr"
    by (simp add: path_grid_def createGrid_def GRID_WIDTH_eq GRID_HEIGHT_eq)
  have 1: "length ?gr = 15" and 2: "\<forall>j<15. length (?gr ! j) = 20" by simp_all
  from fold_mark_path_cell[OF 1 2, of 0 0 createPath] show ?thesis by (simp add: pg)
qed

lemma path_grid_0_0: "grid_at path_grid 0 0 = Some \<lparr>walkable = True, ctower = None\<rparr>"
  using path_grid_cell[of 0 0] by (simp add: createPath_eq)

lemma path_grid_0_1: "grid_at path_grid 0 1 = Some \<lparr>walkable = True, ctower = None\<rparr>"
  using path_grid_cell[of 0 1] by (simp add: createPath_eq)

lemma path_grid_7_0: "grid_at path_grid 7 0 = Some \<lparr>walkable = False, ctower = None\<rparr>"
  using path_grid_cell[of 7 0] by (simp add: createPath_eq)

lemma grid_at_update_same:
  assumes "grid_at gr gy gx = Some c"
  shows "grid_at (gr[nat gy := (gr ! nat gy)[nat gx := c']]) gy gx = Some c'"
  using assms by (auto simp: grid_at_def Let_def split: if_splits)

lemma grid_at_update_other:
  assumes "(gy', gx') \<noteq> (gy, gx)" and "0 \<le> gy" and "0 \<le> gx"
  shows "grid_at (gr[nat gy := (gr ! nat gy)[nat gx := c']]) gy' gx' = grid_at gr gy' gx'"
  using assms
  by (cases "nat gy < length gr")
     (auto simp: grid_at_def Let_def nth_list_update split: if_splits)

subsection \<open>Frames: what each phase of a tick leaves alone\<close>

lemma Enemy_update_keeps [simp]:
  "health (Enemy_update dt pa e) = health e"
  "reward (Enemy_update dt pa e) = reward e"
  by (simp_all add: Enemy_update_def Let_def)

lemma enemy_step_frame [simp]:
  "towers (enemy_step i dt g) = towers g"
  "projectiles (enemy_step i dt g) = projectiles g"
  "waveManager (enemy_step i dt g) = waveManager g"
  "gameWon (enemy_step i dt g) = gameWon g"
  "selectedTowerType (enemy_step i dt g) = selectedTowerType g"
  "placingTower (enemy_step i dt g) = placingTower g"
  "grid (enemy_step i dt g) = grid g"
  "path (enemy_step i dt g) = path g"
  "nextId (enemy_step i dt g) = nextId g"
  by (simp_all add: enemy_step_def Let_def)

lemma enemy_step_heap [simp]:
  "health (heap (enemy_step i dt g) r) = health (heap g r)"
  "reward (heap (enemy_step i dt g) r) = reward (heap g r)"
  by (simp_all add: enemy_step_def Let_def)

lemma enemies_loop_frame [simp]:
  "towers (enemies_loop i dt g) = towers g"
  "projectiles (enemies_loop i dt g) = projectiles g"
  "waveManager (enemies_loop i dt g) = waveManager g"
  "gameWon (enemies_loop i dt g) = gameWon g"
  "selectedTowerType (enemies_loop i dt g) = selectedTowerType g"
  "placingTower (enemies_loop i dt g) = placingTower g"
  "grid (enemies_loop i dt g) = grid g"
  "path (enemies_loop i dt g) = path g"
  "nextId (enemies_loop i dt g) = nextId g"
  by (induction i arbitrary: g; simp)+

lemma enemies_loop_heap [simp]:
  "health (heap (enemies_loop i dt g) r) = health (heap g r)"
  "reward (heap (enemies_loop i dt g) r) = reward (heap g r)"
  by (induction i arbitrary: g; simp)+

lemma towers_phase_frame [simp]:
  "enemies (towers_phase dt g) = enemies g"
  "waveManager (towers_phase dt g) = waveManager g"
  "money (towers_phase dt g) = money g"
  "score (towers_phase dt g) = score g"
  "lives (towers_phase dt g) = lives g"
  "gameOver (towers_phase dt g) = gameOver g"
  "gameWon (towers_phase dt g) = gameWon g"
  "selectedTowerType (towers_phase dt g) = selectedTowerType g"
  "placingTower (towers_phase dt g) = placingTower g"
  "grid (towers_phase dt g) = grid g"
  "path (towers_phase dt g) = path g"
  "heap (towers_phase dt g) = heap g"
  "nextId (towers_phase dt g) = nextId g"
  by (simp_all add: towers_phase_def split: prod.split)

lemma projectile_step_frame [simp]:
  "towers (projectile_step i dt g) = towers g"
  "enemies (projectile_step i dt g) = enemies g"
  "waveManager (projectile_step i dt g) = waveManager g"
  "money (projectile_step i dt g) = money g"
  "score (projectile_step i dt g) = score g"
  "lives (projectile_step i dt g) = lives g"
  "gameOver (projectile_step i dt g) = gameOver g"
  "gameWon (projectile_step i dt g) = gameWon g"
  "selectedTowerType (projectile_step i dt g) = selectedTowerType g"
  "placingTower (projectile_step i dt g) = placingTower g"
  "grid (projectile_step i dt g) = grid g"
  "path (projectile_step i dt g) = path g"
  "nextId (projectile_step i dt g) = nextId g"
  by (simp_all add: projectile_step_def Let_def split: prod.split)

lemma projectiles_loop_frame [simp]:
  "towers (projectiles_loop i dt g) = towers g"
  "enemies (projectiles_loop i dt g) = enemies g"
  "waveManager (projectiles_loop i dt g) = waveManager g"
  "money (projectiles_loop i dt g) = money g"
  "score (projectiles_loop i dt g) = score g"
  "lives (projectiles_loop i dt g) = lives g"
  "gameOver (projectiles_loop i dt g) = gameOver g"
  "gameWon (projectiles_loop i dt g) = gameWon g"
  "selectedTowerType (projectiles_loop i dt g) = selectedTowerType g"
  "placingTower (projectiles_loop i dt g) = placingTower g"
  "grid (projectiles_loop i dt g) = grid g"
  "path (projectiles_loop i dt g) = path g"
  "nextId (projectiles_loop i dt g) = nextId g"
  by (induction i arbitrary: g; simp)+

lemma win_check_frame [simp]:
  "towers (win_check g) = towers g"
  "enemies (win_check g) = enemies g"
  "projectiles (win_check g) = projectiles g"
  "waveManager (win_check g) = waveManager g"
  "money (win_check g) = money g"
  "score (win_check g) = score g"
  "lives (win_check g) = lives g"
  "gameOver (win_check g) = gameOver g"
  "selectedTowerType (win_check g) = selectedTowerType g"
  "placingTower (win_check g) = placingTower g"
  "grid (win_check g) = grid g"
  "path (win_check g) = path g"
  "heap (win_check g) = heap g"
  "nextId (win_check g) = nextId g"
  by (simp_all add: win_check_def)

lemma WaveManager_update_frame:
  assumes "WaveManager_update dt g = Inr g1"
  shows "towers g1 = towers g" "projectiles g1 = projectiles g" "money g1 = money g"
    "score g1 = score g" "lives g1 = lives g" "gameOver g1 = gameOver g"
    "gameWon g1 = gameWon g" "selectedTowerType g1 = selectedTowerType g"
    "placingTower g1 = placingTower g" "grid g1 = grid g" "path g1 = path g"
    "length (waves (waveManager g1)) = length (waves (waveManager g))"
    "waveInterval (waveManager g1) = waveInterval (waveManager g)"
  using assms
  by (auto simp: WaveManager_update_def Let_def
      split: if_splits list.splits option.splits sum.splits)

lemma update_phases_waveManager [simp]:
  "waveManager (update_phases dt g) = waveManager g"
  by (simp add: update_phases_def Let_def)

subsection \<open>Commands: what they leave alone\<close>

lemma upgradeTower_frame [simp]:
  "enemies (snd (upgradeTower i g)) = enemies g"
  "projectiles (snd (upgradeTower i g)) = projectiles g"
  "waveManager (snd (upgradeTower i g)) = waveManager g"
  "score (snd (upgradeTower i g)) = score g"
  "lives (snd (upgradeTower i g)) = lives g"
  "gameOver (snd (upgradeTower i g)) = gameOver g"
  "gameWon (snd (upgradeTower i g)) = gameWon g"
  "heap (snd (upgradeTower i g)) = heap g"
  "nextId (snd (upgradeTower i g)) = nextId g"
  "path (snd (upgradeTower i g)) = path g"
  by (simp_all add: upgradeTower_def Let_def)

lemma handleClick_frame:
  assumes "handleClick x y g = Inr (al, g')"
  shows "enemies g' = enemies g" "projectiles g' = projectiles g"
    "waveManager g' = waveManager g" "score g' = score g" "lives g' = lives g"
    "gameOver g' = gameOver g" "gameWon g' = gameWon g" "heap g' = heap g"
    "nextId g' = nextId g" "path g' = path g"
  using assms
  by (auto simp: handleClick_def upgradeTower_def Let_def
      split: if_splits option.splits prod.splits)

lemma startPlacingTower_frame [simp]:
  "enemies (startPlacingTower k g) = enemies g"
  "projectiles (startPlacingTower k g) = projectiles g"
  "towers (startPlacingTower k g) = towers g"
  "waveManager (startPlacingTower k g) = waveManager g"
  "money (startPlacingTower k g) = money g"
  "score (startPlacingTower k g) = score g"
  "lives (startPlacingTower k g) = lives g"
  "gameOver (startPlacingTower k g) = gameOver g"
  "gameWon (startPlacingTower k g) = gameWon g"
  "heap (startPlacingTower k g) = heap g"
  "nextId (startPlacingTower k g) = nextId g"
  "path (startPlacingTower k g) = path g"
  "grid (startPlacingTower k g) = grid g"
  by (simp_all add: startPlacingTower_def split: option.split)

lemma clicked_tower_bound:
  "clicked_tower x y ts n = Some i \<Longrightarrow> n \<le> i \<and> i < n + length ts"
  by (induction ts arbitrary: n) (fastforce split: if_splits)+

lemma run_append:
  "run (evs @ evs') g = (case run evs g of Inl err \<Rightarrow> Inl err | Inr g' \<Rightarrow> run evs' g')"
  by (induction evs arbitrary: g) (simp_all split: sum.split)

subsection \<open>The win flag\<close>

lemma update_phases_gameWon:
  "waves (waveManager g) \<noteq> [] \<Longrightarrow> gameWon (update_phases dt g) = gameWon g"
  by (simp add: update_phases_def Let_def win_check_def)

lemma Game_update_gameWon:
  assumes "waves (waveManager g) \<noteq> []" and "Game_update dt g = Inr g'"
  shows "gameWon g' = gameWon g \<and> waves (waveManager g') \<noteq> []"
proof (cases "gameOver g \<or> gameWon g")
  case True
  with assms show ?thesis by (simp add: Game_update_def)
next
  case False
  with assms(2) obtain g1 where w: "WaveManager_update dt g = Inr g1"
    and g': "g' = update_phases dt g1"
    by (auto simp: Game_update_def split: sum.splits)
  from WaveManager_update_frame(12)[OF w] assms(1) have "waves (waveManager g1) \<noteq> []"
    by auto
  with g' WaveManager_update_frame(7)[OF w] show ?thesis
    by (simp add: update_phases_gameWon)
qed

lemma step_gameWon:
  assumes "waves (waveManager g) \<noteq> []" and "step ev g = Inr g'"
  shows "gameWon g' = gameWon g \<and> waves (waveManager g') \<noteq> []"
proof (cases ev)
  case (Tick dt)
  with assms show ?thesis using Game_update_gameWon by (simp add: step_def)
next
  case (Click x y)
  with assms obtain al where "handleClick x y g = Inr (al, g')"
    by (auto simp: step_def split: sum.splits prod.splits)
  from handleClick_frame(3,7)[OF this] assms(1) show ?thesis by simp
next
  case (StartPlacing k)
  with assms show ?thesis by (auto simp: step_def)
qed

lemma run_gameWon:
  "waves (waveManager g) \<noteq> [] \<Longrightarrow> run evs g = Inr g' \<Longrightarrow> gameWon g' = gameWon g"
proof (induction evs arbitrary: g)
  case Nil
  then show ?case by simp
next
  case (Cons ev evs)
  from Cons.prems(2) obtain g1 where s: "step ev g = Inr g1" and r: "run evs g1 = Inr g'"
    by (auto split: sum.splits)
  from step_gameWon[OF Cons.prems(1) s] Cons.IH[OF _ r] show ?case by simp
qed

lemma gameWon_never_set: "run evs (new_Game gr pa) = Inr g \<Longrightarrow> \<not> gameWon g"
  using run_gameWon[of "new_Game gr pa" evs g]
  by (simp add: new_Game_def new_WaveManager_def createWaves_def)

subsection \<open>Lives and the game-over flag\<close>

lemma enemy_step_gameOver:
  "(lives g \<le> 0 \<longrightarrow> gameOver g) \<Longrightarrow>
   lives (enemy_step i dt g) \<le> 0 \<longrightarrow> gameOver (enemy_step i dt g)"
  by (auto simp: enemy_step_def Let_def)

lemma enemies_loop_gameOver:
  "(lives g \<le> 0 \<longrightarrow> gameOver g) \<Longrightarrow>
   lives (enemies_loop i dt g) \<le> 0 \<longrightarrow> gameOver (enemies_loop i dt g)"
proof (induction i arbitrary: g)
  case 0
  then show ?case by simp
next
  case (Suc i)
  from Suc.IH[OF enemy_step_gameOver[OF Suc.prems, of i dt]] show ?case by simp
qed

lemma update_phases_gameOver:
  "(lives g \<le> 0 \<longrightarrow> gameOver g) \<Longrightarrow>
   lives (update_phases dt g) \<le> 0 \<longrightarrow> gameOver (update_phases dt g)"
  using enemies_loop_gameOver[of g "length (enemies g)" dt]
  by (simp add: update_phases_def Let_def)

lemma Game_update_gameOver:
  assumes "lives g \<le> 0 \<longrightarrow> gameOver g" and "Game_update dt g = Inr g'"
  shows "lives g' \<le> 0 \<longrightarrow> gameOver g'"
proof (cases "gameOver g \<or> gameWon g")
  case True
  with assms show ?thesis by (simp add: Game_update_def)
next
  case False
  with assms(2) obtain g1 where w: "WaveManager_update dt g = Inr g1"
    and g': "g' = update_phases dt g1"
    by (auto simp: Game_update_def split: sum.splits)
  from assms(1) WaveManager_update_frame(5,6)[OF w] have "lives g1 \<le> 0 \<longrightarrow> gameOver g1"
    by simp
  from update_phases_gameOver[OF this] g' show ?thesis by simp
qed

lemma step_gameOver:
  assumes "lives g \<le> 0 \<longrightarrow> gameOver g" and "step ev g = Inr g'"
  shows "lives g' \<le> 0 \<longrightarrow> gameOver g'"
proof (cases ev)
  case (Tick dt)
  with assms show ?thesis using Game_update_gameOver by (simp add: step_def)
next
  case (Click x y)
  with assms obtain al where "handleClick x y g = Inr (al, g')"
    by (auto simp: step_def split: sum.splits prod.splits)
  from handleClick_frame(5,6)[OF this] assms(1) show ?thesis by simp
next
  case (StartPlacing k)
  with assms show ?thesis by (auto simp: step_def)
qed

lemma run_gameOver:
  "lives g \<le> 0 \<longrightarrow> gameOver g \<Longrightarrow> run evs g = Inr g' \<Longrightarrow> lives g' \<le> 0 \<longrightarrow> gameOver g'"
proof (induction evs arbitrary: g)
  case Nil
  then show ?case by simp
next
  case (Cons ev evs)
  from Cons.prems(2) obtain g1 where s: "step ev g = Inr g1" and r: "run evs g1 = Inr g'"
    by (auto split: sum.splits)
  from Cons.IH[OF step_gameOver[OF Cons.prems(1) s] r] show ?case .
qed

lemma ticks_frozen: "gameOver g \<or> gameWon g \<Longrightarrow> run (map Tick dts) g = Inr g"
  by (induction dts) (simp_all add: step_def Game_update_def)

subsection \<open>The loop over the enemies\<close>

lemma enemy_step_length:
  "i < length (enemies g) \<Longrightarrow> i \<le> length (enemies (enemy_step i dt g))"
  by (auto simp: enemy_step_def Let_def length_splice1)

lemma enemy_step_set: "set (enemies (enemy_step i dt g)) \<subseteq> set (enemies g)"
  using set_splice1[of i "enemies g"] by (auto simp: enemy_step_def Let_def)

lemma enemies_loop_set: "set (enemies (enemies_loop i dt g)) \<subseteq> set (enemies g)"
proof (induction i arbitrary: g)
  case 0
  then show ?case by simp
next
  case (Suc i)
  from Suc.IH[of "enemy_step i dt g"] enemy_step_set[of i dt g] show ?case by auto
qed

lemma dead_rewards_append [simp]:
  "dead_rewards h (xs @ ys) = dead_rewards h xs + dead_rewards h ys"
  by (simp add: dead_rewards_def)

lemma dead_rewards_cong:
  "(\<And>r. r \<in> set rs \<Longrightarrow> health (h r) = health (h' r) \<and> reward (h r) = reward (h' r))
   \<Longrightarrow> dead_rewards h rs = dead_rewards h' rs"
  by (induction rs) (auto simp: dead_rewards_def)

lemma enemy_step_enemies:
  "enemies (enemy_step i dt g)
     = (if keeps dt g (enemies g ! i) then enemies g else splice1 i (enemies g))"
  by (simp add: enemy_step_def keeps_def Let_def)

lemma enemy_step_heap_eq:
  "heap (enemy_step i dt g)
     = (heap g)(enemies g ! i := Enemy_update dt (path g) (heap g (enemies g ! i)))"
  by (simp add: enemy_step_def Let_def)

lemma enemy_step_money:
  "money (enemy_step i dt g) = money g + dead_rewards (heap g) [enemies g ! i]"
  "score (enemy_step i dt g) = score g + dead_rewards (heap g) [enemies g ! i]"
  by (simp_all add: enemy_step_def Let_def dead_rewards_def)

lemma enemies_loop_char:
  assumes "distinct (enemies g)" and "i \<le> length (enemies g)"
  shows "enemies (enemies_loop i dt g)
           = filter (keeps dt g) (take i (enemies g)) @ drop i (enemies g)
       \<and> money (enemies_loop i dt g) = money g + dead_rewards (heap g) (take i (enemies g))
       \<and> score (enemies_loop i dt g) = score g + dead_rewards (heap g) (take i (enemies g))"
  using assms
proof (induction i arbitrary: g)
  case 0
  then show ?case by (simp add: dead_rewards_def)
next
  case (Suc i)
  let ?es = "enemies g"
  let ?r = "?es ! i"
  let ?g1 = "enemy_step i dt g"
  have lt: "i < length ?es" using Suc.prems(2) by simp
  have d1: "distinct (enemies ?g1)"
    using Suc.prems(1) by (simp add: enemy_step_enemies distinct_splice1)
  have l1: "i \<le> length (enemies ?g1)" by (rule enemy_step_length[OF lt])
  have tk: "take i (enemies ?g1) = take i ?es"
    by (simp add: enemy_step_enemies take_splice1)
  have dr: "drop i (enemies ?g1) = filter (keeps dt g) [?r] @ drop (Suc i) ?es"
    using lt by (simp add: enemy_step_enemies drop_splice1 Cons_nth_drop_Suc)
  have notin: "?r \<notin> set (take i ?es)"
    using Suc.prems(1) lt
    by (auto simp: in_set_conv_nth nth_eq_iff_index_eq)
  have same: "heap ?g1 r = heap g r" if "r \<in> set (take i ?es)" for r
    using that notin by (auto simp: enemy_step_heap_eq)
  have k: "filter (keeps dt ?g1) (take i ?es) = filter (keeps dt g) (take i ?es)"
    by (rule filter_cong[OF refl]) (simp add: keeps_def same)
  have dw: "dead_rewards (heap ?g1) (take i ?es) = dead_rewards (heap g) (take i ?es)"
    by (rule dead_rewards_cong) (simp add: same)
  have ts: "take (Suc i) ?es = take i ?es @ [?r]"
    using lt by (simp add: take_Suc_conv_app_nth)
  from Suc.IH[OF d1 l1] show ?case
    by (simp add: tk dr k dw ts enemy_step_money)
qed

subsection \<open>Money\<close>

lemma enemy_step_money_inv:
  assumes "money_inv g" and "i < length (enemies g)"
  shows "money_inv (enemy_step i dt g)"
proof -
  have r: "0 \<le> reward (heap g (enemies g ! i))"
    using assms by (simp add: money_inv_def)
  have m: "0 \<le> money (enemy_step i dt g)"
    using assms(1) r by (auto simp: enemy_step_def Let_def money_inv_def)
  from assms(1) enemy_step_set[of i dt g] m show ?thesis
    by (auto simp: money_inv_def)
qed

lemma enemies_loop_money_inv:
  "money_inv g \<Longrightarrow> i \<le> length (enemies g) \<Longrightarrow> money_inv (enemies_loop i dt g)"
proof (induction i arbitrary: g)
  case 0
  then show ?case by simp
next
  case (Suc i)
  have lt: "i < length (enemies g)" using Suc.prems(2) by simp
  from Suc.IH[OF enemy_step_money_inv[OF Suc.prems(1) lt] enemy_step_length[OF lt]]
  show ?case by simp
qed

lemma Projectile_update_reward [simp]:
  "reward (snd (Projectile_update dt h p) r) = reward (h r)"
  by (simp add: Projectile_update_def Let_def split: option.split)

lemma projectile_step_heap:
  "heap (projectile_step i dt g) = snd (Projectile_update dt (heap g) (projectiles g ! i))"
  by (simp add: projectile_step_def Let_def split: prod.split)

lemma projectile_step_reward [simp]:
  "reward (heap (projectile_step i dt g) r) = reward (heap g r)"
  by (simp add: projectile_step_heap)

lemma projectiles_loop_reward [simp]:
  "reward (heap (projectiles_loop i dt g) r) = reward (heap g r)"
  by (induction i arbitrary: g) simp_all

lemma update_phases_money_inv: "money_inv g \<Longrightarrow> money_inv (update_phases dt g)"
  using enemies_loop_money_inv[of g "length (enemies g)" dt]
  by (simp add: update_phases_def Let_def money_inv_def)

lemma WaveManager_update_money_inv:
  assumes "money_inv g" and "WaveManager_update dt g = Inr g1"
  shows "money_inv g1"
  using assms enemyTypes_positive
  by (fastforce simp: WaveManager_update_def Let_def money_inv_def new_Enemy_def
      split: if_splits list.splits option.splits sum.splits)

lemma Game_update_money_inv:
  assumes "money_inv g" and "Game_update dt g = Inr g'"
  shows "money_inv g'"
  using assms WaveManager_update_money_inv update_phases_money_inv
  by (auto simp: Game_update_def split: if_splits sum.splits)

lemma handleClick_money_inv:
  assumes "money_inv g" and "handleClick x y g = Inr (al, g')"
  shows "money_inv g'"
  using assms
  by (auto simp: handleClick_def upgradeTower_def Let_def money_inv_def
      split: if_splits option.splits prod.splits)

lemma step_money_inv:
  assumes "money_inv g" and "step ev g = Inr g'"
  shows "money_inv g'"
proof (cases ev)
  case (Tick dt)
  with assms show ?thesis using Game_update_money_inv by (simp add: step_def)
next
  case (Click x y)
  with assms obtain al where "handleClick x y g = Inr (al, g')"
    by (auto simp: step_def split: sum.splits prod.splits)
  from handleClick_money_inv[OF assms(1) this] show ?thesis .
next
  case (StartPlacing k)
  with assms show ?thesis by (auto simp: step_def money_inv_def)
qed

lemma run_money_inv: "money_inv g \<Longrightarrow> run evs g = Inr g' \<Longrightarrow> money_inv g'"
proof (induction evs arbitrary: g)
  case Nil
  then show ?case by simp
next
  case (Cons ev evs)
  from Cons.prems(2) obtain g1 where s: "step ev g = Inr g1" and r: "run evs g1 = Inr g'"
    by (auto split: sum.splits)
  from Cons.IH[OF step_money_inv[OF Cons.prems(1) s] r] show ?case .
qed

lemma new_Game_money_inv: "money_inv (new_Game gr pa)"
  by (simp add: money_inv_def new_Game_def)

subsection \<open>The wave manager\<close>

lemma WaveManager_update_total:
  "path g \<noteq> [] \<Longrightarrow> \<exists>g'. WaveManager_update dt g = Inr g'"
  by (auto simp: WaveManager_update_def Let_def new_Enemy_def
      split: list.split option.split)

lemma WaveManager_update_effect:
  assumes "WaveManager_update dt g = Inr g1"
  shows "(enemies g1 = enemies g \<and> heap g1 = heap g \<and> nextId g1 = nextId g)
       \<or> (enemies g1 = enemies g @ [nextId g] \<and> nextId g1 = Suc (nextId g)
          \<and> (\<exists>en. heap g1 = (heap g)(nextId g := en) \<and> 0 < health en))"
  using assms enemyTypes_positive
  by (fastforce simp: WaveManager_update_def Let_def new_Enemy_def
      split: if_splits list.splits option.splits sum.splits)

lemma run_waveInterval:
  "run evs g = Inr g' \<Longrightarrow> waveInterval (waveManager g') = waveInterval (waveManager g)"
proof (induction evs arbitrary: g)
  case Nil
  then show ?case by simp
next
  case (Cons ev evs)
  from Cons.prems obtain g1 where s: "step ev g = Inr g1" and r: "run evs g1 = Inr g'"
    by (auto split: sum.splits)
  have "waveInterval (waveManager g1) = waveInterval (waveManager g)"
  proof (cases ev)
    case (Tick dt)
    show ?thesis
    proof (cases "gameOver g \<or> gameWon g")
      case True
      with s Tick show ?thesis by (simp add: step_def Game_update_def)
    next
      case False
      with s Tick obtain g0 where w: "WaveManager_update dt g = Inr g0"
        and g1: "g1 = update_phases dt g0"
        by (auto simp: step_def Game_update_def split: sum.splits)
      from WaveManager_update_frame(13)[OF w] g1 show ?thesis by simp
    qed
  next
    case (Click x y)
    with s obtain al where "handleClick x y g = Inr (al, g1)"
      by (auto simp: step_def split: sum.splits prod.splits)
    from handleClick_frame(3)[OF this] show ?thesis by simp
  next
    case (StartPlacing k)
    with s show ?thesis by (auto simp: step_def)
  qed
  with Cons.IH[OF r] show ?case by simp
qed

lemma session_waveInterval:
  "run evs (new_Game gr pa) = Inr g \<Longrightarrow> waveInterval (waveManager g) = 5"
  using run_waveInterval[of evs "new_Game gr pa" g]
  by (simp add: new_Game_def new_WaveManager_def)

lemma WaveManager_update_known:
  assumes "\<forall>w \<in> set (waves (waveManager g)). \<forall>k \<in> set w. k \<in> dom enemyTypes"
    and "WaveManager_update dt g = Inr g1"
  shows "\<forall>w \<in> set (waves (waveManager g1)). \<forall>k \<in> set w. k \<in> dom enemyTypes"
proof -
  let ?ws = "waves (waveManager g)"
  let ?i = "currentWaveIndex (waveManager g)"
  have upd: "\<forall>w \<in> set (?ws[?i := rest]). \<forall>k \<in> set w. k \<in> dom enemyTypes"
    if "?i < length ?ws" and "?ws ! ?i = k0 # rest" for k0 rest
  proof
    fix w assume "w \<in> set (?ws[?i := rest])"
    then have "w \<in> insert rest (set ?ws)" using set_update_subset_insert by fast
    moreover have "\<forall>k \<in> set rest. k \<in> dom enemyTypes"
      using assms(1) that nth_mem[OF that(1)]
      by (metis list.set_intros(2))
    ultimately show "\<forall>k \<in> set w. k \<in> dom enemyTypes" using assms(1) by auto
  qed
  from assms(2) consider "waves (waveManager g1) = ?ws"
    | k0 rest where "?i < length ?ws" "?ws ! ?i = k0 # rest"
        "waves (waveManager g1) = ?ws[?i := rest]"
    by (auto simp: WaveManager_update_def Let_def
        split: if_splits list.splits option.splits sum.splits)
  then show ?thesis
  proof cases
    case 1
    with assms(1) show ?thesis by simp
  next
    case 2
    with upd[OF 2(1,2)] show ?thesis by simp
  qed
qed

lemma run_known:
  "\<forall>w \<in> set (waves (waveManager g)). \<forall>k \<in> set w. k \<in> dom enemyTypes
   \<Longrightarrow> run evs g = Inr g'
   \<Longrightarrow> \<forall>w \<in> set (waves (waveManager g')). \<forall>k \<in> set w. k \<in> dom enemyTypes"
proof (induction evs arbitrary: g)
  case Nil
  then show ?case by simp
next
  case (Cons ev evs)
  from Cons.prems(2) obtain g1 where s: "step ev g = Inr g1" and r: "run evs g1 = Inr g'"
    by (auto split: sum.splits)
  have "\<forall>w \<in> set (waves (waveManager g1)). \<forall>k \<in> set w. k \<in> dom enemyTypes"
  proof (cases ev)
    case (Tick dt)
    show ?thesis
    proof (cases "gameOver g \<or> gameWon g")
      case True
      with s Tick Cons.prems(1) show ?thesis by (simp add: step_def Game_update_def)
    next
      case False
      with s Tick obtain g0 where w: "WaveManager_update dt g = Inr g0"
        and g1: "g1 = update_phases dt g0"
        by (auto simp: step_def Game_update_def split: sum.splits)
      from WaveManager_update_known[OF Cons.prems(1) w] g1 show ?thesis by simp
    qed
  next
    case (Click x y)
    with s obtain al where "handleClick x y g = Inr (al, g1)"
      by (auto simp: step_def split: sum.splits prod.splits)
    from handleClick_frame(3)[OF this] Cons.prems(1) show ?thesis by simp
  next
    case (StartPlacing k)
    with s Cons.prems(1) show ?thesis by (auto simp: step_def)
  qed
  from Cons.IH[OF this r] show ?case .
qed

lemma session_archetypes_known:
  "run evs (new_Game gr pa) = Inr g
   \<Longrightarrow> \<forall>w \<in> set (waves (waveManager g)). \<forall>k \<in> set w. k \<in> dom enemyTypes"
  using run_known[of "new_Game gr pa" evs g] createWaves_known
  by (simp add: new_Game_def new_WaveManager_def)

subsection \<open>Sessions do not throw\<close>

lemma Game_update_total:
  "path g \<noteq> [] \<Longrightarrow> \<exists>g'. Game_update dt g = Inr g' \<and> path g' = path g"
  using WaveManager_update_total[of g dt] WaveManager_update_frame(11)[of dt g]
  by (auto simp: Game_update_def update_phases_def Let_def)

lemma handleClick_total:
  assumes "selectedTowerType g \<in> dom towerTypes"
  shows "\<exists>al g'. handleClick x y g = Inr (al, g')
           \<and> selectedTowerType g' = selectedTowerType g \<and> path g' = path g"
  using assms
  by (auto simp: handleClick_def upgradeTower_def Let_def split: option.splits)

lemma step_total:
  assumes "path g \<noteq> []" and "selectedTowerType g \<in> dom towerTypes"
  shows "\<exists>g'. step ev g = Inr g' \<and> path g' \<noteq> [] \<and> selectedTowerType g' \<in> dom towerTypes"
proof (cases ev)
  case (Tick dt)
  from Game_update_total[OF assms(1), of dt] obtain g' where u: "Game_update dt g = Inr g'"
    and p: "path g' = path g" by blast
  have "selectedTowerType g' = selectedTowerType g"
  proof (cases "gameOver g \<or> gameWon g")
    case True
    with u show ?thesis by (simp add: Game_update_def)
  next
    case False
    with u obtain g1 where w: "WaveManager_update dt g = Inr g1"
      and g': "g' = update_phases dt g1"
      by (auto simp: Game_update_def split: sum.splits)
    from WaveManager_update_frame(8)[OF w] show ?thesis
      by (simp add: g' update_phases_def Let_def)
  qed
  with u p assms Tick show ?thesis by (simp add: step_def)
next
  case (Click x y)
  from handleClick_total[OF assms(2), of x y] assms Click show ?thesis
    by (auto simp: step_def)
next
  case (StartPlacing k)
  with assms show ?thesis
    by (auto simp: step_def startPlacingTower_def split: option.splits)
qed

lemma run_total:
  assumes "path g \<noteq> []" and "selectedTowerType g \<in> dom towerTypes"
  shows "\<exists>g'. run evs g = Inr g'"
  using assms
proof (induction evs arbitrary: g)
  case Nil
  then show ?case by simp
next
  case (Cons ev evs)
  from step_total[OF Cons.prems, of ev] obtain g1 where s: "step ev g = Inr g1"
    and p: "path g1 \<noteq> []" and t: "selectedTowerType g1 \<in> dom towerTypes" by blast
  from Cons.IH[OF p t] s show ?case by simp
qed

lemma session_total: "pa \<noteq> [] \<Longrightarrow> \<exists>g. run evs (new_Game gr pa) = Inr g"
  by (rule run_total) (simp_all add: new_Game_def towerTypes_def)

lemma run_selected:
  assumes "path g \<noteq> []" and "selectedTowerType g \<in> dom towerTypes"
    and "run evs g = Inr g'"
  shows "selectedTowerType g' \<in> dom towerTypes"
  using assms
proof (induction evs arbitrary: g)
  case Nil
  then show ?case by simp
next
  case (Cons ev evs)
  from step_total[OF Cons.prems(1,2), of ev] obtain g1 where s: "step ev g = Inr g1"
    and p: "path g1 \<noteq> []" and t: "selectedTowerType g1 \<in> dom towerTypes" by blast
  from Cons.prems(3) s have "run evs g1 = Inr g'" by simp
  from Cons.IH[OF p t this] show ?case .
qed

lemma session_selected_known:
  "pa \<noteq> [] \<Longrightarrow> run evs (new_Game gr pa) = Inr g \<Longrightarrow> selectedTowerType g \<in> dom towerTypes"
  by (rule run_selected[of "new_Game gr pa"]) (simp_all add: new_Game_def towerTypes_def)

subsection \<open>The target search\<close>

lemma find_target_none:
  "\<forall>r \<in> set es. \<not> (tower_dist t (h r) \<le> trange t \<and> lt_minDist (tower_dist t (h r)) md)
   \<Longrightarrow> find_target t h es (tg, md) = (tg, md)"
  by (induction es) (auto simp: Let_def)

lemma find_target_some:
  assumes "\<exists>r \<in> set es. tower_dist t (h r) \<le> trange t \<and> lt_minDist (tower_dist t (h r)) md"
  shows "\<exists>k < length es.
           find_target t h es (tg, md) = (Some (es ! k), Some (tower_dist t (h (es ! k))))
         \<and> tower_dist t (h (es ! k)) \<le> trange t
         \<and> lt_minDist (tower_dist t (h (es ! k))) md
         \<and> (\<forall>j < length es. tower_dist t (h (es ! j)) \<le> trange t
               \<longrightarrow> tower_dist t (h (es ! k)) \<le> tower_dist t (h (es ! j)))
         \<and> (\<forall>j < k. tower_dist t (h (es ! j)) \<le> trange t
               \<longrightarrow> tower_dist t (h (es ! k)) < tower_dist t (h (es ! j)))"
  using assms
proof (induction es arbitrary: tg md)
  case Nil
  then show ?case by simp
next
  case (Cons r rs)
  let ?d = "\<lambda>x. tower_dist t (h x)"
  show ?case
  proof (cases "?d r \<le> trange t \<and> lt_minDist (?d r) md")
    case cand: True
    then have step: "find_target t h (r # rs) (tg, md) = find_target t h rs (Some r, Some (?d r))"
      by (simp add: Let_def)
    show ?thesis
    proof (cases "\<exists>x \<in> set rs. ?d x \<le> trange t \<and> lt_minDist (?d x) (Some (?d r))")
      case True
      from Cons.IH[OF True, of "Some r"] obtain k where k: "k < length rs"
        and res: "find_target t h rs (Some r, Some (?d r)) = (Some (rs ! k), Some (?d (rs ! k)))"
        and inr: "?d (rs ! k) \<le> trange t"
        and lt: "lt_minDist (?d (rs ! k)) (Some (?d r))"
        and mn: "\<forall>j < length rs. ?d (rs ! j) \<le> trange t \<longrightarrow> ?d (rs ! k) \<le> ?d (rs ! j)"
        and fs: "\<forall>j < k. ?d (rs ! j) \<le> trange t \<longrightarrow> ?d (rs ! k) < ?d (rs ! j)"
        by blast
      from lt have lt': "?d (rs ! k) < ?d r" by (simp add: lt_minDist_def)
      have ltmd: "lt_minDist (?d (rs ! k)) md"
        using cand lt' by (auto simp: lt_minDist_def split: option.splits)
      have mn': "\<forall>j < length (r # rs). ?d ((r # rs) ! j) \<le> trange t
                   \<longrightarrow> ?d (rs ! k) \<le> ?d ((r # rs) ! j)"
        using mn lt' by (auto simp: nth_Cons split: nat.splits)
      have fs': "\<forall>j < Suc k. ?d ((r # rs) ! j) \<le> trange t
                   \<longrightarrow> ?d (rs ! k) < ?d ((r # rs) ! j)"
        using fs lt' by (auto simp: nth_Cons split: nat.splits)
      show ?thesis
        apply (rule exI[of _ "Suc k"])
        using k step res inr ltmd mn' fs' by simp
    next
      case False
      then have none: "\<forall>x \<in> set rs. \<not> (?d x \<le> trange t \<and> lt_minDist (?d x) (Some (?d r)))"
        by blast
      from find_target_none[OF none] step
      have res: "find_target t h (r # rs) (tg, md) = (Some r, Some (?d r))" by simp
      have mn': "\<forall>j < length (r # rs). ?d ((r # rs) ! j) \<le> trange t
                   \<longrightarrow> ?d r \<le> ?d ((r # rs) ! j)"
      proof (intro allI impI)
        fix j assume j: "j < length (r # rs)" and inr: "?d ((r # rs) ! j) \<le> trange t"
        show "?d r \<le> ?d ((r # rs) ! j)"
        proof (cases j)
          case 0
          then show ?thesis by simp
        next
          case (Suc j')
          with j have "rs ! j' \<in> set rs" by simp
          with none inr Suc show ?thesis by (auto simp: lt_minDist_def)
        qed
      qed
      show ?thesis
        apply (rule exI[of _ 0])
        using res cand mn' by simp
    qed
  next
    case nocand: False
    then have step: "find_target t h (r # rs) (tg, md) = find_target t h rs (tg, md)"
      by (auto simp: Let_def)
    from Cons.prems nocand
    have ex: "\<exists>x \<in> set rs. ?d x \<le> trange t \<and> lt_minDist (?d x) md" by auto
    from Cons.IH[OF ex, of tg] obtain k where k: "k < length rs"
      and res: "find_target t h rs (tg, md) = (Some (rs ! k), Some (?d (rs ! k)))"
      and inr: "?d (rs ! k) \<le> trange t"
      and lt: "lt_minDist (?d (rs ! k)) md"
      and mn: "\<forall>j < length rs. ?d (rs ! j) \<le> trange t \<longrightarrow> ?d (rs ! k) \<le> ?d (rs ! j)"
      and fs: "\<forall>j < k. ?d (rs ! j) \<le> trange t \<longrightarrow> ?d (rs ! k) < ?d (rs ! j)"
      by blast
    have r0: "?d r \<le> trange t \<longrightarrow> ?d (rs ! k) < ?d r"
      using nocand lt by (auto simp: lt_minDist_def split: option.splits)
    have mn': "\<forall>j < length (r # rs). ?d ((r # rs) ! j) \<le> trange t
                 \<longrightarrow> ?d (rs ! k) \<le> ?d ((r # rs) ! j)"
      using mn r0 by (auto simp: nth_Cons split: nat.splits)
    have fs': "\<forall>j < Suc k. ?d ((r # rs) ! j) \<le> trange t
                 \<longrightarrow> ?d (rs ! k) < ?d ((r # rs) ! j)"
      using fs r0 by (auto simp: nth_Cons split: nat.splits)
    show ?thesis
      apply (rule exI[of _ "Suc k"])
      using k step res inr lt mn' fs' by simp
  qed
qed

lemma tower_dist_fireCooldown [simp]:
  "tower_dist (t\<lparr>fireCooldown := c\<rparr>) e = tower_dist t e"
  by (simp add: tower_dist_def)

subsection \<open>Rounding to a double\<close>

lemma rne_error: "\<bar>of_int (rne y) - y\<bar> \<le> 1/2"
proof -
  have "of_int \<lfloor>y\<rfloor> \<le> y" "y < of_int \<lfloor>y\<rfloor> + 1" by linarith+
  then show ?thesis by (auto simp: rne_def Let_def)
qed

lemma ulp_small_pos: "0 < ulp_small n x"
  by (induction n arbitrary: x) simp_all

lemma ulp_small_char: "2 ^ 52 * ulp_small n x \<le> \<bar>x\<bar> \<or> ulp_small n x = 1 / 2 ^ n"
proof (induction n arbitrary: x)
  case 0
  then show ?case by simp
next
  case (Suc n)
  from Suc.IH[of "2 * x"] show ?case by (auto simp: abs_mult)
qed

lemma ulp_big_pos: "0 < ulp_big n x"
  by (induction n arbitrary: x) simp_all

lemma ulp_big_char: "2 ^ 52 \<le> \<bar>x\<bar> \<Longrightarrow> 2 ^ 52 * ulp_big n x \<le> \<bar>x\<bar>"
proof (induction n arbitrary: x)
  case 0
  then show ?case by simp
next
  case (Suc n)
  show ?case
  proof (cases "\<bar>x\<bar> < 2 ^ 53")
    case True
    with Suc.prems show ?thesis by simp
  next
    case False
    then have "2 ^ 52 \<le> \<bar>x / 2\<bar>" by simp
    from Suc.IH[OF this] False show ?thesis by simp
  qed
qed

lemma ulp_pos: "0 < ulp x"
  by (simp add: ulp_def ulp_small_pos ulp_big_pos)

lemma ulp_char: "2 ^ 52 * ulp x \<le> \<bar>x\<bar> \<or> ulp x = 1 / 2 ^ 1074"
proof (cases "\<bar>x\<bar> < 2 ^ 53")
  case True
  with ulp_small_char[of 1074 x] show ?thesis by (simp only: ulp_def if_True)
next
  case False
  then have "2 ^ 52 \<le> \<bar>x\<bar>" by simp
  from ulp_big_char[OF this, of 971] False show ?thesis by (simp only: ulp_def if_False) simp
qed

lemma dround_error: "\<bar>dround x - x\<bar> \<le> rounding_bound x"
proof (cases "x = 0")
  case True
  then show ?thesis by (simp add: dround_def rounding_bound_def)
next
  case False
  define s where "s = ulp x"
  have s0: "0 < s" by (simp add: s_def ulp_pos)
  have "dround x - x = (of_int (rne (x / s)) - x / s) * s"
    using False s0 by (simp add: dround_def s_def field_simps)
  then have "\<bar>dround x - x\<bar> = \<bar>of_int (rne (x / s)) - x / s\<bar> * s"
    using s0 by (simp add: abs_mult)
  also have "\<dots> \<le> 1/2 * s"
    using rne_error[of "x / s"] s0 by (intro mult_right_mono) simp_all
  finally have e: "\<bar>dround x - x\<bar> \<le> s / 2" by simp
  from ulp_char[of x] have "s / 2 \<le> \<bar>x\<bar> / 2 ^ 53 + 1 / 2 ^ 1075"
  proof
    assume "2 ^ 52 * ulp x \<le> \<bar>x\<bar>"
    then have "s / 2 \<le> \<bar>x\<bar> / 2 ^ 53" by (simp add: s_def)
    then show ?thesis by simp
  next
    assume "ulp x = 1 / 2 ^ 1074"
    then have "s / 2 = 1 / 2 ^ 1075" by (simp add: s_def)
    then show ?thesis by simp
  qed
  with e show ?thesis by (simp add: rounding_bound_def)
qed

lemma dround_0 [simp]: "dround 0 = 0"
  by (simp add: dround_def)

lemma ulp_small_numeral:
  "ulp_small (numeral n) x
     = (if 2 ^ 52 \<le> \<bar>x\<bar> then 1 else ulp_small (pred_numeral n) (2 * x) / 2)"
  by (simp add: numeral_eq_Suc)

subsection \<open>Cooldown and upgrades of a tower\<close>

lemma Tower_update_double_exact:
  assumes "dround (fireCooldown t - dt) = fireCooldown t - dt"
    and "dround (1 / fireRate t) = 1 / fireRate t"
  shows "Tower_update_double dt h es t = Tower_update dt h es t"
  using assms
  by (simp add: Tower_update_double_def Tower_update_def dsub_def ddiv_def Let_def
      split: option.split)

lemma tower_step_quiet_cooldown:
  "snd (tower_step ev t) = [] \<Longrightarrow>
   fireCooldown t - elapsed ev - round_slack [ev] t \<le> fireCooldown (fst (tower_step ev t))"
proof (cases ev)
  case (TowerTick dt h es)
  assume "snd (tower_step ev t) = []"
  with TowerTick have "fireCooldown (fst (tower_step ev t)) = dround (fireCooldown t - dt)"
    by (auto simp: Tower_update_double_def dsub_def Let_def split: option.splits if_splits)
  with dround_error[of "fireCooldown t - dt"] TowerTick show ?thesis by simp
next
  case TowerUpgrade
  then show ?thesis by (simp add: Tower_upgrade_double_def)
qed

lemma round_slack_append:
  "round_slack (evs @ evs') t = round_slack evs t + round_slack evs' (tower_run evs t)"
proof (induction evs arbitrary: t)
  case Nil
  then show ?case by simp
next
  case (Cons ev evs)
  then show ?case by (cases ev) simp_all
qed

lemma tower_run_quiet:
  "no_shot evs t \<Longrightarrow>
   fireCooldown t - sum_list (map elapsed evs) - round_slack evs t
     \<le> fireCooldown (tower_run evs t)"
proof (induction evs arbitrary: t)
  case Nil
  then show ?case by simp
next
  case (Cons ev evs)
  from Cons.prems have q: "snd (tower_step ev t) = []"
    and n: "no_shot evs (fst (tower_step ev t))" by simp_all
  have "round_slack (ev # evs) t = round_slack [ev] t + round_slack evs (fst (tower_step ev t))"
    using round_slack_append[of "[ev]" evs t] by simp
  with Cons.IH[OF n] tower_step_quiet_cooldown[OF q] show ?case by simp
qed

lemma tower_step_fires:
  "snd (tower_step ev t) \<noteq> [] \<Longrightarrow>
   dsub (fireCooldown t) (elapsed ev) \<le> 0
   \<and> fireCooldown (fst (tower_step ev t)) = ddiv 1 (fireRate t)
   \<and> fireRate (fst (tower_step ev t)) = fireRate t"
  by (cases ev)
     (auto simp: Tower_update_double_def Let_def split: option.splits if_splits)

lemma towers_loop_nth:
  "i < length ts \<Longrightarrow>
   length (fst (towers_loop dt h es ts)) = length ts
   \<and> fst (towers_loop dt h es ts) ! i = fst (Tower_update dt h es (ts ! i))"
proof (induction ts arbitrary: i)
  case Nil
  then show ?case by simp
next
  case (Cons t ts)
  show ?case
  proof (cases i)
    case 0
    then show ?thesis
      using Cons.IH[of 0]
      by (cases ts) (auto simp: split: prod.splits)
  next
    case (Suc j)
    with Cons.prems Cons.IH[of j] show ?thesis
      by (auto simp: split: prod.splits)
  qed
qed

lemma towers_phase_nth:
  "i < length (towers g) \<Longrightarrow>
   towers (towers_phase dt g) ! i = fst (Tower_update dt (heap g) (enemies g) (towers g ! i))"
  using towers_loop_nth[of i "towers g" dt "heap g" "enemies g"]
  by (auto simp: towers_phase_def split: prod.splits)

lemma level_upgrades:
  "level ((Tower_upgrade ^^ n) (new_Tower x y kind stats)) = Suc n"
  by (induction n) (simp_all add: Tower_upgrade_def new_Tower_def)

lemma Tower_upgrade_ok: "tower_ok t \<Longrightarrow> tower_ok (Tower_upgrade t)"
  by (simp add: tower_ok_def Tower_upgrade_def)

subsection \<open>Health under the projectiles\<close>

lemma Projectile_update_keeps [simp]:
  "pdamage (fst (Projectile_update dt h p)) = pdamage p"
  "target (fst (Projectile_update dt h p)) = target p"
  by (simp_all add: Projectile_update_def Let_def split: option.split)

lemma Projectile_update_health:
  "0 \<le> pdamage p \<Longrightarrow> health (snd (Projectile_update dt h p) r) \<le> health (h r)"
  by (simp add: Projectile_update_def Let_def split: option.split)

lemma projectile_step_projectiles:
  "projectiles (projectile_step i dt g)
     = (let p' = fst (Projectile_update dt (heap g) (projectiles g ! i))
        in if markedForDeletion p' then splice1 i ((projectiles g)[i := p'])
           else (projectiles g)[i := p'])"
  by (simp add: projectile_step_def Let_def split: prod.split)

lemma projectile_step_damage:
  assumes "\<forall>p \<in> set (projectiles g). 0 \<le> pdamage p" and "i < length (projectiles g)"
  shows "(\<forall>p \<in> set (projectiles (projectile_step i dt g)). 0 \<le> pdamage p)
       \<and> i \<le> length (projectiles (projectile_step i dt g))
       \<and> health (heap (projectile_step i dt g) r) \<le> health (heap g r)"
proof -
  let ?p = "projectiles g ! i"
  let ?p' = "fst (Projectile_update dt (heap g) ?p)"
  have p: "0 \<le> pdamage ?p" using assms by simp
  have u: "\<forall>q \<in> set ((projectiles g)[i := ?p']). 0 \<le> pdamage q"
  proof
    fix q assume "q \<in> set ((projectiles g)[i := ?p'])"
    then have "q \<in> insert ?p' (set (projectiles g))"
      using set_update_subset_insert by fast
    with assms(1) p show "0 \<le> pdamage q" by auto
  qed
  have 1: "\<forall>q \<in> set (projectiles (projectile_step i dt g)). 0 \<le> pdamage q"
    using u set_splice1[of i "(projectiles g)[i := ?p']"]
    by (auto simp: projectile_step_projectiles Let_def)
  have 2: "i \<le> length (projectiles (projectile_step i dt g))"
    using assms(2) by (auto simp: projectile_step_projectiles Let_def length_splice1)
  have 3: "health (heap (projectile_step i dt g) r) \<le> health (heap g r)"
    using Projectile_update_health[OF p] by (simp add: projectile_step_heap)
  from 1 2 3 show ?thesis by blast
qed

lemma projectiles_loop_damage:
  assumes "\<forall>p \<in> set (projectiles g). 0 \<le> pdamage p" and "i \<le> length (projectiles g)"
  shows "(\<forall>p \<in> set (projectiles (projectiles_loop i dt g)). 0 \<le> pdamage p)
       \<and> health (heap (projectiles_loop i dt g) r) \<le> health (heap g r)"
  using assms
proof (induction i arbitrary: g)
  case 0
  then show ?case by simp
next
  case (Suc i)
  have lt: "i < length (projectiles g)" using Suc.prems(2) by simp
  note s = projectile_step_damage[OF Suc.prems(1) lt, of dt r]
  from s have a: "\<forall>p \<in> set (projectiles (projectile_step i dt g)). 0 \<le> pdamage p"
    and b: "i \<le> length (projectiles (projectile_step i dt g))"
    and c: "health (heap (projectile_step i dt g) r) \<le> health (heap g r)"
    by blast+
  from Suc.IH[OF a b] c show ?case by auto
qed

lemma projectile_dist_scaled:
  assumes "0 < d" and "d = sqrt (dx * dx + dy * dy)" and "0 \<le> s" and "s \<le> d"
  shows "sqrt ((dx - dx / d * s) * (dx - dx / d * s) + (dy - dy / d * s) * (dy - dy / d * s))
           = d - s"
proof -
  from assms(1) have "(dx - dx / d * s) * (dx - dx / d * s) + (dy - dy / d * s) * (dy - dy / d * s)
          = (1 - s / d)\<^sup>2 * (dx * dx + dy * dy)"
    by (simp add: field_simps power2_eq_square)
  then have "sqrt ((dx - dx / d * s) * (dx - dx / d * s) + (dy - dy / d * s) * (dy - dy / d * s))
          = \<bar>1 - s / d\<bar> * d"
    by (simp add: real_sqrt_mult assms(2))
  also from assms(1,3,4) have "\<bar>1 - s / d\<bar> = 1 - s / d" by simp
  also from assms(1) have "(1 - s / d) * d = d - s" by (simp add: field_simps)
  finally show ?thesis .
qed

subsection \<open>Damage of towers and of the projectiles they fire\<close>

lemma Tower_update_damage:
  "tower_ok t \<Longrightarrow>
   tower_ok (fst (Tower_update dt h es t))
   \<and> (\<forall>p \<in> set (snd (Tower_update dt h es t)). 0 \<le> pdamage p)"
  by (simp add: tower_ok_def Tower_update_def Let_def new_Projectile_def split: option.split)

lemma towers_loop_damage:
  assumes "\<forall>t \<in> set ts. tower_ok t"
  shows "(\<forall>t \<in> set (fst (towers_loop dt h es ts)). tower_ok t)
       \<and> (\<forall>p \<in> set (snd (towers_loop dt h es ts)). 0 \<le> pdamage p)"
  using assms
proof (induction ts)
  case Nil
  then show ?case by simp
next
  case (Cons t ts)
  from Cons.prems have t: "tower_ok t" and r: "\<forall>t \<in> set ts. tower_ok t" by simp_all
  from Tower_update_damage[OF t, of dt h es] Cons.IH[OF r] show ?case
    by (auto split: prod.splits)
qed

lemma towers_phase_damage:
  assumes "\<forall>t \<in> set (towers g). tower_ok t" and "\<forall>p \<in> set (projectiles g). 0 \<le> pdamage p"
  shows "(\<forall>t \<in> set (towers (towers_phase dt g)). tower_ok t)
       \<and> (\<forall>p \<in> set (projectiles (towers_phase dt g)). 0 \<le> pdamage p)"
  using towers_loop_damage[OF assms(1), of dt "heap g" "enemies g"] assms(2)
  by (auto simp: towers_phase_def split: prod.splits)

subsection \<open>One tick, phase by phase\<close>

lemma update_phases_effect:
  assumes "distinct (enemies g1)"
    and "\<forall>p \<in> set (projectiles g1). 0 \<le> pdamage p"
    and "\<forall>t \<in> set (towers g1). tower_ok t"
  shows "enemies (update_phases dt g1) = filter (keeps dt g1) (enemies g1)"
    and "money (update_phases dt g1) = money g1 + dead_rewards (heap g1) (enemies g1)"
    and "score (update_phases dt g1) = score g1 + dead_rewards (heap g1) (enemies g1)"
    and "health (heap (update_phases dt g1) r) \<le> health (heap g1 r)"
    and "\<forall>p \<in> set (projectiles (update_phases dt g1)). 0 \<le> pdamage p"
    and "\<forall>t \<in> set (towers (update_phases dt g1)). tower_ok t"
    and "nextId (update_phases dt g1) = nextId g1"
proof -
  let ?g2 = "enemies_loop (length (enemies g1)) dt g1"
  let ?g3 = "towers_phase dt ?g2"
  let ?g4 = "projectiles_loop (length (projectiles ?g3)) dt ?g3"
  have up: "update_phases dt g1 = win_check ?g4"
    by (simp add: update_phases_def Let_def)
  note c = enemies_loop_char[OF assms(1) le_refl, of dt]
  have p2: "\<forall>p \<in> set (projectiles ?g2). 0 \<le> pdamage p"
    and t2: "\<forall>t \<in> set (towers ?g2). tower_ok t"
    using assms(2,3) by simp_all
  note d3 = towers_phase_damage[OF t2 p2, of dt]
  from d3 have p3: "\<forall>p \<in> set (projectiles ?g3). 0 \<le> pdamage p" by blast
  note d4 = projectiles_loop_damage[OF p3 le_refl, of dt r]
  show "enemies (update_phases dt g1) = filter (keeps dt g1) (enemies g1)"
    using c by (simp add: up)
  show "money (update_phases dt g1) = money g1 + dead_rewards (heap g1) (enemies g1)"
    using c by (simp add: up)
  show "score (update_phases dt g1) = score g1 + dead_rewards (heap g1) (enemies g1)"
    using c by (simp add: up)
  show "health (heap (update_phases dt g1) r) \<le> health (heap g1 r)"
    using d4 by (simp add: up)
  show "\<forall>p \<in> set (projectiles (update_phases dt g1)). 0 \<le> pdamage p"
    using d4 by (simp add: up)
  show "\<forall>t \<in> set (towers (update_phases dt g1)). tower_ok t"
    using d3 by (simp add: up)
  show "nextId (update_phases dt g1) = nextId g1"
    by (simp add: up)
qed

subsection \<open>Every session keeps the invariant\<close>

lemma new_Game_session_inv: "session_inv (new_Game gr pa)"
  by (simp add: session_inv_def new_Game_def)

lemma Game_update_session_inv:
  assumes "session_inv g" and "Game_update dt g = Inr g'"
  shows "session_inv g'"
proof (cases "gameOver g \<or> gameWon g")
  case True
  with assms show ?thesis by (simp add: Game_update_def)
next
  case False
  with assms(2) obtain g1 where w: "WaveManager_update dt g = Inr g1"
    and g': "g' = update_phases dt g1"
    by (auto simp: Game_update_def split: sum.splits)
  from assms(1) have d: "distinct (enemies g)" and f: "\<forall>r \<in> set (enemies g). r < nextId g"
    and p: "\<forall>p \<in> set (projectiles g). 0 \<le> pdamage p"
    and t: "\<forall>t \<in> set (towers g). tower_ok t"
    by (simp_all add: session_inv_def)
  from WaveManager_update_effect[OF w] d f
  have d1: "distinct (enemies g1)" and f1: "\<forall>r \<in> set (enemies g1). r < nextId g1"
    by (auto simp: less_Suc_eq)
  from p t WaveManager_update_frame(1,2)[OF w]
  have p1: "\<forall>p \<in> set (projectiles g1). 0 \<le> pdamage p"
    and t1: "\<forall>t \<in> set (towers g1). tower_ok t"
    by simp_all
  note e = update_phases_effect[OF d1 p1 t1, of dt]
  from e(1) d1 f1 e(7) e(5) e(6) show ?thesis
    by (simp add: g' session_inv_def)
qed

lemma upgradeTower_session_inv:
  assumes "session_inv g" and "i < length (towers g)"
  shows "session_inv (snd (upgradeTower i g))"
proof -
  from assms have "tower_ok (towers g ! i)" by (simp add: session_inv_def)
  then have v: "tower_ok (Tower_upgrade (towers g ! i))" by (rule Tower_upgrade_ok)
  have "\<forall>t \<in> set ((towers g)[i := Tower_upgrade (towers g ! i)]). tower_ok t"
  proof
    fix t assume "t \<in> set ((towers g)[i := Tower_upgrade (towers g ! i)])"
    then have "t \<in> insert (Tower_upgrade (towers g ! i)) (set (towers g))"
      using set_update_subset_insert by fast
    with v assms(1) show "tower_ok t" by (auto simp: session_inv_def)
  qed
  with assms(1) show ?thesis
    by (simp add: upgradeTower_def Let_def session_inv_def)
qed

lemma handleClick_session_inv:
  assumes "session_inv g" and "handleClick x y g = Inr (al, g')"
  shows "session_inv g'"
proof (cases "gameOver g")
  case True
  with assms show ?thesis by (simp add: handleClick_def)
next
  case False
  show ?thesis
  proof (cases "placingTower g")
    case True
    with False assms towerTypes_positive show ?thesis
      by (fastforce simp: handleClick_def Let_def session_inv_def tower_ok_def new_Tower_def
          split: if_splits option.splits)
  next
    case np: False
    show ?thesis
    proof (cases "clicked_tower x y (towers g) 0")
      case None
      with False np assms show ?thesis by (simp add: handleClick_def Let_def)
    next
      case (Some i)
      from clicked_tower_bound[OF Some] have "i < length (towers g)" by simp
      from upgradeTower_session_inv[OF assms(1) this] False np Some assms(2)
      show ?thesis by (auto simp: handleClick_def Let_def)
    qed
  qed
qed

lemma step_session_inv:
  assumes "session_inv g" and "step ev g = Inr g'"
  shows "session_inv g'"
proof (cases ev)
  case (Tick dt)
  with assms show ?thesis using Game_update_session_inv by (simp add: step_def)
next
  case (Click x y)
  with assms obtain al where "handleClick x y g = Inr (al, g')"
    by (auto simp: step_def split: sum.splits prod.splits)
  from handleClick_session_inv[OF assms(1) this] show ?thesis .
next
  case (StartPlacing k)
  with assms show ?thesis by (auto simp: step_def session_inv_def)
qed

lemma run_session_inv: "session_inv g \<Longrightarrow> run evs g = Inr g' \<Longrightarrow> session_inv g'"
proof (induction evs arbitrary: g)
  case Nil
  then show ?case by simp
next
  case (Cons ev evs)
  from Cons.prems(2) obtain g1 where s: "step ev g = Inr g1" and r: "run evs g1 = Inr g'"
    by (auto split: sum.splits)
  from Cons.IH[OF step_session_inv[OF Cons.prems(1) s] r] show ?case .
qed

lemma session_inv_reachable: "run evs (new_Game gr pa) = Inr g \<Longrightarrow> session_inv g"
  using run_session_inv[OF new_Game_session_inv] .

subsection \<open>The example sessions\<close>

lemma one_tower_run:
  "run [StartPlacing ''basic'', Click 20 20] (new_Game path_grid createPath) = Inr one_tower"
  using path_grid_0_0
  by (simp add: step_def startPlacingTower_def towerTypes_def handleClick_def new_Game_def
      one_tower_def GRID_SIZE_def Let_def new_Tower_def)

lemma one_tower_upgraded_run:
  "run [Click 25 30, Click 25 30] one_tower = Inr one_tower_upgraded"
  by (simp add: step_def handleClick_def new_Game_def upgradeTower_def Tower_upgrade_def
      one_tower_def one_tower_upgraded_def GRID_SIZE_def Let_def new_Tower_def sqrt_le_sq)

lemma two_escaping_tick: "Game_update (1/2) two_escaping = Inr two_escaped"
  by (simp add: two_escaping_def two_escaped_def new_Game_def new_WaveManager_def Game_update_def
      WaveManager_update_def update_phases_def towers_phase_def win_check_def Let_def
      enemy_step_def Enemy_update_def length_createPath splice1_def
      CANVAS_WIDTH_def GRID_SIZE_def numeral_2_eq_2 basic_at_def fast_at_def)

lemma last_hit_tick: "Game_update (1/60) last_hit = Inr fatal_hit"
  by (simp add: last_hit_def fatal_hit_def new_Game_def new_WaveManager_def Game_update_def
      WaveManager_update_def update_phases_def towers_phase_def win_check_def Let_def
      Tower_update_def new_Tower_def projectile_step_def Projectile_update_def splice1_def
      enemy_step_def Enemy_update_def length_createPath basic_at_def
      CANVAS_WIDTH_def GRID_SIZE_def sqrt_less_sq)

lemma fatal_hit_tick: "Game_update (1/60) fatal_hit = Inr reward_paid"
  by (simp add: last_hit_def fatal_hit_def reward_paid_def new_Game_def new_WaveManager_def
      Game_update_def
      WaveManager_update_def update_phases_def towers_phase_def win_check_def Let_def
      Tower_update_def new_Tower_def projectile_step_def Projectile_update_def splice1_def
      enemy_step_def Enemy_update_def length_createPath basic_at_def
      CANVAS_WIDTH_def GRID_SIZE_def sqrt_less_sq)

lemma edge_hit_tick: "Game_update (1/60) edge_hit = Inr edge_hit_escaped"
  by (simp add: edge_hit_def edge_hit_escaped_def last_hit_def new_Game_def new_WaveManager_def
      Game_update_def
      WaveManager_update_def update_phases_def towers_phase_def win_check_def Let_def
      Tower_update_def new_Tower_def projectile_step_def Projectile_update_def splice1_def
      enemy_step_def Enemy_update_def length_createPath basic_at_def
      CANVAS_WIDTH_def GRID_SIZE_def sqrt_less_sq)

lemma escape_session:
  "(case run (map Tick escape_ticks) (new_Game path_grid createPath) of
      Inl _ \<Rightarrow> False
    | Inr g \<Rightarrow> lives g = - 1 \<and> gameOver g)"
  by (simp add: escape_ticks_def new_Game_def new_WaveManager_def createWaves_def
      step_def Game_update_def WaveManager_update_def update_phases_def towers_phase_def
      win_check_def Let_def enemy_step_def Enemy_update_def splice1_def
      new_Enemy_createPath createPath_nth_1 length_createPath enemyTypes_def
      CANVAS_WIDTH_def GRID_SIZE_def)

subsection \<open>The doubles of the examples\<close>

lemma dround_3_10: "dround (3/10) = 5404319552844595 / 2 ^ 54"
  by (simp add: dround_def ulp_def ulp_small_numeral rne_def Let_def)

lemma dround_7_20: "dround (7/20) = 6305039478318694 / 2 ^ 54"
  by (simp add: dround_def ulp_def ulp_small_numeral rne_def Let_def)

lemma dround_7_10: "dround (7/10) = 6305039478318694 / 2 ^ 53"
  by (simp add: dround_def ulp_def ulp_small_numeral rne_def Let_def)

lemma dround_11_10: "dround (11/10) = 4953959590107546 / 2 ^ 52"
  by (simp add: dround_def ulp_def ulp_small_numeral rne_def Let_def)

lemma fired_tower_run:
  "tower_step (tick_near (1/64)) ready_tower
     = (ready_tower\<lparr>fireCooldown := 1\<rparr>, [new_Projectile 300 420 (Some 1) 10])"
  "tower_step (tick_near (dround (3/10))) (ready_tower\<lparr>fireCooldown := 1\<rparr>)
     = (ready_tower\<lparr>fireCooldown := 6305039478318694 / 2 ^ 53\<rparr>, [])"
  "tower_step (tick_near (dround (7/20))) (ready_tower\<lparr>fireCooldown := 6305039478318694 / 2 ^ 53\<rparr>)
     = (ready_tower\<lparr>fireCooldown := 6305039478318694 / 2 ^ 54\<rparr>, [])"
  "tower_step (tick_near (dround (7/20))) (ready_tower\<lparr>fireCooldown := 6305039478318694 / 2 ^ 54\<rparr>)
     = (ready_tower\<lparr>fireCooldown := 1\<rparr>, [new_Projectile 300 420 (Some 1) 10])"
  by (simp_all add: dround_3_10 dround_7_20 tick_near_def Tower_update_double_def
      ready_tower_def new_Tower_def Let_def dsub_def ddiv_def
      dround_def ulp_def ulp_small_numeral rne_def
      tower_dist_def four_enemies_def basic_at_def lt_minDist_def sqrt_le_sq)


lemma upgraded_tower_run:
  "tower_step TowerUpgrade (ready_tower\<lparr>fireCooldown := 6305039478318694 / 2 ^ 53\<rparr>)
     = (\<lparr>tx = 300, ty = 420, ttype = ''basic'', damage = 15, trange = 110,
         fireRate = 4953959590107546 / 2 ^ 52, level = 2,
         fireCooldown = 6305039478318694 / 2 ^ 53, upgradeCost = 75\<rparr>, [])"
  "tower_step (tick_near (dround (7/20)))
     \<lparr>tx = 300, ty = 420, ttype = ''basic'', damage = 15, trange = 110,
      fireRate = 4953959590107546 / 2 ^ 52, level = 2,
      fireCooldown = 6305039478318694 / 2 ^ 53, upgradeCost = 75\<rparr>
     = (\<lparr>tx = 300, ty = 420, ttype = ''basic'', damage = 15, trange = 110,
         fireRate = 4953959590107546 / 2 ^ 52, level = 2,
         fireCooldown = 6305039478318694 / 2 ^ 54, upgradeCost = 75\<rparr>, [])"
  "snd (tower_step (tick_near (dround (7/20)))
     \<lparr>tx = 300, ty = 420, ttype = ''basic'', damage = 15, trange = 110,
      fireRate = 4953959590107546 / 2 ^ 52, level = 2,
      fireCooldown = 6305039478318694 / 2 ^ 54, upgradeCost = 75\<rparr>) \<noteq> []"
  by (simp_all add: dround_7_20 dround_11_10 tick_near_def Tower_update_double_def
      Tower_upgrade_double_def dmul_def dadd_def
      ready_tower_def new_Tower_def Let_def dsub_def ddiv_def
      dround_def ulp_def ulp_small_numeral rne_def
      tower_dist_def four_enemies_def basic_at_def lt_minDist_def sqrt_le_sq)

section \<open>The claims\<close>

text \<open>
  C1. \<^verbatim>\<open>Game.update\<close> tests \<^verbatim>\<open>this.waveManager.waves.length === 0\<close>, and no code removes a
  wave from \<^verbatim>\<open>waves\<close> (only the queue inside a wave is shifted). In the session
  \<open>all_waves_done\<close> the wave index has reached the end of the wave list and no enemy is
  alive; a tick only lets the cooldown of the tower run on, and \<open>gameWon\<close> stays false.
\<close>

theorem C1_gameWon_not_set:
  "length (waves (waveManager all_waves_done)) \<le> currentWaveIndex (waveManager all_waves_done)
   \<and> enemies all_waves_done = []
   \<and> \<not> gameOver all_waves_done
   \<and> Game_update (1/60) all_waves_done
       = Inr (all_waves_done
               \<lparr>towers := [(new_Tower 300 420 ''basic''
                              \<lparr>t_cost = 50, t_damage = 10, t_range = 100, t_fireRate = 1\<rparr>)
                             \<lparr>fireCooldown := - 3 - 1/60\<rparr>]\<rparr>)
   \<and> \<not> gameWon all_waves_done"
  by (simp add: all_waves_done_def new_Game_def new_WaveManager_def Game_update_def
      WaveManager_update_def update_phases_def towers_phase_def win_check_def Let_def
      Tower_update_def new_Tower_def)

text \<open>
  C2, as stated, fails: damage is applied in the loop over the projectiles, which runs
  after the loop over the enemies, the only place that removes enemies and pays rewards.
  In the session \<open>last_hit\<close> the enemy at reference 20 has 10 health; a tick takes its
  health to 0, and at the end of that tick it is still in the live collection and money
  and score have not changed.
\<close>

theorem C2_dead_enemy_stays:
  "health (heap last_hit 20) = 10
   \<and> Game_update (1/60) last_hit = Inr fatal_hit
   \<and> health (heap fatal_hit 20) = 0
   \<and> enemies fatal_hit = [20]
   \<and> money fatal_hit = money last_hit
   \<and> score fatal_hit = score last_hit"
  using last_hit_tick
  by (simp add: last_hit_def fatal_hit_def basic_at_def)

text \<open>
  C2, amended. In a tick from a state that keeps \<open>session_inv\<close>, as every state of a
  session does (lemma \<open>session_inv_reachable\<close>), the health of every allocated enemy does
  not increase, and a tick with \<open>gameOver\<close> or \<open>gameWon\<close> set at its start changes nothing.
  In a tick that runs (neither flag set at its start) from such a state: an enemy that
  is in the live collection at the start of the tick is still in it at the end exactly
  when its health at the start of the tick is positive and its \<open>x\<close> after its own
  move is not beyond the right edge; and money and score each increase by exactly the sum of
  the rewards of the enemies that are in the live collection with \<open>health \<le> 0\<close> at the
  start of the tick. What the projectiles of the tick do to the health of an enemy plays
  no part in that tick: an enemy brought to \<open>health \<le> 0\<close> in a tick is removed and paid for
  by a later tick that runs with it in the live collection, and if it passes the right
  edge in the tick of the hit it is removed unpaid.
\<close>

theorem C2_health_and_reward:
  assumes "session_inv g" and "Game_update dt g = Inr g'"
  shows "(\<forall>r < nextId g. health (heap g' r) \<le> health (heap g r))
       \<and> (gameOver g \<or> gameWon g \<longrightarrow> g' = g)
       \<and> (\<not> gameOver g \<and> \<not> gameWon g \<longrightarrow>
             (\<forall>r \<in> set (enemies g).
                r \<in> set (enemies g')
                \<longleftrightarrow> 0 < health (heap g r)
                    \<and> ex (Enemy_update dt (path g) (heap g r)) \<le> CANVAS_WIDTH)
             \<and> money g' = money g + dead_rewards (heap g) (enemies g)
             \<and> score g' = score g + dead_rewards (heap g) (enemies g))"
proof -
  have stop: "g' = g" if "gameOver g \<or> gameWon g"
    using that assms(2) by (simp add: Game_update_def)
  have runs: "(\<forall>r < nextId g. health (heap g' r) \<le> health (heap g r))
       \<and> (\<forall>r \<in> set (enemies g).
             r \<in> set (enemies g')
             \<longleftrightarrow> 0 < health (heap g r)
                 \<and> ex (Enemy_update dt (path g) (heap g r)) \<le> CANVAS_WIDTH)
       \<and> money g' = money g + dead_rewards (heap g) (enemies g)
       \<and> score g' = score g + dead_rewards (heap g) (enemies g)"
    if "\<not> gameOver g \<and> \<not> gameWon g"
  proof -
    from that assms(2) obtain g1 where w: "WaveManager_update dt g = Inr g1"
      and g': "g' = update_phases dt g1"
      by (auto simp: Game_update_def split: sum.splits)
    from assms(1) have d: "distinct (enemies g)" and f: "\<forall>r \<in> set (enemies g). r < nextId g"
      and p: "\<forall>p \<in> set (projectiles g). 0 \<le> pdamage p"
      and t: "\<forall>t \<in> set (towers g). tower_ok t"
      by (simp_all add: session_inv_def)
    note eff = WaveManager_update_effect[OF w]
    from eff d f have d1: "distinct (enemies g1)" by auto
    from p t WaveManager_update_frame(1,2)[OF w]
    have p1: "\<forall>p \<in> set (projectiles g1). 0 \<le> pdamage p"
      and t1: "\<forall>t \<in> set (towers g1). tower_ok t"
      by simp_all
    note e = update_phases_effect[OF d1 p1 t1, of dt]
    have hp: "heap g1 r = heap g r" if "r < nextId g" for r
      using eff that by auto
    have sub: "set (enemies g) \<subseteq> set (enemies g1)" using eff by auto
    have dr: "dead_rewards (heap g1) (enemies g1) = dead_rewards (heap g) (enemies g)"
    proof -
      have same: "dead_rewards (heap g1) (enemies g) = dead_rewards (heap g) (enemies g)"
        by (rule dead_rewards_cong) (simp add: hp f)
      from eff show ?thesis
      proof
        assume "enemies g1 = enemies g \<and> heap g1 = heap g \<and> nextId g1 = nextId g"
        then show ?thesis by simp
      next
        assume "enemies g1 = enemies g @ [nextId g] \<and> nextId g1 = Suc (nextId g)
            \<and> (\<exists>en. heap g1 = (heap g)(nextId g := en) \<and> 0 < health en)"
        then show ?thesis using same by (auto simp: dead_rewards_def)
      qed
    qed
    have 1: "\<forall>r < nextId g. health (heap g' r) \<le> health (heap g r)"
    proof (intro allI impI)
      fix r assume "r < nextId g"
      from e(4)[of r] hp[OF this] show "health (heap g' r) \<le> health (heap g r)"
        by (simp add: g')
    qed
    have 2: "\<forall>r \<in> set (enemies g).
               r \<in> set (enemies g')
               \<longleftrightarrow> 0 < health (heap g r)
                   \<and> ex (Enemy_update dt (path g) (heap g r)) \<le> CANVAS_WIDTH"
      using f hp sub WaveManager_update_frame(11)[OF w]
      by (auto simp: g' e(1) keeps_def)
    have 3: "money g' = money g + dead_rewards (heap g) (enemies g)"
      using WaveManager_update_frame(3)[OF w] by (simp add: g' e(2) dr)
    have 4: "score g' = score g + dead_rewards (heap g) (enemies g)"
      using WaveManager_update_frame(4)[OF w] by (simp add: g' e(3) dr)
    from 1 2 3 4 show ?thesis by blast
  qed
  show ?thesis
  proof (cases "gameOver g \<or> gameWon g")
    case True
    from stop[OF True] True show ?thesis by auto
  next
    case False
    then have "\<not> gameOver g \<and> \<not> gameWon g" by simp
    from runs[OF this] this show ?thesis by blast
  qed
qed

theorem C2_health_and_reward_witness:
  "session_inv last_hit
   \<and> Game_update (1/60) last_hit = Inr fatal_hit
   \<and> health (heap last_hit 20) = 10
   \<and> health (heap fatal_hit 20) = 0
   \<and> 20 \<in> set (enemies fatal_hit)
   \<and> money fatal_hit = money last_hit
   \<and> session_inv fatal_hit
   \<and> Game_update (1/60) fatal_hit = Inr reward_paid
   \<and> 20 \<notin> set (enemies reward_paid)
   \<and> money reward_paid = money fatal_hit + 10
   \<and> score reward_paid = score fatal_hit + 10
   \<and> session_inv edge_hit
   \<and> Game_update (1/60) edge_hit = Inr edge_hit_escaped
   \<and> health (heap edge_hit 20) = 10
   \<and> health (heap edge_hit_escaped 20) = 0
   \<and> 20 \<notin> set (enemies edge_hit_escaped)
   \<and> money edge_hit_escaped = money edge_hit
   \<and> score edge_hit_escaped = score edge_hit
   \<and> session_inv two_escaped
   \<and> gameOver two_escaped
   \<and> Game_update (1/60) two_escaped = Inr two_escaped"
proof -
  have i1: "session_inv last_hit"
    by (simp add: session_inv_def tower_ok_def last_hit_def new_Game_def new_Tower_def)
  have n1: "\<not> gameOver last_hit" "\<not> gameWon last_hit" "(20::nat) < nextId last_hit"
    "20 \<in> set (enemies last_hit)" "0 < health (heap last_hit 20)"
    "ex (Enemy_update (1/60) (path last_hit) (heap last_hit 20)) \<le> CANVAS_WIDTH"
    "dead_rewards (heap last_hit) (enemies last_hit) = 0"
    by (simp_all add: last_hit_def new_Game_def basic_at_def Enemy_update_def
        length_createPath CANVAS_WIDTH_def GRID_SIZE_def dead_rewards_def)
  have v1: "health (heap last_hit 20) = 10" "health (heap fatal_hit 20) = 0"
    by (simp_all add: last_hit_def fatal_hit_def basic_at_def)
  note t1 = C2_health_and_reward[OF i1 last_hit_tick]
  from t1 n1 have b: "20 \<in> set (enemies fatal_hit)"
    and m1: "money fatal_hit = money last_hit"
    by (blast, simp)
  have i2: "session_inv fatal_hit"
    by (simp add: session_inv_def tower_ok_def fatal_hit_def last_hit_def new_Game_def
        new_Tower_def)
  have n2: "\<not> gameOver fatal_hit" "\<not> gameWon fatal_hit"
    "20 \<in> set (enemies fatal_hit)" "health (heap fatal_hit 20) \<le> 0"
    "dead_rewards (heap fatal_hit) (enemies fatal_hit) = 10"
    by (simp_all add: fatal_hit_def last_hit_def new_Game_def basic_at_def dead_rewards_def)
  note t2 = C2_health_and_reward[OF i2 fatal_hit_tick]
  from t2 n2 have c: "20 \<notin> set (enemies reward_paid)"
    and m: "money reward_paid = money fatal_hit + 10"
    and s: "score reward_paid = score fatal_hit + 10"
    by (force, simp, simp)
  have i3: "session_inv edge_hit"
    by (simp add: session_inv_def tower_ok_def edge_hit_def last_hit_def new_Game_def
        new_Tower_def)
  have n3: "\<not> gameOver edge_hit" "\<not> gameWon edge_hit"
    "20 \<in> set (enemies edge_hit)" "0 < health (heap edge_hit 20)"
    "\<not> ex (Enemy_update (1/60) (path edge_hit) (heap edge_hit 20)) \<le> CANVAS_WIDTH"
    "dead_rewards (heap edge_hit) (enemies edge_hit) = 0"
    by (simp_all add: edge_hit_def last_hit_def new_Game_def basic_at_def Enemy_update_def
        length_createPath CANVAS_WIDTH_def GRID_SIZE_def dead_rewards_def)
  have v3: "health (heap edge_hit 20) = 10" "health (heap edge_hit_escaped 20) = 0"
    by (simp_all add: edge_hit_def edge_hit_escaped_def basic_at_def)
  note t3 = C2_health_and_reward[OF i3 edge_hit_tick]
  from t3 n3 have c3: "20 \<notin> set (enemies edge_hit_escaped)"
    and m3: "money edge_hit_escaped = money edge_hit"
    and s3: "score edge_hit_escaped = score edge_hit"
    by (force, simp, simp)
  have i4: "session_inv two_escaped"
    by (simp add: session_inv_def two_escaped_def two_escaping_def new_Game_def)
  have n4: "gameOver two_escaped" by (simp add: two_escaped_def)
  have u4: "Game_update (1/60) two_escaped = Inr two_escaped"
    by (simp add: Game_update_def n4)
  from C2_health_and_reward[OF i4 u4] n4
  have f4: "Game_update (1/60) two_escaped = Inr two_escaped" by (simp add: u4)
  from i1 last_hit_tick v1 b m1 i2 fatal_hit_tick c m s i3 edge_hit_tick v3 c3 m3 s3 i4 n4 f4
  show ?thesis by blast
qed

text \<open>
  C3, as stated, fails: \<open>lives\<close> goes below zero. The loop over the enemies takes a life
  for every enemy beyond the right edge and goes on after \<open>gameOver\<close> is set. In the
  session \<open>two_escaping\<close>, with one life left, two enemies pass the right edge in the same
  tick and \<open>lives\<close> becomes \<open>-1\<close>; and the thirty ticks \<open>escape_ticks\<close> lead from the
  initial session to a state with \<open>lives = -1\<close>.
\<close>

theorem C3_lives_negative:
  "lives two_escaping = 1 \<and> \<not> gameOver two_escaping
   \<and> (case Game_update (1/2) two_escaping of Inl _ \<Rightarrow> False | Inr g' \<Rightarrow> lives g' = - 1)
   \<and> (case run (map Tick escape_ticks) (new_Game path_grid createPath) of
         Inl _ \<Rightarrow> False
       | Inr g \<Rightarrow> lives g = - 1)"
proof -
  have 1: "lives two_escaping = 1 \<and> \<not> gameOver two_escaping"
    by (simp add: two_escaping_def new_Game_def)
  have 2: "case Game_update (1/2) two_escaping of Inl _ \<Rightarrow> False | Inr g' \<Rightarrow> lives g' = - 1"
    by (simp add: two_escaping_tick two_escaped_def)
  have 3: "case run (map Tick escape_ticks) (new_Game path_grid createPath) of
             Inl _ \<Rightarrow> False
           | Inr g \<Rightarrow> lives g = - 1"
    using escape_session by (simp split: sum.splits)
  from 1 2 3 show ?thesis by blast
qed

text \<open>
  C3, amended. From a state where \<open>lives \<le> 0\<close> implies \<open>gameOver\<close> (the initial state has
  20 lives), after any sequence of ticks and commands \<open>lives \<le> 0\<close> implies \<open>gameOver\<close>;
  and once \<open>gameOver\<close> is set, every sequence of ticks leaves the whole state unchanged.
\<close>

theorem C3_lives_gameOver:
  assumes "lives g \<le> 0 \<longrightarrow> gameOver g" and "run evs g = Inr g'"
  shows "(lives g' \<le> 0 \<longrightarrow> gameOver g')
       \<and> (gameOver g' \<longrightarrow> (\<forall>dts. run (map Tick dts) g' = Inr g'))"
  using run_gameOver[OF assms] ticks_frozen[of g'] by simp

theorem C3_lives_gameOver_witness:
  "0 < lives two_escaping
   \<and> run [Tick (1/2)] two_escaping = Inr two_escaped
   \<and> lives two_escaped \<le> 0
   \<and> gameOver two_escaped
   \<and> run (map Tick [1/60, 5]) two_escaped = Inr two_escaped"
proof -
  have a: "lives two_escaping \<le> 0 \<longrightarrow> gameOver two_escaping"
    by (simp add: two_escaping_def)
  have r: "run [Tick (1/2)] two_escaping = Inr two_escaped"
    by (simp add: step_def two_escaping_tick)
  have l: "lives two_escaped \<le> 0" by (simp add: two_escaped_def)
  have p: "0 < lives two_escaping" by (simp add: two_escaping_def)
  from C3_lives_gameOver[OF a r] p r l show ?thesis by blast
qed

text \<open>
  C4. The upgrade of a tower costs \<open>level * 25 + 50\<close> at the level before the upgrade.
  With less money the command fails (the alert \<open>NeedToUpgrade cost\<close>) and the state is
  unchanged. Otherwise the cost is deducted and the tower, and only it, changes:
  \<open>level + 1\<close>, \<open>damage = floor (damage * 1.5)\<close>, \<open>range + 10\<close>, \<open>fireRate * 1.1\<close>,
  \<open>upgradeCost + 25\<close>. The \<open>n\<close>-th upgrade of a new tower costs \<open>75 + 25 * n\<close>:
  75, 100, 125, ...
\<close>

theorem C4_upgrade:
  assumes "i < length (towers g)"
  shows "(money g < real (level (towers g ! i)) * 25 + 50 \<longrightarrow>
            upgradeTower i g = ([NeedToUpgrade (real (level (towers g ! i)) * 25 + 50)], g))
       \<and> (real (level (towers g ! i)) * 25 + 50 \<le> money g \<longrightarrow>
            (\<exists>g'. upgradeTower i g = ([], g')
               \<and> g' = g\<lparr>money := money g - (real (level (towers g ! i)) * 25 + 50),
                        towers := towers g'\<rparr>
               \<and> length (towers g') = length (towers g)
               \<and> (\<forall>j < length (towers g). j \<noteq> i \<longrightarrow> towers g' ! j = towers g ! j)
               \<and> level (towers g' ! i) = level (towers g ! i) + 1
               \<and> damage (towers g' ! i) = of_int \<lfloor>damage (towers g ! i) * 1.5\<rfloor>
               \<and> trange (towers g' ! i) = trange (towers g ! i) + 10
               \<and> fireRate (towers g' ! i) = fireRate (towers g ! i) * 1.1
               \<and> upgradeCost (towers g' ! i) = upgradeCost (towers g ! i) + 25
               \<and> fireCooldown (towers g' ! i) = fireCooldown (towers g ! i)
               \<and> tx (towers g' ! i) = tx (towers g ! i)
               \<and> ty (towers g' ! i) = ty (towers g ! i)
               \<and> ttype (towers g' ! i) = ttype (towers g ! i)))
       \<and> (\<forall>n x y kind stats.
            real (level ((Tower_upgrade ^^ n) (new_Tower x y kind stats))) * 25 + 50
              = 75 + 25 * real n)"
  using assms
  by (auto simp: upgradeTower_def Let_def Tower_upgrade_def level_upgrades)

theorem C4_upgrade_witness:
  "0 < length (towers one_tower)
   \<and> real (level (towers one_tower ! 0)) * 25 + 50 = 75
   \<and> money one_tower = 100
   \<and> upgradeTower 0 one_tower = ([], one_tower_upgraded)
   \<and> money one_tower_upgraded = 25
   \<and> level (towers one_tower_upgraded ! 0) = 2
   \<and> damage (towers one_tower_upgraded ! 0) = 15
   \<and> trange (towers one_tower_upgraded ! 0) = 110
   \<and> fireRate (towers one_tower_upgraded ! 0) = 11/10
   \<and> upgradeCost (towers one_tower_upgraded ! 0) = 75
   \<and> upgradeTower 0 one_tower_upgraded = ([NeedToUpgrade 100], one_tower_upgraded)"
proof -
  have l: "0 < length (towers one_tower)" "0 < length (towers one_tower_upgraded)"
    by (simp_all add: one_tower_def one_tower_upgraded_def)
  have u: "upgradeTower 0 one_tower = ([], one_tower_upgraded)"
    by (simp add: upgradeTower_def Tower_upgrade_def one_tower_def one_tower_upgraded_def
        new_Tower_def Let_def)
  from C4_upgrade[OF l(1)] C4_upgrade[OF l(2)] u l show ?thesis
    by (simp add: one_tower_def one_tower_upgraded_def new_Tower_def)
qed

text \<open>
  C5. The wave manager changes the wave index only when the wave index is inside the wave
  list, no cooldown is running, the queue of the current wave is empty and no enemy is
  alive; it then adds one to the index and sets the cooldown to \<open>waveInterval\<close>, which is
  5 in a new wave manager and never changes; and under those conditions it does so.
  While the queue of the current wave is not empty (and no cooldown is running), the
  manager adds \<open>dt\<close> to the spawn timer (0 when undefined); below 1 nothing else
  changes; from 1 on, the front archetype is removed from the queue, an enemy with the
  stats of that archetype is created at the first point of the path and appended to the
  live collection, and the spawn timer is reset to 0.
\<close>

theorem C5_wave_scheduler:
  fixes g :: game and dt :: real
  defines "wm \<equiv> waveManager g"
  defines "timer \<equiv> (case spawnTimer wm of None \<Rightarrow> 0 | Some s \<Rightarrow> s)"
  shows
    "(\<forall>g'. WaveManager_update dt g = Inr g'
          \<and> currentWaveIndex (waveManager g') \<noteq> currentWaveIndex wm
        \<longrightarrow> currentWaveIndex wm < length (waves wm) \<and> waveCooldown wm \<le> 0
            \<and> waves wm ! currentWaveIndex wm = [] \<and> enemies g = [])
   \<and> (currentWaveIndex wm < length (waves wm) \<and> waveCooldown wm \<le> 0
        \<and> waves wm ! currentWaveIndex wm = [] \<and> enemies g = []
        \<longrightarrow> WaveManager_update dt g
              = Inr (g\<lparr>waveManager := wm\<lparr>currentWaveIndex := currentWaveIndex wm + 1,
                                          waveCooldown := waveInterval wm,
                                          spawnTimer := None\<rparr>\<rparr>))
   \<and> waveInterval new_WaveManager = 5
   \<and> (\<forall>g'. WaveManager_update dt g = Inr g'
        \<longrightarrow> waveInterval (waveManager g') = waveInterval wm)
   \<and> (\<forall>k rest. currentWaveIndex wm < length (waves wm) \<and> waveCooldown wm \<le> 0
        \<and> waves wm ! currentWaveIndex wm = k # rest \<and> timer + dt < 1
        \<longrightarrow> WaveManager_update dt g
              = Inr (g\<lparr>waveManager := wm\<lparr>spawnTimer := Some (timer + dt)\<rparr>\<rparr>))
   \<and> (\<forall>k rest stats p0 ps. currentWaveIndex wm < length (waves wm) \<and> waveCooldown wm \<le> 0
        \<and> waves wm ! currentWaveIndex wm = k # rest \<and> 1 \<le> timer + dt
        \<and> enemyTypes k = Some stats \<and> path g = p0 # ps
        \<longrightarrow> WaveManager_update dt g
              = Inr (g\<lparr>heap := (heap g)(nextId g :=
                               \<lparr>etype = k, health = e_health stats, maxHealth = e_health stats,
                                speed = e_speed stats, reward = e_reward stats,
                                esize = e_size stats, pathIndex = 0,
                                ex = fst p0, ey = snd p0\<rparr>),
                      nextId := Suc (nextId g),
                      enemies := enemies g @ [nextId g],
                      waveManager := wm\<lparr>waves := (waves wm)[currentWaveIndex wm := rest],
                                        spawnTimer := Some 0\<rparr>\<rparr>))"
proof -
  have 1: "\<forall>g'. WaveManager_update dt g = Inr g'
          \<and> currentWaveIndex (waveManager g') \<noteq> currentWaveIndex wm
        \<longrightarrow> currentWaveIndex wm < length (waves wm) \<and> waveCooldown wm \<le> 0
            \<and> waves wm ! currentWaveIndex wm = [] \<and> enemies g = []"
    by (auto simp: WaveManager_update_def Let_def wm_def
        split: if_splits list.splits option.splits sum.splits)
  have 2: "currentWaveIndex wm < length (waves wm) \<and> waveCooldown wm \<le> 0
        \<and> waves wm ! currentWaveIndex wm = [] \<and> enemies g = []
        \<longrightarrow> WaveManager_update dt g
              = Inr (g\<lparr>waveManager := wm\<lparr>currentWaveIndex := currentWaveIndex wm + 1,
                                          waveCooldown := waveInterval wm,
                                          spawnTimer := None\<rparr>\<rparr>)"
    by (simp add: WaveManager_update_def Let_def wm_def)
  have 3: "waveInterval new_WaveManager = 5"
    by (simp add: new_WaveManager_def)
  have 4: "\<forall>g'. WaveManager_update dt g = Inr g'
        \<longrightarrow> waveInterval (waveManager g') = waveInterval wm"
    using WaveManager_update_frame(13) by (simp add: wm_def)
  have 5: "\<forall>k rest. currentWaveIndex wm < length (waves wm) \<and> waveCooldown wm \<le> 0
        \<and> waves wm ! currentWaveIndex wm = k # rest \<and> timer + dt < 1
        \<longrightarrow> WaveManager_update dt g
              = Inr (g\<lparr>waveManager := wm\<lparr>spawnTimer := Some (timer + dt)\<rparr>\<rparr>)"
    by (simp add: WaveManager_update_def Let_def wm_def timer_def)
  have 6: "\<forall>k rest stats p0 ps. currentWaveIndex wm < length (waves wm) \<and> waveCooldown wm \<le> 0
        \<and> waves wm ! currentWaveIndex wm = k # rest \<and> 1 \<le> timer + dt
        \<and> enemyTypes k = Some stats \<and> path g = p0 # ps
        \<longrightarrow> WaveManager_update dt g
              = Inr (g\<lparr>heap := (heap g)(nextId g :=
                               \<lparr>etype = k, health = e_health stats, maxHealth = e_health stats,
                                speed = e_speed stats, reward = e_reward stats,
                                esize = e_size stats, pathIndex = 0,
                                ex = fst p0, ey = snd p0\<rparr>),
                      nextId := Suc (nextId g),
                      enemies := enemies g @ [nextId g],
                      waveManager := wm\<lparr>waves := (waves wm)[currentWaveIndex wm := rest],
                                        spawnTimer := Some 0\<rparr>\<rparr>)"
    by (simp add: WaveManager_update_def Let_def wm_def timer_def new_Enemy_def)
  from 1 2 3 4 5 6 show ?thesis by blast
qed

theorem C5_wave_scheduler_witness:
  "WaveManager_update 1 (new_Game path_grid createPath) = Inr first_spawn
   \<and> WaveManager_update (1/2) first_spawn
       = Inr (first_spawn\<lparr>waveManager := (waveManager first_spawn)\<lparr>spawnTimer := Some (1/2)\<rparr>\<rparr>)
   \<and> WaveManager_update (1/60) wave_cleared
       = Inr (wave_cleared\<lparr>waveManager :=
                (waveManager wave_cleared)\<lparr>currentWaveIndex := 1, waveCooldown := 5,
                                           spawnTimer := None\<rparr>\<rparr>)"
proof -
  let ?g = "new_Game path_grid createPath"
  have pa: "path ?g = (0, 280) # tl createPath"
    by (simp add: new_Game_def createPath_eq)
  have et: "enemyTypes ''basic''
              = Some \<lparr>e_health = 50, e_speed = 1, e_reward = 10, e_size = 20\<rparr>"
    by (simp add: enemyTypes_def)
  have w0: "currentWaveIndex (waveManager ?g) < length (waves (waveManager ?g))"
    "waveCooldown (waveManager ?g) \<le> 0"
    "waves (waveManager ?g) ! currentWaveIndex (waveManager ?g)
       = ''basic'' # [''basic'', ''basic'', ''basic'', ''basic'']"
    "(1::real) \<le> (case spawnTimer (waveManager ?g) of None \<Rightarrow> 0 | Some s \<Rightarrow> s) + 1"
    by (simp_all add: new_Game_def new_WaveManager_def createWaves_def)
  note t6 = C5_wave_scheduler[where g = ?g and dt = 1,
      THEN conjunct2, THEN conjunct2, THEN conjunct2, THEN conjunct2, THEN conjunct2,
      rule_format, of "''basic''" "[''basic'', ''basic'', ''basic'', ''basic'']"
      "\<lparr>e_health = 50, e_speed = 1, e_reward = 10, e_size = 20\<rparr>" "(0, 280)" "tl createPath"]
  have 1: "WaveManager_update 1 ?g = Inr first_spawn"
    using t6 w0 et pa
    by (simp add: first_spawn_def new_Game_def new_WaveManager_def basic_at_def)
  have w1: "currentWaveIndex (waveManager first_spawn) < length (waves (waveManager first_spawn))"
    "waveCooldown (waveManager first_spawn) \<le> 0"
    "waves (waveManager first_spawn) ! currentWaveIndex (waveManager first_spawn)
       = ''basic'' # [''basic'', ''basic'', ''basic'']"
    "(case spawnTimer (waveManager first_spawn) of None \<Rightarrow> 0 | Some s \<Rightarrow> s) + 1/2 = 1/2"
    by (simp_all add: first_spawn_def new_WaveManager_def createWaves_def)
  note t5 = C5_wave_scheduler[where g = first_spawn and dt = "1/2",
      THEN conjunct2, THEN conjunct2, THEN conjunct2, THEN conjunct2, THEN conjunct1,
      rule_format, of "''basic''" "[''basic'', ''basic'', ''basic'']"]
  have 2: "WaveManager_update (1/2) first_spawn
       = Inr (first_spawn\<lparr>waveManager := (waveManager first_spawn)\<lparr>spawnTimer := Some (1/2)\<rparr>\<rparr>)"
    using t5 w1 by simp
  have w2: "currentWaveIndex (waveManager wave_cleared) < length (waves (waveManager wave_cleared))"
    "waveCooldown (waveManager wave_cleared) \<le> 0"
    "waves (waveManager wave_cleared) ! currentWaveIndex (waveManager wave_cleared) = []"
    "enemies wave_cleared = []"
    "currentWaveIndex (waveManager wave_cleared) = 0"
    "waveInterval (waveManager wave_cleared) = 5"
    by (simp_all add: wave_cleared_def new_Game_def new_WaveManager_def createWaves_def)
  note t2 = C5_wave_scheduler[where g = wave_cleared and dt = "1/60",
      THEN conjunct2, THEN conjunct1, rule_format]
  have 3: "WaveManager_update (1/60) wave_cleared
       = Inr (wave_cleared\<lparr>waveManager :=
                (waveManager wave_cleared)\<lparr>currentWaveIndex := 1, waveCooldown := 5,
                                           spawnTimer := None\<rparr>\<rparr>)"
    using t2 w2 by simp
  from 1 2 3 show ?thesis by simp
qed

text \<open>
  C6, as stated, fails: the cooldown is counted down by the double subtraction
  \<^verbatim>\<open>this.fireCooldown -= deltaTime\<close>, and each result is rounded. The basic tower
  \<open>ready_tower\<close> (fire rate 1) fires, and its cooldown is 1. Three ticks follow, with the
  doubles nearest to 0.3, 0.35 and 0.35 as \<open>dt\<close>: the cooldown becomes the doubles 0.7 and
  0.35 and then 0, so the tower fires again in the third tick. The sum of the three \<open>dt\<close>
  is \<open>1 - 2^-54\<close>, and added as doubles it is \<open>1 - 2^-53\<close>: both are below
  \<open>1 / fireRate = 1\<close>.
\<close>

theorem C6_gap_below_cooldown:
  "fireRate ready_tower = 1
   \<and> snd (tower_step (tick_near (1/64)) ready_tower) \<noteq> []
   \<and> fireCooldown (fst (tower_step (tick_near (1/64)) ready_tower)) = 1
   \<and> no_shot [tick_near (dround (3/10)), tick_near (dround (7/20))]
        (fst (tower_step (tick_near (1/64)) ready_tower))
   \<and> fireCooldown (tower_run [tick_near (dround (3/10))]
                      (fst (tower_step (tick_near (1/64)) ready_tower)))
       = dround (7/10)
   \<and> fireCooldown (tower_run [tick_near (dround (3/10)), tick_near (dround (7/20))]
                      (fst (tower_step (tick_near (1/64)) ready_tower)))
       = dround (7/20)
   \<and> dsub (dround (7/20)) (dround (7/20)) = 0
   \<and> snd (tower_step (tick_near (dround (7/20)))
             (tower_run [tick_near (dround (3/10)), tick_near (dround (7/20))]
                (fst (tower_step (tick_near (1/64)) ready_tower)))) \<noteq> []
   \<and> sum_list (map elapsed
        [tick_near (dround (3/10)), tick_near (dround (7/20)), tick_near (dround (7/20))])
       = 1 - 1 / 2 ^ 54
   \<and> dadd (dadd (dround (3/10)) (dround (7/20))) (dround (7/20)) = 1 - 1 / 2 ^ 53
   \<and> sum_list (map elapsed
        [tick_near (dround (3/10)), tick_near (dround (7/20)), tick_near (dround (7/20))])
       < 1 / fireRate ready_tower"
proof -
  have r: "fireRate ready_tower = 1" by (simp add: ready_tower_def new_Tower_def)
  have s: "sum_list (map elapsed
        [tick_near (dround (3/10)), tick_near (dround (7/20)), tick_near (dround (7/20))])
       = 1 - 1 / 2 ^ 54"
    by (simp add: tick_near_def dround_3_10 dround_7_20)
  have a: "dadd (dadd (dround (3/10)) (dround (7/20))) (dround (7/20)) = 1 - 1 / 2 ^ 53"
    by (simp add: dadd_def dround_3_10 dround_7_20 dround_def ulp_def ulp_small_numeral
        rne_def Let_def)
  have q: "snd (tower_step (tick_near (1/64)) ready_tower) \<noteq> []
   \<and> fireCooldown (fst (tower_step (tick_near (1/64)) ready_tower)) = 1
   \<and> no_shot [tick_near (dround (3/10)), tick_near (dround (7/20))]
        (fst (tower_step (tick_near (1/64)) ready_tower))
   \<and> snd (tower_step (tick_near (dround (7/20)))
             (tower_run [tick_near (dround (3/10)), tick_near (dround (7/20))]
                (fst (tower_step (tick_near (1/64)) ready_tower)))) \<noteq> []"
    by (simp only: fired_tower_run tower_run.simps no_shot.simps fst_conv snd_conv) simp
  have c: "fireCooldown (tower_run [tick_near (dround (3/10))]
                      (fst (tower_step (tick_near (1/64)) ready_tower)))
       = dround (7/10)
   \<and> fireCooldown (tower_run [tick_near (dround (3/10)), tick_near (dround (7/20))]
                      (fst (tower_step (tick_near (1/64)) ready_tower)))
       = dround (7/20)"
    by (simp only: fired_tower_run tower_run.simps fst_conv)
       (simp add: dround_7_10 dround_7_20)
  have z: "dsub (dround (7/20)) (dround (7/20)) = 0" by (simp add: dsub_def)
  from s r have l: "sum_list (map elapsed
        [tick_near (dround (3/10)), tick_near (dround (7/20)), tick_near (dround (7/20))])
       < 1 / fireRate ready_tower"
    by simp
  from r q c z s a l show ?thesis by blast
qed

text \<open>
  C6, amended. A tower with a positive fire rate fires in a tick only if its cooldown
  minus \<open>dt\<close>, rounded to a double, is at or below zero, and its cooldown after the shot is
  \<open>1 / fireRate\<close> rounded to a double, with the fire rate it has at that tick (upgrades
  before the tick included). If the tower then goes through any events (ticks, upgrades)
  without firing and fires again in a later tick, the sum of the \<open>dt\<close> of the ticks after
  the first shot up to and including the tick of the second is at least \<open>1 / fireRate\<close>,
  for the fire rate at the first shot, minus the rounding errors on the way: at most
  \<open>\<bar>x\<bar> / 2^53 + 2^-1075\<close> for the exact quotient \<open>x = 1 / fireRate\<close> and for the exact
  difference \<open>x = fireCooldown - dt\<close> of each of these ticks.
\<close>

theorem C6_fire_cooldown:
  assumes "0 < fireRate t0" and "snd (tower_step ev0 t0) \<noteq> []"
  shows "dsub (fireCooldown t0) (elapsed ev0) \<le> 0
       \<and> fireCooldown (fst (tower_step ev0 t0)) = ddiv 1 (fireRate t0)
       \<and> (no_shot evs (fst (tower_step ev0 t0))
            \<and> snd (tower_step ev (tower_run evs (fst (tower_step ev0 t0)))) \<noteq> []
          \<longrightarrow> 1 / fireRate t0 - rounding_bound (1 / fireRate t0)
                 - round_slack (evs @ [ev]) (fst (tower_step ev0 t0))
               \<le> sum_list (map elapsed (evs @ [ev])))
       \<and> (\<forall>x. \<bar>dround x - x\<bar> \<le> rounding_bound x)
       \<and> (\<forall>x. rounding_bound x = \<bar>x\<bar> / 2 ^ 53 + 1 / 2 ^ 1075)"
proof -
  let ?t1 = "fst (tower_step ev0 t0)"
  from tower_step_fires[OF assms(2)]
  have f1: "dsub (fireCooldown t0) (elapsed ev0) \<le> 0"
    and c1: "fireCooldown ?t1 = ddiv 1 (fireRate t0)"
    by simp_all
  from dround_error[of "1 / fireRate t0"] c1
  have c0: "1 / fireRate t0 - rounding_bound (1 / fireRate t0) \<le> fireCooldown ?t1"
    by (simp add: ddiv_def)
  have b: "1 / fireRate t0 - rounding_bound (1 / fireRate t0) - round_slack (evs @ [ev]) ?t1
             \<le> sum_list (map elapsed (evs @ [ev]))"
    if q: "no_shot evs ?t1" and f: "snd (tower_step ev (tower_run evs ?t1)) \<noteq> []"
  proof -
    let ?tn = "tower_run evs ?t1"
    obtain dt h es where ev: "ev = TowerTick dt h es"
      using f by (cases ev) simp_all
    from tower_step_fires[OF f] have "dround (fireCooldown ?tn - dt) \<le> 0"
      by (simp add: ev dsub_def)
    with dround_error[of "fireCooldown ?tn - dt"]
    have l: "fireCooldown ?tn - dt - rounding_bound (fireCooldown ?tn - dt) \<le> 0" by simp
    have s: "round_slack (evs @ [ev]) ?t1
               = round_slack evs ?t1 + rounding_bound (fireCooldown ?tn - dt)"
      by (simp add: round_slack_append ev)
    from tower_run_quiet[OF q] c0 l s show ?thesis by (simp add: ev)
  qed
  have e: "\<forall>x. \<bar>dround x - x\<bar> \<le> rounding_bound x" by (simp add: dround_error)
  have r: "\<forall>x. rounding_bound x = \<bar>x\<bar> / 2 ^ 53 + 1 / 2 ^ 1075"
    by (simp add: rounding_bound_def)
  from b have b': "no_shot evs ?t1 \<and> snd (tower_step ev (tower_run evs ?t1)) \<noteq> []
          \<longrightarrow> 1 / fireRate t0 - rounding_bound (1 / fireRate t0)
                 - round_slack (evs @ [ev]) ?t1
               \<le> sum_list (map elapsed (evs @ [ev]))"
    by blast
  show ?thesis by (rule conjI[OF f1 conjI[OF c1 conjI[OF b' conjI[OF e r]]]])
qed

theorem C6_fire_cooldown_witness:
  "0 < fireRate ready_tower
   \<and> snd (tower_step (tick_near (1/64)) ready_tower) \<noteq> []
   \<and> dsub (fireCooldown ready_tower) (1/64) \<le> 0
   \<and> fireCooldown (fst (tower_step (tick_near (1/64)) ready_tower)) = 1
   \<and> no_shot [tick_near (dround (3/10)), TowerUpgrade, tick_near (dround (7/20))]
        (fst (tower_step (tick_near (1/64)) ready_tower))
   \<and> snd (tower_step (tick_near (dround (7/20)))
             (tower_run [tick_near (dround (3/10)), TowerUpgrade, tick_near (dround (7/20))]
                (fst (tower_step (tick_near (1/64)) ready_tower)))) \<noteq> []
   \<and> sum_list (map elapsed
        ([tick_near (dround (3/10)), TowerUpgrade, tick_near (dround (7/20))]
         @ [tick_near (dround (7/20))]))
       = 1 - 1 / 2 ^ 54
   \<and> 1 / fireRate ready_tower - rounding_bound (1 / fireRate ready_tower)
       - round_slack ([tick_near (dround (3/10)), TowerUpgrade, tick_near (dround (7/20))]
                      @ [tick_near (dround (7/20))])
           (fst (tower_step (tick_near (1/64)) ready_tower))
       \<le> 1 - 1 / 2 ^ 54"
proof -
  let ?evs = "[tick_near (dround (3/10)), TowerUpgrade, tick_near (dround (7/20))]"
  let ?ev = "tick_near (dround (7/20))"
  let ?t1 = "fst (tower_step (tick_near (1/64)) ready_tower)"
  have p: "0 < fireRate ready_tower" "fireRate ready_tower = 1"
    by (simp_all add: ready_tower_def new_Tower_def)
  have f0: "snd (tower_step (tick_near (1/64)) ready_tower) \<noteq> []"
    by (simp only: fired_tower_run snd_conv) simp
  have q: "no_shot ?evs ?t1 \<and> snd (tower_step ?ev (tower_run ?evs ?t1)) \<noteq> []"
    by (simp only: fired_tower_run upgraded_tower_run tower_run.simps no_shot.simps
        fst_conv snd_conv) simp
  have e: "sum_list (map elapsed (?evs @ [?ev])) = 1 - 1 / 2 ^ 54"
    by (simp add: tick_near_def dround_7_20 dround_3_10)
  have el: "elapsed (tick_near (1/64)) = 1/64" by (simp add: tick_near_def)
  note th = C6_fire_cooldown[OF p(1) f0, of ?evs ?ev]
  from th have c: "dsub (fireCooldown ready_tower) (1/64) \<le> 0" by (simp only: el)
  from th have "fireCooldown ?t1 = ddiv 1 (fireRate ready_tower)" by blast
  then have c1: "fireCooldown ?t1 = 1"
    by (simp add: p ddiv_def dround_def ulp_def ulp_small_numeral rne_def Let_def)
  from th q have "1 / fireRate ready_tower - rounding_bound (1 / fireRate ready_tower)
       - round_slack (?evs @ [?ev]) ?t1 \<le> sum_list (map elapsed (?evs @ [?ev]))"
    by blast
  then have b: "1 / fireRate ready_tower - rounding_bound (1 / fireRate ready_tower)
       - round_slack (?evs @ [?ev]) ?t1 \<le> 1 - 1 / 2 ^ 54"
    by (simp only: e)
  from p(1) f0 c c1 q e b show ?thesis by blast
qed

text \<open>
  C7. In an update of a tower with a positive fire rate where the cooldown, after \<open>dt\<close> has
  been subtracted, is at or below zero: if some enemy of the list is within the range (Euclidean distance at most
  \<open>range\<close>), the tower fires one projectile from its position, with its damage, at an
  enemy in range whose distance is minimal among the enemies in range and strictly
  smaller than that of every enemy in range before it in the list, and the cooldown
  becomes \<open>1 / fireRate\<close>; if no enemy is in range, no projectile is emitted and the
  cooldown is only decremented, so it stays at or below zero.
\<close>

theorem C7_nearest_target:
  assumes "0 < fireRate t" and "fireCooldown t - dt \<le> 0"
  shows "((\<exists>r \<in> set es. tower_dist t (h r) \<le> trange t) \<longrightarrow>
           (\<exists>k < length es.
              Tower_update dt h es t
                = (t\<lparr>fireCooldown := 1 / fireRate t\<rparr>,
                   [new_Projectile (tx t) (ty t) (Some (es ! k)) (damage t)])
            \<and> tower_dist t (h (es ! k)) \<le> trange t
            \<and> (\<forall>j < length es. tower_dist t (h (es ! j)) \<le> trange t
                  \<longrightarrow> tower_dist t (h (es ! k)) \<le> tower_dist t (h (es ! j)))
            \<and> (\<forall>j < k. tower_dist t (h (es ! j)) \<le> trange t
                  \<longrightarrow> tower_dist t (h (es ! k)) < tower_dist t (h (es ! j)))))
       \<and> ((\<forall>r \<in> set es. \<not> tower_dist t (h r) \<le> trange t) \<longrightarrow>
            Tower_update dt h es t = (t\<lparr>fireCooldown := fireCooldown t - dt\<rparr>, [])
          \<and> fireCooldown (fst (Tower_update dt h es t)) \<le> 0)
       \<and> (\<forall>e. tower_dist t e = sqrt ((ex e - tx t)\<^sup>2 + (ey e - ty t)\<^sup>2))"
proof -
  let ?t1 = "t\<lparr>fireCooldown := fireCooldown t - dt\<rparr>"
  have a: "(\<exists>r \<in> set es. tower_dist t (h r) \<le> trange t) \<longrightarrow>
           (\<exists>k < length es.
              Tower_update dt h es t
                = (t\<lparr>fireCooldown := 1 / fireRate t\<rparr>,
                   [new_Projectile (tx t) (ty t) (Some (es ! k)) (damage t)])
            \<and> tower_dist t (h (es ! k)) \<le> trange t
            \<and> (\<forall>j < length es. tower_dist t (h (es ! j)) \<le> trange t
                  \<longrightarrow> tower_dist t (h (es ! k)) \<le> tower_dist t (h (es ! j)))
            \<and> (\<forall>j < k. tower_dist t (h (es ! j)) \<le> trange t
                  \<longrightarrow> tower_dist t (h (es ! k)) < tower_dist t (h (es ! j))))"
  proof
    assume "\<exists>r \<in> set es. tower_dist t (h r) \<le> trange t"
    then have "\<exists>r \<in> set es. tower_dist ?t1 (h r) \<le> trange ?t1
                 \<and> lt_minDist (tower_dist ?t1 (h r)) None"
      by (simp add: lt_minDist_def)
    from find_target_some[OF this, of None] obtain k where k: "k < length es"
      and res: "find_target ?t1 h es (None, None)
                  = (Some (es ! k), Some (tower_dist ?t1 (h (es ! k))))"
      and inr: "tower_dist ?t1 (h (es ! k)) \<le> trange ?t1"
      and mn: "\<forall>j < length es. tower_dist ?t1 (h (es ! j)) \<le> trange ?t1
                 \<longrightarrow> tower_dist ?t1 (h (es ! k)) \<le> tower_dist ?t1 (h (es ! j))"
      and fs: "\<forall>j < k. tower_dist ?t1 (h (es ! j)) \<le> trange ?t1
                 \<longrightarrow> tower_dist ?t1 (h (es ! k)) < tower_dist ?t1 (h (es ! j))"
      by blast
    have "Tower_update dt h es t
            = (t\<lparr>fireCooldown := 1 / fireRate t\<rparr>,
               [new_Projectile (tx t) (ty t) (Some (es ! k)) (damage t)])"
      using assms res by (simp add: Tower_update_def Let_def)
    with k inr mn fs show "\<exists>k < length es.
              Tower_update dt h es t
                = (t\<lparr>fireCooldown := 1 / fireRate t\<rparr>,
                   [new_Projectile (tx t) (ty t) (Some (es ! k)) (damage t)])
            \<and> tower_dist t (h (es ! k)) \<le> trange t
            \<and> (\<forall>j < length es. tower_dist t (h (es ! j)) \<le> trange t
                  \<longrightarrow> tower_dist t (h (es ! k)) \<le> tower_dist t (h (es ! j)))
            \<and> (\<forall>j < k. tower_dist t (h (es ! j)) \<le> trange t
                  \<longrightarrow> tower_dist t (h (es ! k)) < tower_dist t (h (es ! j)))"
      by auto
  qed
  have b: "(\<forall>r \<in> set es. \<not> tower_dist t (h r) \<le> trange t) \<longrightarrow>
            Tower_update dt h es t = (t\<lparr>fireCooldown := fireCooldown t - dt\<rparr>, [])
          \<and> fireCooldown (fst (Tower_update dt h es t)) \<le> 0"
  proof
    assume "\<forall>r \<in> set es. \<not> tower_dist t (h r) \<le> trange t"
    then have "\<forall>r \<in> set es. \<not> (tower_dist ?t1 (h r) \<le> trange ?t1
                 \<and> lt_minDist (tower_dist ?t1 (h r)) None)"
      by simp
    from find_target_none[OF this, of None] assms
    show "Tower_update dt h es t = (t\<lparr>fireCooldown := fireCooldown t - dt\<rparr>, [])
          \<and> fireCooldown (fst (Tower_update dt h es t)) \<le> 0"
      by (simp add: Tower_update_def Let_def)
  qed
  have c: "\<forall>e. tower_dist t e = sqrt ((ex e - tx t)\<^sup>2 + (ey e - ty t)\<^sup>2)"
    by (simp add: tower_dist_def)
  show ?thesis by (rule conjI[OF a conjI[OF b c]])
qed

theorem C7_nearest_target_witness:
  "0 < fireRate ready_tower
   \<and> fireCooldown ready_tower - 1/60 \<le> 0
   \<and> Tower_update (1/60) four_enemies [0, 1, 2, 3] ready_tower
     = (ready_tower\<lparr>fireCooldown := 1\<rparr>, [new_Projectile 300 420 (Some 1) 10])
   \<and> Tower_update (1/60) four_enemies [3] ready_tower
     = (ready_tower\<lparr>fireCooldown := - (1/60)\<rparr>, [])"
proof -
  have c: "fireCooldown ready_tower - 1/60 \<le> 0"
    by (simp add: ready_tower_def new_Tower_def)
  have p: "0 < fireRate ready_tower"
    by (simp add: ready_tower_def new_Tower_def)
  have f: "tx ready_tower = 300" "ty ready_tower = 420" "damage ready_tower = 10"
    "fireRate ready_tower = 1" "trange ready_tower = 100" "fireCooldown ready_tower = 0"
    by (simp_all add: ready_tower_def new_Tower_def)
  have d: "tower_dist ready_tower (four_enemies 0) = sqrt 10000"
    "tower_dist ready_tower (four_enemies 1) = sqrt 4000"
    "tower_dist ready_tower (four_enemies 2) = sqrt 4000"
    "tower_dist ready_tower (four_enemies 3) = sqrt 23200"
    "tower_dist ready_tower (four_enemies (Suc 0)) = sqrt 4000"
    by (simp_all add: tower_dist_def f four_enemies_def basic_at_def)
  have in1: "\<exists>r \<in> set [0, 1, 2, 3]. tower_dist ready_tower (four_enemies r) \<le> trange ready_tower"
    by (simp add: d f sqrt_le_sq le_sqrt_sq less_sqrt_sq sqrt_less_sq)
  from C7_nearest_target[OF p c, of "[0, 1, 2, 3]" four_enemies] in1
  obtain k where k: "k < length [0, 1, 2, 3::nat]"
    and res: "Tower_update (1/60) four_enemies [0, 1, 2, 3] ready_tower
                = (ready_tower\<lparr>fireCooldown := 1 / fireRate ready_tower\<rparr>,
                   [new_Projectile (tx ready_tower) (ty ready_tower) (Some ([0, 1, 2, 3] ! k))
                      (damage ready_tower)])"
    and inr: "tower_dist ready_tower (four_enemies ([0, 1, 2, 3] ! k)) \<le> trange ready_tower"
    and mn: "\<forall>j < length [0, 1, 2, 3::nat].
               tower_dist ready_tower (four_enemies ([0, 1, 2, 3] ! j)) \<le> trange ready_tower
               \<longrightarrow> tower_dist ready_tower (four_enemies ([0, 1, 2, 3] ! k))
                     \<le> tower_dist ready_tower (four_enemies ([0, 1, 2, 3] ! j))"
    and fs: "\<forall>j < k.
               tower_dist ready_tower (four_enemies ([0, 1, 2, 3] ! j)) \<le> trange ready_tower
               \<longrightarrow> tower_dist ready_tower (four_enemies ([0, 1, 2, 3] ! k))
                     < tower_dist ready_tower (four_enemies ([0, 1, 2, 3] ! j))"
    by blast
  from k consider "k = 0" | "k = 1" | "k = 2" | "k = 3" by force
  then have "k = 1"
  proof cases
    case 1
    with mn[rule_format, of 1] show ?thesis by (simp add: d f sqrt_le_sq le_sqrt_sq less_sqrt_sq sqrt_less_sq)
  next
    case 2
    then show ?thesis .
  next
    case 3
    with fs[rule_format, of 1] show ?thesis by (simp add: d f sqrt_le_sq le_sqrt_sq less_sqrt_sq sqrt_less_sq)
  next
    case 4
    with inr show ?thesis by (simp add: d f sqrt_le_sq le_sqrt_sq less_sqrt_sq sqrt_less_sq)
  qed
  with res have 1: "Tower_update (1/60) four_enemies [0, 1, 2, 3] ready_tower
     = (ready_tower\<lparr>fireCooldown := 1\<rparr>, [new_Projectile 300 420 (Some 1) 10])"
    by (simp add: f)
  have out: "\<forall>r \<in> set [3]. \<not> tower_dist ready_tower (four_enemies r) \<le> trange ready_tower"
    by (simp add: d f sqrt_le_sq le_sqrt_sq less_sqrt_sq sqrt_less_sq)
  from C7_nearest_target[OF p c, of "[3]" four_enemies] out
  have 2: "Tower_update (1/60) four_enemies [3] ready_tower
     = (ready_tower\<lparr>fireCooldown := - (1/60)\<rparr>, [])"
    by (simp add: f)
  from p c 1 2 show ?thesis by simp
qed

text \<open>
  C8, as stated, fails: \<^verbatim>\<open>Projectile.update\<close> tests \<^verbatim>\<open>!this.target || this.target.health <= 0\<close>
  and never looks at the live collection. In the session \<open>escaped_target\<close> the target of
  the projectile has been removed from the live collection (it escaped) with health 30;
  the tick applies the damage to it, and the projectile expires on the hit.
\<close>

theorem C8_damage_to_removed_target:
  "enemies escaped_target = []
   \<and> target (projectiles escaped_target ! 0) = Some 4
   \<and> health (heap escaped_target 4) = 30
   \<and> (case Game_update (1/60) escaped_target of
         Inl _ \<Rightarrow> False
       | Inr g' \<Rightarrow> health (heap g' 4) = 20 \<and> projectiles g' = [])"
  by (simp add: escaped_target_def new_Game_def new_WaveManager_def createWaves_def
      Game_update_def WaveManager_update_def update_phases_def towers_phase_def
      win_check_def Let_def Tower_update_def new_Tower_def projectile_step_def
      Projectile_update_def splice1_def basic_at_def sqrt_less_sq)

text \<open>
  C8, amended. A projectile whose target is null or has \<open>health \<le> 0\<close> is marked expired,
  and nothing else changes: it does not move and applies no damage. A projectile whose
  target has \<open>health > 0\<close> and is at a distance below 5 subtracts its damage from the health
  of the target and is marked expired, and nothing else changes. A projectile whose
  target has \<open>health > 0\<close> and is at a distance \<open>d\<close> of 5 or more only moves: its position
  advances by \<open>speed * dt\<close> along the unit vector from the projectile to the target, so
  that for \<open>0 \<le> speed * dt \<le> d\<close> its distance to the target becomes \<open>d - speed * dt\<close>, and
  nothing else changes. The distance is the Euclidean one. Whether the target is still in
  the live collection plays no part: the update is a function of the projectile, the
  target and \<open>dt\<close> only.
\<close>

theorem C8_projectile_update:
  "(target p = None \<longrightarrow> Projectile_update dt h p = (p\<lparr>markedForDeletion := True\<rparr>, h))
 \<and> (target p = Some r \<and> health (h r) \<le> 0
      \<longrightarrow> Projectile_update dt h p = (p\<lparr>markedForDeletion := True\<rparr>, h))
 \<and> (target p = Some r \<and> 0 < health (h r) \<and> projectile_dist p (h r) < 5
      \<longrightarrow> Projectile_update dt h p
            = (p\<lparr>markedForDeletion := True\<rparr>,
               h(r := (h r)\<lparr>health := health (h r) - pdamage p\<rparr>)))
 \<and> (target p = Some r \<and> 0 < health (h r) \<and> 5 \<le> projectile_dist p (h r)
      \<longrightarrow> Projectile_update dt h p
            = (p\<lparr>px := px p + (ex (h r) - px p) / projectile_dist p (h r) * pspeed p * dt,
                 py := py p + (ey (h r) - py p) / projectile_dist p (h r) * pspeed p * dt\<rparr>,
               h)
          \<and> (0 \<le> pspeed p * dt \<and> pspeed p * dt \<le> projectile_dist p (h r)
               \<longrightarrow> projectile_dist (fst (Projectile_update dt h p)) (h r)
                     = projectile_dist p (h r) - pspeed p * dt))
 \<and> (\<forall>e. projectile_dist p e = sqrt ((ex e - px p)\<^sup>2 + (ey e - py p)\<^sup>2))"
proof -
  have 1: "target p = None \<longrightarrow> Projectile_update dt h p = (p\<lparr>markedForDeletion := True\<rparr>, h)"
    by (simp add: Projectile_update_def)
  have 2: "target p = Some r \<and> health (h r) \<le> 0
      \<longrightarrow> Projectile_update dt h p = (p\<lparr>markedForDeletion := True\<rparr>, h)"
    by (simp add: Projectile_update_def)
  have 3: "target p = Some r \<and> 0 < health (h r) \<and> projectile_dist p (h r) < 5
      \<longrightarrow> Projectile_update dt h p
            = (p\<lparr>markedForDeletion := True\<rparr>,
               h(r := (h r)\<lparr>health := health (h r) - pdamage p\<rparr>))"
    by (simp add: Projectile_update_def projectile_dist_def Let_def)
  have 4: "target p = Some r \<and> 0 < health (h r) \<and> 5 \<le> projectile_dist p (h r)
      \<longrightarrow> Projectile_update dt h p
            = (p\<lparr>px := px p + (ex (h r) - px p) / projectile_dist p (h r) * pspeed p * dt,
                 py := py p + (ey (h r) - py p) / projectile_dist p (h r) * pspeed p * dt\<rparr>,
               h)
          \<and> (0 \<le> pspeed p * dt \<and> pspeed p * dt \<le> projectile_dist p (h r)
               \<longrightarrow> projectile_dist (fst (Projectile_update dt h p)) (h r)
                     = projectile_dist p (h r) - pspeed p * dt)"
  proof (intro impI)
    assume a: "target p = Some r \<and> 0 < health (h r) \<and> 5 \<le> projectile_dist p (h r)"
    let ?d = "projectile_dist p (h r)"
    let ?p' = "p\<lparr>px := px p + (ex (h r) - px p) / ?d * pspeed p * dt,
                 py := py p + (ey (h r) - py p) / ?d * pspeed p * dt\<rparr>"
    from a have u: "Projectile_update dt h p = (?p', h)"
      by (simp add: Projectile_update_def projectile_dist_def Let_def)
    have "projectile_dist ?p' (h r) = ?d - pspeed p * dt"
      if s: "0 \<le> pspeed p * dt \<and> pspeed p * dt \<le> ?d"
    proof -
      define d where "d = projectile_dist p (h r)"
      define dx where "dx = ex (h r) - px p"
      define dy where "dy = ey (h r) - py p"
      from a have d0: "0 < d" by (simp add: d_def)
      have dd: "d = sqrt (dx * dx + dy * dy)"
        by (simp add: d_def dx_def dy_def projectile_dist_def)
      from s have s': "0 \<le> pspeed p * dt" "pspeed p * dt \<le> d" by (simp_all add: d_def)
      have "projectile_dist (p\<lparr>px := px p + dx / d * pspeed p * dt,
                                 py := py p + dy / d * pspeed p * dt\<rparr>) (h r)
              = sqrt ((dx - dx / d * (pspeed p * dt)) * (dx - dx / d * (pspeed p * dt))
                      + (dy - dy / d * (pspeed p * dt)) * (dy - dy / d * (pspeed p * dt)))"
        by (simp add: projectile_dist_def dx_def dy_def algebra_simps)
      also have "\<dots> = d - pspeed p * dt"
        by (rule projectile_dist_scaled[OF d0 dd s'])
      finally show ?thesis by (simp add: d_def dx_def dy_def)
    qed
    with u show "Projectile_update dt h p = (?p', h)
          \<and> (0 \<le> pspeed p * dt \<and> pspeed p * dt \<le> ?d
               \<longrightarrow> projectile_dist (fst (Projectile_update dt h p)) (h r) = ?d - pspeed p * dt)"
      by simp
  qed
  have 5: "\<forall>e. projectile_dist p e = sqrt ((ex e - px p)\<^sup>2 + (ey e - py p)\<^sup>2)"
    by (simp add: projectile_dist_def power2_eq_square)
  show ?thesis by (rule conjI[OF 1 conjI[OF 2 conjI[OF 3 conjI[OF 4 5]]]])
qed

theorem C8_projectile_update_witness:
  "Projectile_update (1/60) (heap escaped_target) (projectiles escaped_target ! 0)
     = ((projectiles escaped_target ! 0)\<lparr>markedForDeletion := True\<rparr>,
        (heap escaped_target)(4 := (heap escaped_target 4)\<lparr>health := 20\<rparr>))
   \<and> Projectile_update (1/60)
         ((heap escaped_target)(4 := (heap escaped_target 4)\<lparr>health := 0\<rparr>))
         (projectiles escaped_target ! 0)
     = ((projectiles escaped_target ! 0)\<lparr>markedForDeletion := True\<rparr>,
        (heap escaped_target)(4 := (heap escaped_target 4)\<lparr>health := 0\<rparr>))
   \<and> projectile_dist ((projectiles escaped_target ! 0)\<lparr>px := 780, py := 440\<rparr>)
         (heap escaped_target 4) = 50
   \<and> Projectile_update (1/60) (heap escaped_target)
         ((projectiles escaped_target ! 0)\<lparr>px := 780, py := 440\<rparr>)
     = ((projectiles escaped_target ! 0)\<lparr>px := 783, py := 444\<rparr>, heap escaped_target)
   \<and> projectile_dist ((projectiles escaped_target ! 0)\<lparr>px := 783, py := 444\<rparr>)
         (heap escaped_target 4) = 45"
proof -
  let ?p = "projectiles escaped_target ! 0"
  let ?q = "?p\<lparr>px := 780, py := 440\<rparr>"
  let ?h = "heap escaped_target"
  let ?hz = "?h(4 := (?h 4)\<lparr>health := 0\<rparr>)"
  have t: "target ?p = Some 4" "target ?q = Some 4" by (simp_all add: escaped_target_def)
  have d: "pdamage ?p = 10" "pspeed ?q = 300" by (simp_all add: escaped_target_def)
  have hl: "health (?h 4) = 30" by (simp add: escaped_target_def basic_at_def)
  have pos: "px ?p = 807" "py ?p = 477" "ex (?h 4) = 810" "ey (?h 4) = 480"
    by (simp_all add: escaped_target_def basic_at_def)
  have near: "projectile_dist ?p (?h 4) < 5"
    by (simp add: projectile_dist_def pos sqrt_less_sq)
  have "projectile_dist ?q (?h 4) = sqrt (50\<^sup>2)"
    by (simp add: projectile_dist_def pos)
  then have far: "projectile_dist ?q (?h 4) = 50" by simp
  from C8_projectile_update[where p = ?p and h = ?h and r = 4 and dt = "1/60"] t hl near d
  have 1: "Projectile_update (1/60) ?h ?p
             = (?p\<lparr>markedForDeletion := True\<rparr>, ?h(4 := (?h 4)\<lparr>health := 20\<rparr>))"
    by simp
  from C8_projectile_update[where p = ?p and h = ?hz and r = 4 and dt = "1/60"] t
  have 2: "Projectile_update (1/60) ?hz ?p = (?p\<lparr>markedForDeletion := True\<rparr>, ?hz)"
    by simp
  note th = C8_projectile_update[where p = ?q and h = ?h and r = 4 and dt = "1/60",
      THEN conjunct2, THEN conjunct2, THEN conjunct2, THEN conjunct1]
  have c: "target ?q = Some 4 \<and> 0 < health (?h 4) \<and> 5 \<le> projectile_dist ?q (?h 4)"
    by (simp add: t hl far)
  have s: "0 \<le> pspeed ?q * (1/60) \<and> pspeed ?q * (1/60) \<le> projectile_dist ?q (?h 4)"
    by (simp add: d far)
  from th c have 3: "Projectile_update (1/60) ?h ?q = (?p\<lparr>px := 783, py := 444\<rparr>, ?h)"
    by (simp add: pos d far)
  from th c s have "projectile_dist (fst (Projectile_update (1/60) ?h ?q)) (?h 4)
                      = projectile_dist ?q (?h 4) - pspeed ?q * (1/60)"
    by blast
  then have 4: "projectile_dist (?p\<lparr>px := 783, py := 444\<rparr>) (?h 4) = 45"
    by (simp add: 3 far d)
  from 1 2 far 3 4 show ?thesis by simp
qed

text \<open>
  C9, as stated, fails: a placement click on a path cell is not surfaced as an error. The
  handler returns normally, raises no alert, and the state is unchanged; the caller
  cannot tell the click from one that had nothing to do.
\<close>

theorem C9_silent_rejection:
  "placingTower placing_basic
   \<and> \<not> gameOver placing_basic
   \<and> grid_at (grid placing_basic) \<lfloor>300 / GRID_SIZE\<rfloor> \<lfloor>20 / GRID_SIZE\<rfloor>
       = Some \<lparr>walkable = False, ctower = None\<rparr>
   \<and> handleClick 20 300 placing_basic = Inr ([], placing_basic)"
  using path_grid_7_0
  by (simp add: placing_basic_def new_Game_def handleClick_def GRID_SIZE_def Let_def)

text \<open>
  C9, amended. After game over every click returns at once: no alert, state unchanged. A
  placement click (placing is on) on a cell outside the grid or on a cell that is not
  walkable returns normally with no alert and leaves the whole state unchanged. While the
  game is not over: a placement click on a walkable cell, where the selected tower type is
  a key of \<open>towerTypes\<close> (as in every session, lemma \<open>session_selected_known\<close>), with less
  money than the cost of that type leaves the state unchanged and raises the alert
  \<open>NotEnoughMoney\<close>, and with enough money the cost is deducted, a tower is added and the
  cell is no longer walkable (so an occupied cell rejects the next placement); an upgrade
  click (placing is off and the click is within the range of a tower, the first such in
  the order of placement) with less money than \<open>level * 25 + 50\<close> leaves the state
  unchanged and raises the alert \<open>NeedToUpgrade\<close> with that cost. Whenever an alert is
  raised the state is unchanged.
\<close>

theorem C9_rejected_commands:
  "(gameOver g \<longrightarrow> handleClick x y g = Inr ([], g))
 \<and> (placingTower g \<and> grid_at (grid g) \<lfloor>y / GRID_SIZE\<rfloor> \<lfloor>x / GRID_SIZE\<rfloor> = None
      \<longrightarrow> handleClick x y g = Inr ([], g))
 \<and> (placingTower g \<and> grid_at (grid g) \<lfloor>y / GRID_SIZE\<rfloor> \<lfloor>x / GRID_SIZE\<rfloor> = Some c
      \<and> \<not> walkable c
      \<longrightarrow> handleClick x y g = Inr ([], g))
 \<and> (placingTower g \<and> \<not> gameOver g
      \<and> grid_at (grid g) \<lfloor>y / GRID_SIZE\<rfloor> \<lfloor>x / GRID_SIZE\<rfloor> = Some c \<and> walkable c
      \<and> towerTypes (selectedTowerType g) = Some towerType
      \<longrightarrow> (money g < t_cost towerType \<longrightarrow> handleClick x y g = Inr ([NotEnoughMoney], g))
        \<and> (t_cost towerType \<le> money g \<longrightarrow>
             (\<exists>g'. handleClick x y g = Inr ([], g')
                \<and> money g' = money g - t_cost towerType
                \<and> length (towers g') = length (towers g) + 1
                \<and> (\<exists>c'. grid_at (grid g') \<lfloor>y / GRID_SIZE\<rfloor> \<lfloor>x / GRID_SIZE\<rfloor> = Some c'
                          \<and> \<not> walkable c'))))
 \<and> (\<not> placingTower g \<and> \<not> gameOver g \<and> clicked_tower x y (towers g) 0 = Some i
      \<and> money g < real (level (towers g ! i)) * 25 + 50
      \<longrightarrow> handleClick x y g
            = Inr ([NeedToUpgrade (real (level (towers g ! i)) * 25 + 50)], g))
 \<and> (\<forall>al g'. handleClick x y g = Inr (al, g') \<and> al \<noteq> [] \<longrightarrow> g' = g)"
proof -
  have 0: "gameOver g \<longrightarrow> handleClick x y g = Inr ([], g)"
    by (simp add: handleClick_def)
  have 1: "placingTower g \<and> grid_at (grid g) \<lfloor>y / GRID_SIZE\<rfloor> \<lfloor>x / GRID_SIZE\<rfloor> = None
      \<longrightarrow> handleClick x y g = Inr ([], g)"
    by (simp add: handleClick_def Let_def)
  have 2: "placingTower g \<and> grid_at (grid g) \<lfloor>y / GRID_SIZE\<rfloor> \<lfloor>x / GRID_SIZE\<rfloor> = Some c
      \<and> \<not> walkable c \<longrightarrow> handleClick x y g = Inr ([], g)"
    by (simp add: handleClick_def Let_def)
  have 3: "placingTower g \<and> \<not> gameOver g
      \<and> grid_at (grid g) \<lfloor>y / GRID_SIZE\<rfloor> \<lfloor>x / GRID_SIZE\<rfloor> = Some c \<and> walkable c
      \<and> towerTypes (selectedTowerType g) = Some towerType
      \<longrightarrow> (money g < t_cost towerType \<longrightarrow> handleClick x y g = Inr ([NotEnoughMoney], g))
        \<and> (t_cost towerType \<le> money g \<longrightarrow>
             (\<exists>g'. handleClick x y g = Inr ([], g')
                \<and> money g' = money g - t_cost towerType
                \<and> length (towers g') = length (towers g) + 1
                \<and> (\<exists>c'. grid_at (grid g') \<lfloor>y / GRID_SIZE\<rfloor> \<lfloor>x / GRID_SIZE\<rfloor> = Some c'
                          \<and> \<not> walkable c')))"
    using grid_at_update_same[of "grid g" "\<lfloor>y / GRID_SIZE\<rfloor>" "\<lfloor>x / GRID_SIZE\<rfloor>" c]
    by (auto simp: handleClick_def Let_def)
  have 4: "\<not> placingTower g \<and> \<not> gameOver g \<and> clicked_tower x y (towers g) 0 = Some i
      \<and> money g < real (level (towers g ! i)) * 25 + 50
      \<longrightarrow> handleClick x y g
            = Inr ([NeedToUpgrade (real (level (towers g ! i)) * 25 + 50)], g)"
    by (simp add: handleClick_def upgradeTower_def Let_def)
  have 5: "\<forall>al g'. handleClick x y g = Inr (al, g') \<and> al \<noteq> [] \<longrightarrow> g' = g"
    by (auto simp: handleClick_def upgradeTower_def Let_def
        split: if_splits option.splits)
  from 0 1 2 3 4 5 show ?thesis by blast
qed

theorem C9_rejected_commands_witness:
  "handleClick 20 300 placing_basic = Inr ([], placing_basic)
   \<and> handleClick 900 20 placing_basic = Inr ([], placing_basic)
   \<and> handleClick 60 20 placing_poor = Inr ([NotEnoughMoney], placing_poor)
   \<and> handleClick 25 30 one_tower_upgraded = Inr ([NeedToUpgrade 100], one_tower_upgraded)
   \<and> handleClick 60 20 (placing_poor\<lparr>gameOver := True\<rparr>)
       = Inr ([], placing_poor\<lparr>gameOver := True\<rparr>)
   \<and> handleClick 25 30 (one_tower_upgraded\<lparr>gameOver := True\<rparr>)
       = Inr ([], one_tower_upgraded\<lparr>gameOver := True\<rparr>)"
proof -
  have pb: "placingTower placing_basic" "grid placing_basic = path_grid"
    by (simp_all add: placing_basic_def new_Game_def)
  have c1: "grid_at (grid placing_basic) \<lfloor>300 / GRID_SIZE\<rfloor> \<lfloor>20 / GRID_SIZE\<rfloor>
              = Some \<lparr>walkable = False, ctower = None\<rparr>"
    using path_grid_7_0 by (simp add: pb GRID_SIZE_def)
  have c2: "grid_at (grid placing_basic) \<lfloor>20 / GRID_SIZE\<rfloor> \<lfloor>900 / GRID_SIZE\<rfloor> = None"
    using path_grid_dims by (simp add: pb GRID_SIZE_def grid_at_def)
  have pp: "placingTower placing_poor" "\<not> gameOver placing_poor" "money placing_poor = 25"
    "selectedTowerType placing_poor = ''basic''"
    "grid placing_poor
       = path_grid[nat 0 := (path_grid ! nat 0)[nat 0 := \<lparr>walkable = False, ctower = Some 0\<rparr>]]"
    by (simp_all add: placing_poor_def one_tower_upgraded_def one_tower_def new_Game_def)
  have c3: "grid_at (grid placing_poor) \<lfloor>20 / GRID_SIZE\<rfloor> \<lfloor>60 / GRID_SIZE\<rfloor>
              = Some \<lparr>walkable = True, ctower = None\<rparr>"
    using grid_at_update_other[of 0 1 0 0 path_grid] path_grid_0_1
    by (simp add: pp(5) GRID_SIZE_def)
  have tt: "towerTypes ''basic''
              = Some \<lparr>t_cost = 50, t_damage = 10, t_range = 100, t_fireRate = 1\<rparr>"
    by (simp add: towerTypes_def)
  have up: "\<not> placingTower one_tower_upgraded" "\<not> gameOver one_tower_upgraded"
    "clicked_tower 25 30 (towers one_tower_upgraded) 0 = Some 0"
    "money one_tower_upgraded = 25" "level (towers one_tower_upgraded ! 0) = 2"
    by (simp_all add: one_tower_upgraded_def one_tower_def new_Game_def sqrt_le_sq)
  note t1 = C9_rejected_commands[where g = placing_basic and x = 20 and y = 300
      and c = "\<lparr>walkable = False, ctower = None\<rparr>"]
  note t2 = C9_rejected_commands[where g = placing_basic and x = 900 and y = 20]
  note t3 = C9_rejected_commands[where g = placing_poor and x = 60 and y = 20
      and c = "\<lparr>walkable = True, ctower = None\<rparr>"
      and towerType = "\<lparr>t_cost = 50, t_damage = 10, t_range = 100, t_fireRate = 1\<rparr>"]
  note t4 = C9_rejected_commands[where g = one_tower_upgraded and x = 25 and y = 30
      and i = 0]
  have 1: "handleClick 20 300 placing_basic = Inr ([], placing_basic)"
    using t1 pb(1) c1 by simp
  have 2: "handleClick 900 20 placing_basic = Inr ([], placing_basic)"
    using t2 pb(1) c2 by simp
  have 3: "handleClick 60 20 placing_poor = Inr ([NotEnoughMoney], placing_poor)"
    using t3 pp(1-4) c3 tt by simp
  have 4: "handleClick 25 30 one_tower_upgraded
             = Inr ([NeedToUpgrade 100], one_tower_upgraded)"
    using t4 up by simp
  have 5: "handleClick 60 20 (placing_poor\<lparr>gameOver := True\<rparr>)
             = Inr ([], placing_poor\<lparr>gameOver := True\<rparr>)"
    using C9_rejected_commands[where g = "placing_poor\<lparr>gameOver := True\<rparr>" and x = 60
        and y = 20]
    by simp
  have 6: "handleClick 25 30 (one_tower_upgraded\<lparr>gameOver := True\<rparr>)
             = Inr ([], one_tower_upgraded\<lparr>gameOver := True\<rparr>)"
    using C9_rejected_commands[where g = "one_tower_upgraded\<lparr>gameOver := True\<rparr>"
        and x = 25 and y = 30]
    by simp
  from 1 2 3 4 5 6 show ?thesis by simp
qed

text \<open>
  C10. In every state reached from the initial state by ticks and commands, money is not
  negative.
\<close>

theorem C10_money_nonneg: "run evs (new_Game gr pa) = Inr g \<Longrightarrow> 0 \<le> money g"
  using run_money_inv[OF new_Game_money_inv] by (simp add: money_inv_def)

theorem C10_money_nonneg_witness:
  "run [StartPlacing ''basic'', Click 20 20, Click 25 30, Click 25 30]
     (new_Game path_grid createPath) = Inr one_tower_upgraded
   \<and> money one_tower_upgraded = 25
   \<and> 0 \<le> money one_tower_upgraded"
proof -
  have "run ([StartPlacing ''basic'', Click 20 20] @ [Click 25 30, Click 25 30])
          (new_Game path_grid createPath) = Inr one_tower_upgraded"
    by (simp only: run_append one_tower_run one_tower_upgraded_run sum.case)
  then have r: "run [StartPlacing ''basic'', Click 20 20, Click 25 30, Click 25 30]
          (new_Game path_grid createPath) = Inr one_tower_upgraded"
    by simp
  from C10_money_nonneg[OF r] r show ?thesis
    by (simp add: one_tower_upgraded_def)
qed

end
